(* ===== verification/Prelude.thy ===== *)
theory Prelude
  imports Main "HOL-Library.Word" "HOL-Library.AList" "HOL-Library.Sublist"
    "HOL-Library.Multiset" "HOL-Library.Char_ord" "HOL-Library.List_Lexorder"
begin

text \<open>
  The shared base of the development: the types that stand for Go's basic types, the result
  combinator behind every fallible operation, 64-bit wrap-around and saturation of
  \<^verbatim>\<open>time.Duration\<close>, and the generic lemmas on lists and association lists that
  the component theories use. Collections of facts: \<open>go_result\<close> (results and early
  returns), \<open>go_map\<close> (Go maps as association lists), \<open>go_time\<close> (constants of
  package time).
\<close>

named_theorems go_result
named_theorems go_map
named_theorems go_time

section \<open>Basic types\<close>

text \<open>
  A Go \<^verbatim>\<open>string\<close> is a \<open>string\<close> whose characters are the bytes; a
  \<^verbatim>\<open>[]byte\<close> is a list of 8-bit words. \<^verbatim>\<open>time.Time\<close> is a number of
  nanoseconds since the epoch, \<^verbatim>\<open>time.Duration\<close> a number of nanoseconds that the
  code keeps in a signed 64-bit integer.
\<close>

type_synonym byte = "8 word"
type_synonym bytes = "byte list"
type_synonym time = int
type_synonym duration = int

abbreviation ord_of :: "char \<Rightarrow> nat" where
  "ord_of c \<equiv> of_char c"

definition bytes_of :: "string \<Rightarrow> bytes" where
  "bytes_of s = map (\<lambda>c. of_nat (ord_of c)) s"

lemma length_bytes_of [simp]: "length (bytes_of s) = length s"
  by (simp add: bytes_of_def)

lemma bytes_of_append [simp]: "bytes_of (s @ t) = bytes_of s @ bytes_of t"
  by (simp add: bytes_of_def)

lemma of_nat_ord_inj: "(of_nat (ord_of c) :: byte) = of_nat (ord_of d) \<Longrightarrow> c = d"
proof -
  assume "(of_nat (ord_of c) :: byte) = of_nat (ord_of d)"
  then have "unat (of_nat (ord_of c) :: byte) = unat (of_nat (ord_of d) :: byte)" by simp
  moreover have "ord_of c < 256" "ord_of d < 256"
    using nat_of_char_less_256 by auto
  ultimately have "ord_of c = ord_of d" by (simp add: unat_of_nat)
  then show "c = d" by simp
qed

lemma inj_bytes_of: "inj bytes_of"
  unfolding bytes_of_def by (rule inj_mapI, rule injI, erule of_nat_ord_inj)

lemma bytes_of_eq_iff [simp]: "bytes_of s = bytes_of t \<longleftrightarrow> s = t"
  using inj_bytes_of by (auto dest: injD)

section \<open>Results\<close>

text \<open>
  A function returning \<^verbatim>\<open>(T, error)\<close> has a value in \<open>'e + 'a\<close>:
  \<open>Inl\<close> is the error, \<open>Inr\<close> the value. \<open>and_then\<close> is the pattern
  \<^verbatim>\<open>if err != nil { return err }\<close>; \<open>map_err\<close> is the wrapping of an error on the
  way out.
\<close>

definition and_then :: "'e + 'a \<Rightarrow> ('a \<Rightarrow> 'e + 'b) \<Rightarrow> 'e + 'b" where
  "and_then m f = (case m of Inl e \<Rightarrow> Inl e | Inr x \<Rightarrow> f x)"

definition map_err :: "('e \<Rightarrow> 'f) \<Rightarrow> 'e + 'a \<Rightarrow> 'f + 'a" where
  "map_err w m = (case m of Inl e \<Rightarrow> Inl (w e) | Inr x \<Rightarrow> Inr x)"

definition of_option :: "'e \<Rightarrow> 'a option \<Rightarrow> 'e + 'a" where
  "of_option e x = (case x of None \<Rightarrow> Inl e | Some v \<Rightarrow> Inr v)"

definition is_ok :: "'e + 'a \<Rightarrow> bool" where
  "is_ok m \<longleftrightarrow> (case m of Inl _ \<Rightarrow> False | Inr _ \<Rightarrow> True)"

lemma and_then_simps [simp]:
  "and_then (Inl e) f = Inl e" "and_then (Inr x) f = f x"
  by (simp_all add: and_then_def)

lemma map_err_simps [simp]:
  "map_err w (Inl e) = Inl (w e)" "map_err w (Inr x) = Inr x"
  by (simp_all add: map_err_def)

lemma of_option_simps [simp]:
  "of_option e None = Inl e" "of_option e (Some v) = Inr v"
  by (simp_all add: of_option_def)

lemma is_ok_simps [simp]: "\<not> is_ok (Inl e)" "is_ok (Inr x)"
  by (simp_all add: is_ok_def)

lemma is_ok_iff: "is_ok m \<longleftrightarrow> (\<exists>x. m = Inr x)"
  by (cases m) auto

lemma and_then_eq_Inr [go_result]:
  "and_then m f = Inr y \<longleftrightarrow> (\<exists>x. m = Inr x \<and> f x = Inr y)"
  by (cases m) auto

lemma and_then_eq_Inl [go_result]:
  "and_then m f = Inl e \<longleftrightarrow> m = Inl e \<or> (\<exists>x. m = Inr x \<and> f x = Inl e)"
  by (cases m) auto

lemma map_err_eq_Inr [go_result]: "map_err w m = Inr y \<longleftrightarrow> m = Inr y"
  by (cases m) auto

lemma map_err_eq_Inl [go_result]: "map_err w m = Inl e \<longleftrightarrow> (\<exists>d. m = Inl d \<and> e = w d)"
  by (cases m) auto

lemma of_option_eq_Inr [go_result]: "of_option e x = Inr y \<longleftrightarrow> x = Some y"
  by (cases x) auto

lemma of_option_eq_Inl [go_result]: "of_option e x = Inl d \<longleftrightarrow> x = None \<and> d = e"
  by (cases x) auto

section \<open>Durations and times\<close>

definition max_int64 :: int where "max_int64 = 9223372036854775807"
definition min_int64 :: int where "min_int64 = - 9223372036854775808"

text \<open>Signed 64-bit wrap-around, as Go's integer multiplication and conversion do.\<close>

definition wrap64 :: "int \<Rightarrow> int" where
  "wrap64 x = (x + 9223372036854775808) mod 18446744073709551616 - 9223372036854775808"

definition Second :: duration where "Second = 1000000000"
definition Minute :: duration where "Minute = 60 * Second"
definition Hour :: duration where "Hour = 60 * Minute"

lemmas duration_defs [go_time] = Second_def Minute_def Hour_def

lemma wrap64_id: "min_int64 \<le> x \<Longrightarrow> x \<le> max_int64 \<Longrightarrow> wrap64 x = x"
  by (simp add: wrap64_def min_int64_def max_int64_def)

lemma wrap64_range: "min_int64 \<le> wrap64 x \<and> wrap64 x \<le> max_int64"
proof -
  have "0 \<le> (x + 9223372036854775808) mod 18446744073709551616"
    and "(x + 9223372036854775808) mod 18446744073709551616 < 18446744073709551616"
    by simp_all
  then show ?thesis unfolding wrap64_def min_int64_def max_int64_def by linarith
qed

text \<open>
  \<^verbatim>\<open>Time.Add\<close>, \<^verbatim>\<open>Time.After\<close> and \<^verbatim>\<open>Time.Sub\<close>; the last
  saturates at the ends of the duration range.
\<close>

definition time_Add :: "time \<Rightarrow> duration \<Rightarrow> time" where
  "time_Add t d = t + d"

definition time_After :: "time \<Rightarrow> time \<Rightarrow> bool" where
  "time_After t u \<longleftrightarrow> u < t"

definition time_Before :: "time \<Rightarrow> time \<Rightarrow> bool" where
  "time_Before t u \<longleftrightarrow> t < u"

definition time_Sub :: "time \<Rightarrow> time \<Rightarrow> duration" where
  "time_Sub t u = max min_int64 (min max_int64 (t - u))"

lemmas time_ops [go_time] = time_Add_def time_After_def time_Before_def

lemma time_Sub_less_iff:
  "min_int64 < d \<Longrightarrow> d \<le> max_int64 \<Longrightarrow> time_Sub t u < d \<longleftrightarrow> t - u < d"
  unfolding time_Sub_def min_int64_def max_int64_def by linarith

lemma time_Sub_greater_iff:
  "min_int64 \<le> d \<Longrightarrow> d < max_int64 \<Longrightarrow> d < time_Sub t u \<longleftrightarrow> d < t - u"
  unfolding time_Sub_def min_int64_def max_int64_def by linarith

section \<open>Go maps as association lists\<close>

text \<open>
  A Go map is an association list with distinct keys; \<open>map_of\<close> looks a key up,
  \<open>AList.update\<close> stores, \<open>AList.delete\<close> deletes, \<open>length\<close> is \<^verbatim>\<open>len\<close>.
  The list order is one possible iteration order; where the order is visible the operation
  takes it as an argument.
\<close>

abbreviation distinct_keys :: "('k \<times> 'v) list \<Rightarrow> bool" where
  "distinct_keys m \<equiv> distinct (map fst m)"

lemma distinct_keys_update [go_map, intro]: "distinct_keys m \<Longrightarrow> distinct_keys (AList.update k v m)"
  by (rule distinct_update)

lemma distinct_keys_delete [go_map, intro]: "distinct_keys m \<Longrightarrow> distinct_keys (AList.delete k m)"
  by (rule distinct_delete)

lemma distinct_keys_filter [go_map, intro]: "distinct_keys m \<Longrightarrow> distinct_keys (filter P m)"
  by (induction m) auto

lemma map_of_update [go_map, simp]: "map_of (AList.update k v m) = (map_of m)(k \<mapsto> v)"
  by (rule update_conv')

lemma map_of_delete [go_map, simp]: "map_of (AList.delete k m) = (map_of m)(k := None)"
  by (rule delete_conv')

lemma map_of_filter_snd [go_map]:
  "distinct_keys m \<Longrightarrow>
     map_of (filter (\<lambda>(k, v). P v) m) k = (case map_of m k of Some v \<Rightarrow> if P v then Some v else None | None \<Rightarrow> None)"
  by (induction m) (auto split: option.splits simp: map_of_eq_None_iff rev_image_eqI)

lemma set_update_subset [go_map]: "set (AList.update k v m) \<subseteq> insert (k, v) (set m)"
  by (induction m) auto

lemma set_delete_subset [go_map]: "set (AList.delete k m) \<subseteq> set m"
  by (auto simp: AList.delete_eq)

lemma keys_update [go_map]: "fst ` set (AList.update k v m) = insert k (fst ` set m)"
  by (induction m) auto

lemma length_update_le: "length (AList.update k v m) \<le> Suc (length m)"
  by (induction m) auto

lemma length_delete_le: "length (AList.delete k m) \<le> length m"
  by (simp add: AList.delete_eq)

lemma delete_absent: "map_of m k = None \<Longrightarrow> AList.delete k m = m"
  by (induction m) (auto split: if_splits)

lemma update_absent: "map_of m k = None \<Longrightarrow> AList.update k v m = m @ [(k, v)]"
  by (induction m) (auto split: if_splits)

lemma delete_length_less:
  "map_of m k = Some v \<Longrightarrow> length (AList.delete k m) < length m"
proof (induction m)
  case (Cons kv m)
  have "length (AList.delete k m) \<le> length m" by (rule length_delete_le)
  with Cons show ?case by (cases kv) (auto split: if_splits)
qed simp

section \<open>Lists\<close>

lemma append_same_length_inj:
  "length a = length c \<Longrightarrow> a @ b = c @ d \<Longrightarrow> a = c \<and> b = d"
  by simp

lemma dropWhile_hd: "dropWhile P xs = y # ys \<Longrightarrow> \<not> P y"
  by (induction xs) (auto split: if_splits)

lemma set_dropWhile_subset: "set (dropWhile P xs) \<subseteq> set xs"
  by (auto dest: set_dropWhileD)

lemma list_all_dropWhile: "list_all Q xs \<Longrightarrow> list_all Q (dropWhile P xs)"
  by (auto simp: list_all_iff dest: set_dropWhileD)

end
