(* ===== verification/GoStrings.thy ===== *)
theory GoStrings
  imports Prelude
begin

text \<open>
  The string functions of Go's standard library that the program calls, on byte strings:
  \<^verbatim>\<open>strings\<close> (\<open>TrimPrefix\<close>, \<open>TrimSuffix\<close>, \<open>Split\<close>, \<open>Cut\<close>, \<open>Trim\<close>,
  \<open>TrimRight\<close>, \<open>TrimSpace\<close>), \<^verbatim>\<open>strconv\<close> (\<open>Itoa\<close>, \<open>Atoi\<close>), the zero-padded
  decimal format of \<^verbatim>\<open>fmt\<close>, \<^verbatim>\<open>hex.EncodeToString\<close> and the address functions
  \<^verbatim>\<open>net.JoinHostPort\<close> and \<^verbatim>\<open>net.SplitHostPort\<close>, with their round trips.
\<close>

section \<open>Character classes\<close>

definition is_digit_char :: "char \<Rightarrow> bool" where
  "is_digit_char c \<longleftrightarrow> 48 \<le> ord_of c \<and> ord_of c \<le> 57"

definition is_lower_char :: "char \<Rightarrow> bool" where
  "is_lower_char c \<longleftrightarrow> 97 \<le> ord_of c \<and> ord_of c \<le> 122"

definition label_char :: "char \<Rightarrow> bool" where
  "label_char c \<longleftrightarrow> is_lower_char c \<or> is_digit_char c \<or> c = CHR ''-''"

lemmas char_class_defs = is_digit_char_def is_lower_char_def label_char_def

lemma label_char_ord:
  "label_char c \<longleftrightarrow> ord_of c = 45 \<or> (48 \<le> ord_of c \<and> ord_of c \<le> 57) \<or> (97 \<le> ord_of c \<and> ord_of c \<le> 122)"
proof -
  have "c = CHR ''-'' \<longleftrightarrow> ord_of c = 45"
  proof
    assume "ord_of c = 45"
    then have "ord_of c = ord_of (CHR ''-'')" by simp
    then show "c = CHR ''-''" by (simp only: of_char_eq_iff)
  qed simp
  then show ?thesis by (auto simp: char_class_defs)
qed

section \<open>Decimal numbers\<close>

definition digit_char :: "nat \<Rightarrow> char" where
  "digit_char d = char_of (48 + d)"

fun nat_digits :: "nat \<Rightarrow> string" where
  "nat_digits n = (if n < 10 then [digit_char n] else nat_digits (n div 10) @ [digit_char (n mod 10)])"

declare nat_digits.simps [simp del]

definition digits_val :: "string \<Rightarrow> nat" where
  "digits_val s = foldl (\<lambda>a c. 10 * a + (ord_of c - 48)) 0 s"

definition Itoa :: "int \<Rightarrow> string" where
  "Itoa n = (if n < 0 then CHR ''-'' # nat_digits (nat (- n)) else nat_digits (nat n))"

definition Atoi :: "string \<Rightarrow> int option" where
  "Atoi s =
     (let (neg, d) = (case s of c # r \<Rightarrow> if c = CHR ''-'' then (True, r)
                                        else if c = CHR ''+'' then (False, r) else (False, s)
                      | [] \<Rightarrow> (False, s))
      in if d = [] \<or> \<not> list_all is_digit_char d then None
         else let v = int (digits_val d); n = (if neg then - v else v)
              in if min_int64 \<le> n \<and> n \<le> max_int64 then Some n else None)"

text \<open>The verb \<^verbatim>\<open>%0*d\<close> on a non-negative number.\<close>

definition pad_decimal :: "nat \<Rightarrow> nat \<Rightarrow> string" where
  "pad_decimal w n = replicate (w - length (nat_digits n)) CHR ''0'' @ nat_digits n"

lemma ord_digit_char: "d < 10 \<Longrightarrow> ord_of (digit_char d) = 48 + d"
  by (simp add: digit_char_def)

lemma is_digit_digit_char [simp]: "d < 10 \<Longrightarrow> is_digit_char (digit_char d)"
  by (simp add: is_digit_char_def ord_digit_char)

lemma nat_digits_all_digits: "list_all is_digit_char (nat_digits n)"
  by (induction n rule: nat_digits.induct) (subst nat_digits.simps, simp)

lemma nat_digits_nonempty [simp]: "nat_digits n \<noteq> []"
  by (subst nat_digits.simps) simp

lemma digits_val_snoc: "digits_val (s @ [c]) = 10 * digits_val s + (ord_of c - 48)"
  by (simp add: digits_val_def)

lemma digits_val_nat_digits [simp]: "digits_val (nat_digits n) = n"
proof (induction n rule: nat_digits.induct)
  case (1 n)
  show ?case
  proof (cases "n < 10")
    case True
    then show ?thesis by (subst nat_digits.simps) (simp add: digits_val_def ord_digit_char)
  next
    case False
    with 1 have "digits_val (nat_digits (n div 10)) = n div 10" by simp
    with False show ?thesis
      by (subst nat_digits.simps) (simp add: digits_val_snoc ord_digit_char)
  qed
qed

lemma digits_val_zeros: "digits_val (replicate k CHR ''0'' @ s) = digits_val s"
proof (induction k)
  case (Suc k)
  have "digits_val (CHR ''0'' # t) = digits_val t" for t by (simp add: digits_val_def)
  with Suc show ?case by simp
qed simp

lemma digits_val_pad [simp]: "digits_val (pad_decimal w n) = n"
  by (simp add: pad_decimal_def digits_val_zeros)

lemma length_nat_digits: "n < 10 ^ k \<Longrightarrow> 0 < k \<Longrightarrow> length (nat_digits n) \<le> k"
proof (induction k arbitrary: n)
  case (Suc k)
  show ?case
  proof (cases "n < 10")
    case True
    then show ?thesis by (subst nat_digits.simps) simp
  next
    case False
    with Suc.prems have "0 < k" by (cases k) auto
    moreover have "n div 10 < 10 ^ k" using Suc.prems(1) by (simp add: div_less_iff_less_mult mult.commute)
    ultimately have "length (nat_digits (n div 10)) \<le> k" using Suc.IH by blast
    with False show ?thesis by (subst nat_digits.simps) simp
  qed
qed simp

lemma length_pad_decimal: "n < 10 ^ w \<Longrightarrow> 0 < w \<Longrightarrow> length (pad_decimal w n) = w"
  using length_nat_digits[of n w] by (simp add: pad_decimal_def)

lemma pad_decimal_all_digits: "list_all is_digit_char (pad_decimal w n)"
  using nat_digits_all_digits[of n] by (auto simp: pad_decimal_def list_all_iff is_digit_char_def)

lemma hd_digits_not_sign:
  "list_all is_digit_char (c # r) \<Longrightarrow> c \<noteq> CHR ''-'' \<and> c \<noteq> CHR ''+''"
  by (auto simp: is_digit_char_def)

lemma Atoi_digits:
  assumes "list_all is_digit_char s" "s \<noteq> []" "int (digits_val s) \<le> max_int64"
  shows "Atoi s = Some (int (digits_val s))"
proof -
  obtain c r where s: "s = c # r" using assms(2) by (cases s) auto
  have "c \<noteq> CHR ''-''" "c \<noteq> CHR ''+''" using hd_digits_not_sign assms(1) s by auto
  with assms s show ?thesis by (simp add: Atoi_def min_int64_def)
qed

lemma Atoi_Itoa: "min_int64 \<le> n \<Longrightarrow> n \<le> max_int64 \<Longrightarrow> Atoi (Itoa n) = Some n"
proof (cases "n < 0")
  case True
  assume "min_int64 \<le> n" "n \<le> max_int64"
  with True show ?thesis
    using nat_digits_all_digits[of "nat (- n)"] by (simp add: Itoa_def Atoi_def)
next
  case False
  assume "min_int64 \<le> n" "n \<le> max_int64"
  with False show ?thesis
    using nat_digits_all_digits[of "nat n"] by (simp add: Itoa_def Atoi_digits)
qed

lemma Itoa_nonempty [simp]: "Itoa n \<noteq> []"
  by (simp add: Itoa_def)

lemma Itoa_nonneg_digits: "0 \<le> n \<Longrightarrow> list_all is_digit_char (Itoa n)"
  by (simp add: Itoa_def nat_digits_all_digits)

lemma digit_notin: "list_all is_digit_char s \<Longrightarrow> \<not> is_digit_char c \<Longrightarrow> c \<notin> set s"
  by (auto simp: list_all_iff)

section \<open>Prefixes, suffixes, splitting\<close>

definition HasSuffix :: "string \<Rightarrow> string \<Rightarrow> bool" where
  "HasSuffix s q \<longleftrightarrow> suffix q s"

definition TrimPrefix :: "string \<Rightarrow> string \<Rightarrow> string" where
  "TrimPrefix s p = (if prefix p s then drop (length p) s else s)"

definition TrimSuffix :: "string \<Rightarrow> string \<Rightarrow> string" where
  "TrimSuffix s q = (if suffix q s then take (length s - length q) s else s)"

text \<open>\<^verbatim>\<open>strings.Split\<close> with a one-byte separator.\<close>

fun Split :: "char \<Rightarrow> string \<Rightarrow> string list" where
  "Split c [] = [[]]"
| "Split c (x # xs) =
     (if x = c then [] # Split c xs
      else (case Split c xs of [] \<Rightarrow> [[x]] | y # ys \<Rightarrow> (x # y) # ys))"

text \<open>\<^verbatim>\<open>strings.Cut\<close> with a one-byte separator: before, after, found.\<close>

definition Cut :: "char \<Rightarrow> string \<Rightarrow> string \<times> string \<times> bool" where
  "Cut c s = (if c \<in> set s then (takeWhile (\<lambda>x. x \<noteq> c) s, tl (dropWhile (\<lambda>x. x \<noteq> c) s), True)
              else (s, [], False))"

definition TrimRight :: "char \<Rightarrow> string \<Rightarrow> string" where
  "TrimRight c s = rev (dropWhile (\<lambda>x. x = c) (rev s))"

definition Trim :: "char \<Rightarrow> string \<Rightarrow> string" where
  "Trim c s = TrimRight c (dropWhile (\<lambda>x. x = c) s)"

lemma Split_nonempty [simp]: "Split c s \<noteq> []"
  by (induction s) (auto split: list.splits)

lemma Split_no_sep [simp]: "c \<notin> set s \<Longrightarrow> Split c s = [s]"
  by (induction s) auto

lemma Split_append: "c \<notin> set a \<Longrightarrow> Split c (a @ c # b) = a # Split c b"
  by (induction a) auto

lemma Split_single_iff: "Split c s = [t] \<longleftrightarrow> c \<notin> set s \<and> t = s"
proof
  assume split: "Split c s = [t]"
  have "c \<notin> set s"
  proof
    assume "c \<in> set s"
    then obtain a b where "s = a @ c # b" "c \<notin> set a" using split_list_first by metis
    then show False using split by (simp add: Split_append)
  qed
  then show "c \<notin> set s \<and> t = s" using split by simp
qed simp

lemma Cut_append: "c \<notin> set a \<Longrightarrow> Cut c (a @ c # b) = (a, b, True)"
  by (simp add: Cut_def takeWhile_append dropWhile_append)

lemma set_TrimRight: "set (TrimRight c s) \<subseteq> set s"
  by (auto simp: TrimRight_def dest: set_dropWhileD)

lemma set_Trim: "set (Trim c s) \<subseteq> set s"
  using set_TrimRight by (fastforce simp: Trim_def dest: set_dropWhileD)

lemma TrimRight_prefix: "\<exists>t. s = TrimRight c s @ t"
proof -
  have "rev s = takeWhile (\<lambda>x. x = c) (rev s) @ dropWhile (\<lambda>x. x = c) (rev s)" by simp
  then have "s = rev (dropWhile (\<lambda>x. x = c) (rev s)) @ rev (takeWhile (\<lambda>x. x = c) (rev s))"
    by (metis rev_append rev_rev_ident)
  then show ?thesis unfolding TrimRight_def by blast
qed

lemma length_TrimRight: "length (TrimRight c s) \<le> length s"
  using TrimRight_prefix[of s c] by (metis length_append le_add1)

lemma TrimRight_hd:
  assumes "s \<noteq> []" "hd s \<noteq> c"
  shows "TrimRight c s \<noteq> [] \<and> hd (TrimRight c s) = hd s"
proof -
  have "hd s \<in> set (rev s)" using assms(1) by simp
  then have "dropWhile (\<lambda>x. x = c) (rev s) \<noteq> []"
    using assms(2) by (auto simp: dropWhile_eq_Nil_conv)
  then have ne: "TrimRight c s \<noteq> []" by (simp add: TrimRight_def)
  obtain t where "s = TrimRight c s @ t" using TrimRight_prefix by blast
  with ne have "hd s = hd (TrimRight c s)" by (metis hd_append2)
  with ne show ?thesis by simp
qed

lemma Trim_hd: "Trim c s = y # ys \<Longrightarrow> y \<noteq> c"
proof -
  assume t: "Trim c s = y # ys"
  let ?d = "dropWhile (\<lambda>x. x = c) s"
  have "?d \<noteq> []"
  proof
    assume "?d = []"
    with t show False by (simp add: Trim_def TrimRight_def)
  qed
  then have "hd ?d \<noteq> c" by (rule hd_dropWhile)
  with TrimRight_hd[OF \<open>?d \<noteq> []\<close>, of c] t show "y \<noteq> c" by (simp add: Trim_def)
qed

section \<open>TrimSpace\<close>

text \<open>
  \<^verbatim>\<open>strings.TrimSpace\<close> removes the Unicode white space at both ends. The white-space
  code points are listed by their UTF-8 encodings: the ASCII ones, U+0085, U+00A0, U+1680,
  U+2000 to U+200A, U+2028, U+2029, U+202F, U+205F and U+3000.
\<close>

definition space_seqs :: "string list" where
  "space_seqs =
     [[CHR 0x09], [CHR 0x0A], [CHR 0x0B], [CHR 0x0C], [CHR 0x0D], [CHR 0x20],
      [CHR 0xC2, CHR 0x85], [CHR 0xC2, CHR 0xA0], [CHR 0xE1, CHR 0x9A, CHR 0x80],
      [CHR 0xE2, CHR 0x80, CHR 0x80], [CHR 0xE2, CHR 0x80, CHR 0x81],
      [CHR 0xE2, CHR 0x80, CHR 0x82], [CHR 0xE2, CHR 0x80, CHR 0x83],
      [CHR 0xE2, CHR 0x80, CHR 0x84], [CHR 0xE2, CHR 0x80, CHR 0x85],
      [CHR 0xE2, CHR 0x80, CHR 0x86], [CHR 0xE2, CHR 0x80, CHR 0x87],
      [CHR 0xE2, CHR 0x80, CHR 0x88], [CHR 0xE2, CHR 0x80, CHR 0x89],
      [CHR 0xE2, CHR 0x80, CHR 0x8A], [CHR 0xE2, CHR 0x80, CHR 0xA8],
      [CHR 0xE2, CHR 0x80, CHR 0xA9], [CHR 0xE2, CHR 0x80, CHR 0xAF],
      [CHR 0xE2, CHR 0x81, CHR 0x9F], [CHR 0xE3, CHR 0x80, CHR 0x80]]"

function trim_seqs :: "string list \<Rightarrow> string \<Rightarrow> string" where
  "trim_seqs qs s =
     (case find (\<lambda>q. q \<noteq> [] \<and> prefix q s) qs of
        None \<Rightarrow> s
      | Some q \<Rightarrow> trim_seqs qs (drop (length q) s))"
  by pat_completeness auto
termination
proof (relation "measure (\<lambda>(qs, s). length s)", goal_cases)
  case (2 qs s q)
  then have "q \<noteq> []" "prefix q s" by (auto simp: find_Some_iff)
  then have "0 < length q" "length q \<le> length s" by (auto dest: prefix_length_le)
  then have "length s - length q < length s" by linarith
  then show ?case by simp
qed simp

declare trim_seqs.simps [simp del]

definition TrimSpace :: "string \<Rightarrow> string" where
  "TrimSpace s = rev (trim_seqs (map rev space_seqs) (rev (trim_seqs space_seqs s)))"

lemma trim_seqs_id:
  assumes "\<And>q. q \<in> set qs \<Longrightarrow> q \<noteq> [] \<Longrightarrow> s \<noteq> [] \<Longrightarrow> hd q \<noteq> hd s"
  shows "trim_seqs qs s = s"
proof -
  have "find (\<lambda>q. q \<noteq> [] \<and> prefix q s) qs = None"
  proof (rule ccontr)
    assume "find (\<lambda>q. q \<noteq> [] \<and> prefix q s) qs \<noteq> None"
    then obtain q where "q \<in> set qs" "q \<noteq> []" "prefix q s"
      by (auto simp: find_Some_iff in_set_conv_nth)
    moreover from this have "s \<noteq> [] \<and> hd q = hd s" by (auto simp: prefix_def hd_append)
    ultimately show False using assms by blast
  qed
  then show ?thesis by (subst trim_seqs.simps) simp
qed

lemma label_not_space_start:
  assumes "label_char c" "q \<in> set space_seqs \<or> q \<in> set (map rev space_seqs)"
  shows "hd q \<noteq> c"
proof
  assume "hd q = c"
  with assms have "label_char (hd q)" by simp
  with assms(2) show False
    by (auto simp: space_seqs_def label_char_ord)
qed

lemma TrimSpace_line:
  assumes "list_all label_char s"
  shows "TrimSpace (s @ [CHR 0x0A]) = s" and "TrimSpace s = s"
proof -
  have hd_ok: "trim_seqs qs t = t"
    if "t \<noteq> [] \<Longrightarrow> label_char (hd t)" "qs = space_seqs \<or> qs = map rev space_seqs" for t qs
    by (rule trim_seqs_id) (use that label_not_space_start in blast)
  have lab: "label_char (hd t)" if "t \<noteq> []" "set t \<subseteq> set s" for t
    using assms that(2) hd_in_set[OF that(1)] unfolding list_all_iff by blast
  have l: "trim_seqs space_seqs s = s" by (rule hd_ok) (use lab in auto)
  have r: "trim_seqs (map rev space_seqs) (rev s) = rev s"
    by (rule hd_ok) (use lab[of "rev s"] in auto)
  show "TrimSpace s = s" by (simp add: TrimSpace_def l r)
  have one: "trim_seqs (map rev space_seqs) (CHR 0x0A # t) = trim_seqs (map rev space_seqs) t" for t
    by (subst trim_seqs.simps) (simp add: space_seqs_def)
  show "TrimSpace (s @ [CHR 0x0A]) = s"
  proof (cases "s = []")
    case True
    have "trim_seqs space_seqs [CHR 0x0A] = trim_seqs space_seqs []"
      by (subst trim_seqs.simps) (simp add: space_seqs_def)
    moreover have "trim_seqs qs [] = []" for qs by (rule trim_seqs_id) simp
    ultimately show ?thesis using True by (simp add: TrimSpace_def)
  next
    case False
    have "trim_seqs space_seqs (s @ [CHR 0x0A]) = s @ [CHR 0x0A]"
      by (rule hd_ok) (use False lab in auto)
    then show ?thesis by (simp add: TrimSpace_def one r)
  qed
qed

section \<open>Hexadecimal\<close>

definition hex_char :: "nat \<Rightarrow> char" where
  "hex_char d = (if d < 10 then char_of (48 + d) else char_of (87 + d))"

definition hex_EncodeToString :: "bytes \<Rightarrow> string" where
  "hex_EncodeToString bs = concat (map (\<lambda>b. [hex_char (unat b div 16), hex_char (unat b mod 16)]) bs)"

lemma length_hex [simp]: "length (hex_EncodeToString bs) = 2 * length bs"
  by (induction bs) (auto simp: hex_EncodeToString_def)

lemma hex_char_label: "d < 16 \<Longrightarrow> label_char (hex_char d)"
  by (auto simp: hex_char_def label_char_ord)

lemma hex_all_label: "list_all label_char (hex_EncodeToString bs)"
proof -
  have "unat b div 16 < 16" "unat b mod 16 < 16" for b :: byte
  proof -
    have "unat b < 256" using unsigned_less[of b] by simp
    then show "unat b div 16 < 16" by (simp add: div_less_iff_less_mult)
  qed simp
  then show ?thesis by (induction bs) (auto simp: hex_EncodeToString_def hex_char_label)
qed

section \<open>Network addresses\<close>

definition JoinHostPort :: "string \<Rightarrow> string \<Rightarrow> string" where
  "JoinHostPort host port =
     (if CHR '':'' \<in> set host then CHR ''['' # host @ '']:'' @ port else host @ CHR '':'' # port)"

text \<open>\<^verbatim>\<open>net.SplitHostPort\<close>, with the reason of the address error on the left.\<close>

definition LastIndexByte :: "char \<Rightarrow> string \<Rightarrow> nat" where
  "LastIndexByte c s = length s - 1 - length (takeWhile (\<lambda>x. x \<noteq> c) (rev s))"

definition SplitHostPort :: "string \<Rightarrow> string + string \<times> string" where
  "SplitHostPort hp =
     (if CHR '':'' \<notin> set hp then Inl ''missing port in address''
      else let i = LastIndexByte CHR '':'' hp in
        if hd hp = CHR ''['' then
          (if CHR '']'' \<notin> set hp then Inl ''missing ']' in address''
           else let e = length (takeWhile (\<lambda>x. x \<noteq> CHR '']'') hp) in
             if e + 1 = length hp then Inl ''missing port in address''
             else if e + 1 \<noteq> i then
               (if hp ! (e + 1) = CHR '':'' then Inl ''too many colons in address''
                else Inl ''missing port in address'')
             else if CHR ''['' \<in> set (drop 1 hp) then Inl ''unexpected '[' in address''
             else if CHR '']'' \<in> set (drop (e + 1) hp) then Inl ''unexpected ']' in address''
             else Inr (take (e - 1) (drop 1 hp), drop (i + 1) hp))
        else if CHR '':'' \<in> set (take i hp) then Inl ''too many colons in address''
        else if CHR ''['' \<in> set hp then Inl ''unexpected '[' in address''
        else if CHR '']'' \<in> set hp then Inl ''unexpected ']' in address''
        else Inr (take i hp, drop (i + 1) hp))"

definition plain_host :: "string \<Rightarrow> bool" where
  "plain_host h \<longleftrightarrow> CHR ''['' \<notin> set h \<and> CHR '']'' \<notin> set h"

lemma LastIndexByte_append:
  assumes "c \<notin> set p"
  shows "LastIndexByte c (a @ c # p) = length a"
proof -
  have "takeWhile (\<lambda>x. x \<noteq> c) (rev p @ c # rev a) = rev p"
    using assms by (subst takeWhile_append2) auto
  then show ?thesis by (simp add: LastIndexByte_def)
qed

lemma SplitHostPort_plain:
  assumes "CHR '':'' \<notin> set h" "plain_host h" "plain_host p" "CHR '':'' \<notin> set p"
  shows "SplitHostPort (h @ CHR '':'' # p) = Inr (h, p)"
proof -
  have "hd (h @ CHR '':'' # p) \<noteq> CHR ''[''"
    using assms(2) by (cases h) (auto simp: plain_host_def)
  then show ?thesis
    using assms by (simp add: SplitHostPort_def LastIndexByte_append Let_def plain_host_def)
qed

lemma SplitHostPort_bracket:
  assumes "plain_host h" "plain_host p" "CHR '':'' \<notin> set p"
  shows "SplitHostPort (CHR ''['' # h @ '']:'' @ p) = Inr (h, p)"
proof -
  let ?hp = "CHR ''['' # h @ '']:'' @ p"
  have "LastIndexByte CHR '':'' ((CHR ''['' # h @ '']'') @ CHR '':'' # p) = length (CHR ''['' # h @ '']'')"
    by (rule LastIndexByte_append) (rule assms(3))
  then have i: "LastIndexByte CHR '':'' ?hp = Suc (Suc (length h))" by simp
  have "takeWhile (\<lambda>x. x \<noteq> CHR '']'') (h @ '']:'' @ p) = h"
    using assms(1) by (subst takeWhile_append2) (auto simp: plain_host_def)
  then have e: "length (takeWhile (\<lambda>x. x \<noteq> CHR '']'') ?hp) = Suc (length h)" by simp
  show ?thesis
    using assms unfolding SplitHostPort_def Let_def i e
    by (auto simp: plain_host_def)
qed

lemma SplitHostPort_JoinHostPort:
  assumes "plain_host h" "plain_host p" "CHR '':'' \<notin> set p"
  shows "SplitHostPort (JoinHostPort h p) = Inr (h, p)"
  using SplitHostPort_plain[OF _ assms] SplitHostPort_bracket[OF assms]
  by (cases "CHR '':'' \<in> set h") (simp_all add: JoinHostPort_def)

end
