(* ===== verification/Errors.thy ===== *)
theory Errors
  imports Prelude
begin

text \<open>
  The errors of the program: one datatype per block of sentinel errors of the source, and one
  type \<open>err\<close> for a Go \<^verbatim>\<open>error\<close> value. \<open>Wrap\<close> is
  \<^verbatim>\<open>fmt.Errorf("...%w")\<close>, which \<^verbatim>\<open>errors.Is\<close> looks through; \<open>Msg\<close> is an error
  with a text and no sentinel; \<open>Status\<close> is a gRPC status, which carries the text of an error
  and hides its identity.
\<close>

section \<open>Sentinels\<close>

datatype ca_error =
  ErrNoMeshURI | ErrMeshMismatch | ErrBadPrincipal | ErrBadCSR | ErrNotCA | ErrKeyMismatch
| ErrInvalidNodeID

datatype pairing_error =
  ErrBadCode | ErrNoActiveCode | ErrUnknownSession | ErrTooManyAttempts | ErrBusy | ErrBadMAC
| ErrBadCodeFormat

datatype discovery_error = ErrMissingNodeID | ErrMissingMeshID | ErrMissingGRPCPort | ErrBadGRPCPort

datatype transport_error = ErrNoPeerCert | ErrNotAuthorized

text \<open>The errors of package \<^verbatim>\<open>flag\<close>, with the flag and the value they name.\<close>

datatype flag_error =
  ErrHelp | FlagSyntax string | FlagUndefined string | FlagBadBool string string | FlagNeedsArg string
| FlagBadValue string string

datatype status_code =
  InvalidArgument | NotFound | PermissionDenied | ResourceExhausted | FailedPrecondition
| Internal | Unauthenticated | Unavailable

datatype err =
  CaErr ca_error
| PairErr pairing_error
| DiscErr discovery_error
| TransErr transport_error
| FlagErr flag_error
| ErrExists
| IdErrInvalidNodeID
| ErrServerCertChanged
| OsErrNotExist
| OsErrExist
| Msg string
| Wrap string err
| Status status_code err

fun errors_Is :: "err \<Rightarrow> err \<Rightarrow> bool" where
  "errors_Is (Wrap w e) t \<longleftrightarrow> Wrap w e = t \<or> errors_Is e t"
| "errors_Is e t \<longleftrightarrow> e = t"

lemma errors_Is_refl [simp]: "errors_Is e e"
  by (cases e) auto

end
