(* ===== verification/Sha256.thy ===== *)
theory Sha256
  imports Prelude
begin

unbundle bit_operations_syntax

text \<open>
  SHA-256 (FIPS 180-4) and HMAC-SHA-256 (RFC 2104) as \<^verbatim>\<open>crypto/sha256\<close> and
  \<^verbatim>\<open>crypto/hmac\<close> compute them. Certificate hashes, fingerprints and both pairing MACs are
  built on these two functions, so that no property of them has to be assumed: the digest
  length and the comparison of MACs are facts about the functions defined here.
\<close>

type_synonym w32 = "32 word"
type_synonym sha_state = "w32 \<times> w32 \<times> w32 \<times> w32 \<times> w32 \<times> w32 \<times> w32 \<times> w32"

definition sha_K :: "w32 list" where
  "sha_K =
     [1116352408, 1899447441, 3049323471, 3921009573, 961987163, 1508970993, 2453635748, 2870763221,
      3624381080, 310598401, 607225278, 1426881987, 1925078388, 2162078206, 2614888103, 3248222580,
      3835390401, 4022224774, 264347078, 604807628, 770255983, 1249150122, 1555081692, 1996064986,
      2554220882, 2821834349, 2952996808, 3210313671, 3336571891, 3584528711, 113926993, 338241895,
      666307205, 773529912, 1294757372, 1396182291, 1695183700, 1986661051, 2177026350, 2456956037,
      2730485921, 2820302411, 3259730800, 3345764771, 3516065817, 3600352804, 4094571909, 275423344,
      430227734, 506948616, 659060556, 883997877, 958139571, 1322822218, 1537002063, 1747873779,
      1955562222, 2024104815, 2227730452, 2361852424, 2428436474, 2756734187, 3204031479, 3329325298]"

definition sha_init :: sha_state where
  "sha_init = (1779033703, 3144134277, 1013904242, 2773480762,
               1359893119, 2600822924, 528734635, 1541459225)"

definition rotr32 :: "nat \<Rightarrow> w32 \<Rightarrow> w32" where
  "rotr32 n x = drop_bit n x OR push_bit (32 - n) x"

definition small_sigma0 :: "w32 \<Rightarrow> w32" where
  "small_sigma0 x = rotr32 7 x XOR rotr32 18 x XOR drop_bit 3 x"

definition small_sigma1 :: "w32 \<Rightarrow> w32" where
  "small_sigma1 x = rotr32 17 x XOR rotr32 19 x XOR drop_bit 10 x"

definition big_sigma0 :: "w32 \<Rightarrow> w32" where
  "big_sigma0 x = rotr32 2 x XOR rotr32 13 x XOR rotr32 22 x"

definition big_sigma1 :: "w32 \<Rightarrow> w32" where
  "big_sigma1 x = rotr32 6 x XOR rotr32 11 x XOR rotr32 25 x"

text \<open>The message schedule extends the 16 words of a block to 64.\<close>

fun extend_schedule :: "nat \<Rightarrow> w32 list \<Rightarrow> w32 list" where
  "extend_schedule 0 ws = ws"
| "extend_schedule (Suc n) ws =
     (let k = length ws
      in extend_schedule n
           (ws @ [small_sigma1 (ws ! (k - 2)) + ws ! (k - 7) + small_sigma0 (ws ! (k - 15)) + ws ! (k - 16)]))"

fun sha_round :: "sha_state \<Rightarrow> w32 \<times> w32 \<Rightarrow> sha_state" where
  "sha_round (a, b, c, d, e, f, g, h) (k, w) =
     (let t1 = h + big_sigma1 e + ((e AND f) XOR (NOT e AND g)) + k + w;
          t2 = big_sigma0 a + ((a AND b) XOR (a AND c) XOR (b AND c))
      in (t1 + t2, a, b, c, d + t1, e, f, g))"

fun add_state :: "sha_state \<Rightarrow> sha_state \<Rightarrow> sha_state" where
  "add_state (a, b, c, d, e, f, g, h) (a', b', c', d', e', f', g', h') =
     (a + a', b + b', c + c', d + d', e + e', f + f', g + g', h + h')"

definition word_of_bytes :: "bytes \<Rightarrow> w32" where
  "word_of_bytes bs = foldl (\<lambda>a b. push_bit 8 a OR ucast b) 0 bs"

definition bytes_of_word :: "w32 \<Rightarrow> bytes" where
  "bytes_of_word w = [ucast (drop_bit 24 w), ucast (drop_bit 16 w), ucast (drop_bit 8 w), ucast w]"

fun chunks :: "nat \<Rightarrow> nat \<Rightarrow> 'a list \<Rightarrow> 'a list list" where
  "chunks 0 n xs = []"
| "chunks (Suc k) n xs = take n xs # chunks k n (drop n xs)"

definition sha_block :: "sha_state \<Rightarrow> bytes \<Rightarrow> sha_state" where
  "sha_block st blk =
     add_state st (foldl sha_round st (zip sha_K (extend_schedule 48 (map word_of_bytes (chunks 16 4 blk)))))"

text \<open>Padding: a one bit, zeros, and the length in bits as a 64-bit big-endian number.\<close>

definition length_bytes :: "nat \<Rightarrow> bytes" where
  "length_bytes n = map (\<lambda>i. of_nat (8 * n div 256 ^ i)) (rev [0..<8])"

definition sha_pad :: "bytes \<Rightarrow> bytes" where
  "sha_pad m = m @ [0x80] @ replicate ((55 + 64 - length m mod 64) mod 64) 0 @ length_bytes (length m)"

fun state_bytes :: "sha_state \<Rightarrow> bytes" where
  "state_bytes (a, b, c, d, e, f, g, h) = concat (map bytes_of_word [a, b, c, d, e, f, g, h])"

definition Sum256 :: "bytes \<Rightarrow> bytes" where
  "Sum256 m =
     (let p = sha_pad m in state_bytes (foldl sha_block sha_init (chunks (length p div 64) 64 p)))"

definition hmac_key :: "bytes \<Rightarrow> bytes" where
  "hmac_key k = (let k' = (if length k > 64 then Sum256 k else k) in k' @ replicate (64 - length k') 0)"

definition HMAC_SHA256 :: "bytes \<Rightarrow> bytes \<Rightarrow> bytes" where
  "HMAC_SHA256 k m =
     Sum256 (map (\<lambda>b. b XOR 0x5c) (hmac_key k) @ Sum256 (map (\<lambda>b. b XOR 0x36) (hmac_key k) @ m))"

section \<open>Lengths\<close>

lemma length_state_bytes: "length (state_bytes st) = 32"
  by (induction st rule: state_bytes.induct) (simp add: bytes_of_word_def)

lemma length_Sum256 [simp]: "length (Sum256 m) = 32"
  by (simp add: Sum256_def Let_def length_state_bytes)

lemma length_HMAC_SHA256 [simp]: "length (HMAC_SHA256 k m) = 32"
  by (simp add: HMAC_SHA256_def)

lemma length_hmac_key: "length (hmac_key k) = 64"
  by (simp add: hmac_key_def Let_def)

text \<open>The padded message is a whole number of 64-byte blocks, so that no byte of it is left out.\<close>

lemma length_sha_pad: "length (sha_pad m) mod 64 = 0"
proof -
  define r where "r = length m mod 64"
  define q where "q = length m div 64"
  have m: "length m = 64 * q + r" and r: "r < 64" by (simp_all add: q_def r_def)
  have len: "length (sha_pad m) = length m + 9 + (119 - r) mod 64"
    by (simp add: sha_pad_def length_bytes_def r_def)
  show ?thesis
  proof (cases "r \<le> 55")
    case True
    then have eq: "119 - r = 64 + (55 - r)" and lt: "55 - r < 64" by linarith+
    have "(119 - r) mod 64 = 55 - r"
      unfolding eq mod_add_self1 using lt by (rule mod_less)
    then have "length (sha_pad m) = length m + 9 + (55 - r)" using len by (simp only:)
    with True m have "length (sha_pad m) = 64 * (q + 1)" by simp
    then show ?thesis by simp
  next
    case False
    then have "119 - r < 64" by linarith
    then have "(119 - r) mod 64 = 119 - r" by (rule mod_less)
    then have "length (sha_pad m) = length m + 9 + (119 - r)" using len by (simp only:)
    with False r m have "length (sha_pad m) = 64 * (q + 2)" by simp
    then show ?thesis by simp
  qed
qed

lemma chunks_cover: "length xs \<le> k * n \<Longrightarrow> concat (chunks k n xs) = xs"
proof (induction k arbitrary: xs)
  case (Suc k)
  then have "length (drop n xs) \<le> k * n" by simp
  with Suc.IH show ?case by simp
qed simp

lemma sha_blocks_cover: "concat (chunks (length (sha_pad m) div 64) 64 (sha_pad m)) = sha_pad m"
proof (rule chunks_cover)
  have "length (sha_pad m) = length (sha_pad m) div 64 * 64 + length (sha_pad m) mod 64" by simp
  then show "length (sha_pad m) \<le> length (sha_pad m) div 64 * 64" using length_sha_pad[of m] by linarith
qed

end
