(* ===== verification/X509.thy ===== *)
theory X509
  imports Errors Sha256 GoStrings
begin

text \<open>
  Keys, certificates and certificate requests as the program uses them from
  \<^verbatim>\<open>crypto/ecdsa\<close>, \<^verbatim>\<open>crypto/x509\<close> and \<^verbatim>\<open>net/url\<close>. What
  \<^verbatim>\<open>x509.CreateCertificate\<close>, \<^verbatim>\<open>ParseCertificate\<close> and \<^verbatim>\<open>Certificate.Verify\<close>
  check and copy is written out here. The ASN.1 and PEM encodings, the elliptic-curve arithmetic
  and the third-party Argon2 function are the record \<open>crypto\<close>, an argument of every definition
  that uses them; \<open>crypto_ok\<close> names what the program relies on: signatures made with a key
  verify under its public key, a key keeps its curve, and decoding returns what was encoded.
\<close>

unbundle bit_operations_syntax

section \<open>Data\<close>

datatype curve = P224 | P256 | P384 | P521

datatype privkey = PrivKey (key_curve: curve) (key_D: nat)

datatype pubkey = EcdsaPub curve nat nat | OtherPub bytes

datatype parsed_key = EcKey privkey | NonEcKey

record url =
  url_Scheme :: string
  url_Host :: string
  url_Path :: string

datatype ext_key_usage = ExtKeyUsageAny | ExtKeyUsageServerAuth | ExtKeyUsageClientAuth

definition KeyUsageDigitalSignature :: "16 word" where "KeyUsageDigitalSignature = 1"
definition KeyUsageCertSign :: "16 word" where "KeyUsageCertSign = 32"
definition KeyUsageCRLSign :: "16 word" where "KeyUsageCRLSign = 64"

record cert_tbs =
  SerialNumber :: nat
  Subject_CommonName :: string
  Subject_Organization :: "string list"
  Issuer_CommonName :: string
  Issuer_Organization :: "string list"
  NotBefore :: time
  NotAfter :: time
  KeyUsage :: "16 word"
  ExtKeyUsage :: "ext_key_usage list"
  BasicConstraintsValid :: bool
  IsCA :: bool
  MaxPathLen :: int
  MaxPathLenZero :: bool
  DNSNames :: "string list"
  URIs :: "url list"
  PublicKey :: "pubkey option"

record certificate = cert_tbs +
  RawTBS :: bytes
  Signature :: bytes
  Raw :: bytes

record csr =
  csr_CommonName :: string
  csr_PublicKey :: "pubkey option"
  csr_RawTBS :: bytes
  csr_Signature :: bytes

record crypto =
  pub_of :: "privkey \<Rightarrow> pubkey"
  ecdsa_sign :: "privkey \<Rightarrow> bytes \<Rightarrow> bytes \<Rightarrow> bytes"
  ecdsa_verify :: "pubkey \<Rightarrow> bytes \<Rightarrow> bytes \<Rightarrow> bool"
  tbs_der :: "cert_tbs \<Rightarrow> bytes option"
  cert_der :: "bytes \<Rightarrow> bytes \<Rightarrow> bytes"
  cert_parse :: "bytes \<Rightarrow> (cert_tbs \<times> bytes \<times> bytes) option"
  csr_tbs_der :: "string \<Rightarrow> pubkey \<Rightarrow> bytes option"
  csr_der :: "bytes \<Rightarrow> bytes \<Rightarrow> bytes"
  csr_parse :: "bytes \<Rightarrow> (string \<times> pubkey option \<times> bytes \<times> bytes) option"
  pkcs8_der :: "privkey \<Rightarrow> bytes option"
  pkcs8_parse :: "bytes \<Rightarrow> parsed_key option"
  sec1_parse :: "bytes \<Rightarrow> privkey option"
  pem_EncodeToMemory :: "string \<Rightarrow> bytes \<Rightarrow> bytes"
  pem_Decode :: "bytes \<Rightarrow> (string \<times> bytes) option"
  argon2_IDKey :: "bytes \<Rightarrow> bytes \<Rightarrow> nat \<Rightarrow> nat \<Rightarrow> nat \<Rightarrow> nat \<Rightarrow> bytes"

section \<open>What the encodings promise\<close>

text \<open>
  A certificate body that the encoding can represent: printable names, labels as URI hosts, a
  positive serial number, whole seconds within the years of a certificate date, normalised basic
  constraints and a known public key.
\<close>

definition ascii_text :: "string \<Rightarrow> bool" where
  "ascii_text s \<longleftrightarrow> list_all (\<lambda>c. 32 \<le> ord_of c \<and> ord_of c < 127) s"

definition trunc_sec :: "time \<Rightarrow> time" where
  "trunc_sec t = t div Second * Second"

definition max_cert_time :: time where
  "max_cert_time = 253402300799 * Second"

definition cert_time_ok :: "time \<Rightarrow> bool" where
  "cert_time_ok t \<longleftrightarrow> 0 \<le> t \<and> t \<le> max_cert_time \<and> trunc_sec t = t"

definition url_ok :: "url \<Rightarrow> bool" where
  "url_ok u \<longleftrightarrow> ascii_text (url_Scheme u) \<and> list_all label_char (url_Host u) \<and>
     list_all (\<lambda>c. label_char c \<or> c = CHR ''/'') (url_Path u)"

definition tbs_ok :: "cert_tbs \<Rightarrow> bool" where
  "tbs_ok t \<longleftrightarrow> 0 < SerialNumber t \<and> ascii_text (Subject_CommonName t) \<and>
     list_all ascii_text (Subject_Organization t) \<and> ascii_text (Issuer_CommonName t) \<and>
     list_all ascii_text (Issuer_Organization t) \<and> cert_time_ok (NotBefore t) \<and>
     cert_time_ok (NotAfter t) \<and> BasicConstraintsValid t \<and> - 1 \<le> MaxPathLen t \<and>
     (MaxPathLenZero t \<longleftrightarrow> MaxPathLen t = 0) \<and> list_all ascii_text (DNSNames t) \<and>
     list_all url_ok (URIs t) \<and> PublicKey t \<noteq> None"

definition signatures_ok :: "crypto \<Rightarrow> bool" where
  "signatures_ok C \<longleftrightarrow> (\<forall>k e m. ecdsa_verify C (pub_of C k) m (ecdsa_sign C k e m))"

definition keys_ok :: "crypto \<Rightarrow> bool" where
  "keys_ok C \<longleftrightarrow> (\<forall>cv d. \<exists>x y. pub_of C (PrivKey cv d) = EcdsaPub cv x y)"

definition cert_codec_ok :: "crypto \<Rightarrow> bool" where
  "cert_codec_ok C \<longleftrightarrow>
     (\<forall>t. tbs_ok t \<longrightarrow> (\<exists>b. tbs_der C t = Some b \<and> (\<forall>s. cert_parse C (cert_der C b s) = Some (t, b, s))))"

definition csr_codec_ok :: "crypto \<Rightarrow> bool" where
  "csr_codec_ok C \<longleftrightarrow>
     (\<forall>n p. ascii_text n \<longrightarrow>
        (\<exists>b. csr_tbs_der C n p = Some b \<and> (\<forall>s. csr_parse C (csr_der C b s) = Some (n, Some p, b, s))))"

definition pem_codec_ok :: "crypto \<Rightarrow> bool" where
  "pem_codec_ok C \<longleftrightarrow>
     (\<forall>t b. pem_Decode C (pem_EncodeToMemory C t b) = Some (t, b)) \<and>
     (\<forall>k. \<exists>b. pkcs8_der C k = Some b \<and> pkcs8_parse C b = Some (EcKey k))"

definition crypto_ok :: "crypto \<Rightarrow> bool" where
  "crypto_ok C \<longleftrightarrow> signatures_ok C \<and> keys_ok C \<and> cert_codec_ok C \<and> csr_codec_ok C \<and> pem_codec_ok C"

lemma crypto_ok_sign [intro]: "crypto_ok C \<Longrightarrow> ecdsa_verify C (pub_of C k) m (ecdsa_sign C k e m)"
  by (auto simp: crypto_ok_def signatures_ok_def)

lemma crypto_ok_key: "crypto_ok C \<Longrightarrow> \<exists>x y. pub_of C k = EcdsaPub (key_curve k) x y"
  by (cases k) (auto simp: crypto_ok_def keys_ok_def)

lemma crypto_ok_cert:
  assumes "crypto_ok C" "tbs_ok t"
  obtains b where "tbs_der C t = Some b" "\<And>s. cert_parse C (cert_der C b s) = Some (t, b, s)"
  using assms by (auto simp: crypto_ok_def cert_codec_ok_def)

lemma crypto_ok_csr:
  assumes "crypto_ok C" "ascii_text n"
  obtains b where "csr_tbs_der C n p = Some b" "\<And>s. csr_parse C (csr_der C b s) = Some (n, Some p, b, s)"
  using assms unfolding crypto_ok_def csr_codec_ok_def by blast

lemma crypto_ok_pem: "crypto_ok C \<Longrightarrow> pem_Decode C (pem_EncodeToMemory C t b) = Some (t, b)"
  by (auto simp: crypto_ok_def pem_codec_ok_def)

lemma crypto_ok_pkcs8:
  assumes "crypto_ok C"
  obtains b where "pkcs8_der C k = Some b" "pkcs8_parse C b = Some (EcKey k)"
  using assms unfolding crypto_ok_def pem_codec_ok_def by blast

lemma label_ascii: "label_char c \<Longrightarrow> 32 \<le> ord_of c \<and> ord_of c < 127"
  by (auto simp: label_char_ord)

lemma labels_ascii [intro]: "list_all label_char s \<Longrightarrow> ascii_text s"
  by (auto simp: ascii_text_def list_all_iff dest: label_ascii)

lemma trunc_sec_idem [simp]: "trunc_sec (trunc_sec t) = trunc_sec t"
  by (simp add: trunc_sec_def Second_def)

lemma trunc_sec_bounds: "t - Second < trunc_sec t \<and> trunc_sec t \<le> t"
proof -
  have "t div Second * Second + t mod Second = t" by (rule div_mult_mod_eq)
  moreover have "0 \<le> t mod Second" "t mod Second < Second" by (simp_all add: Second_def)
  ultimately show ?thesis unfolding trunc_sec_def by linarith
qed

lemma trunc_sec_nonneg: "0 \<le> t \<Longrightarrow> 0 \<le> trunc_sec t"
  by (simp add: trunc_sec_def Second_def)

section \<open>Creating and parsing\<close>

text \<open>
  \<^verbatim>\<open>x509.CreateCertificate(rand, template, parent, pub, priv)\<close>: the issuer is the parent's
  subject, dates are kept to the second, and the signature is made with \<open>priv\<close>, which must match
  the parent's public key when the parent has one. \<open>ent\<close> is the randomness of the signature.
\<close>

definition normal_path_len :: "cert_tbs \<Rightarrow> int" where
  "normal_path_len t = (if MaxPathLen t = 0 \<and> \<not> MaxPathLenZero t then - 1 else MaxPathLen t)"

definition issued_tbs :: "cert_tbs \<Rightarrow> string \<times> string list \<Rightarrow> pubkey \<Rightarrow> cert_tbs" where
  "issued_tbs tmpl parent pub =
     tmpl\<lparr>Issuer_CommonName := fst parent, Issuer_Organization := snd parent,
          NotBefore := trunc_sec (NotBefore tmpl), NotAfter := trunc_sec (NotAfter tmpl),
          MaxPathLen := normal_path_len tmpl, MaxPathLenZero := (normal_path_len tmpl = 0),
          PublicKey := Some pub\<rparr>"

definition CreateCertificate ::
  "crypto \<Rightarrow> bytes \<Rightarrow> cert_tbs \<Rightarrow> string \<times> string list \<Rightarrow> pubkey option \<Rightarrow> pubkey \<Rightarrow> privkey \<Rightarrow> err + bytes" where
  "CreateCertificate C ent tmpl parent parent_pub pub priv =
     (if BasicConstraintsValid tmpl \<and> MaxPathLen tmpl < - 1 then Inl (Msg ''x509: invalid MaxPathLen'')
      else if BasicConstraintsValid tmpl \<and> \<not> IsCA tmpl \<and> MaxPathLen tmpl \<noteq> - 1 \<and>
              (MaxPathLen tmpl \<noteq> 0 \<or> MaxPathLenZero tmpl) then
        Inl (Msg ''x509: only CAs are allowed to specify MaxPathLen'')
      else if parent_pub \<noteq> None \<and> parent_pub \<noteq> Some (pub_of C priv) then
        Inl (Msg ''x509: provided PrivateKey does not match PublicKey of parent'')
      else (case tbs_der C (issued_tbs tmpl parent pub) of
              None \<Rightarrow> Inl (Msg ''x509: marshal'')
            | Some b \<Rightarrow>
                let s = ecdsa_sign C priv ent b
                in if ecdsa_verify C (pub_of C priv) b s then Inr (cert_der C b s)
                   else Inl (Msg ''x509: signature returned by signer is invalid'')))"

definition mk_certificate :: "cert_tbs \<Rightarrow> bytes \<Rightarrow> bytes \<Rightarrow> bytes \<Rightarrow> certificate" where
  "mk_certificate t rt s b = cert_tbs.extend t (certificate.fields rt s b)"

definition ParseCertificate :: "crypto \<Rightarrow> bytes \<Rightarrow> err + certificate" where
  "ParseCertificate C b =
     (case cert_parse C b of
        None \<Rightarrow> Inl (Msg ''x509: malformed certificate'')
      | Some (t, rt, s) \<Rightarrow> Inr (mk_certificate t rt s b))"

definition CreateCertificateRequest :: "crypto \<Rightarrow> bytes \<Rightarrow> string \<Rightarrow> privkey \<Rightarrow> err + bytes" where
  "CreateCertificateRequest C ent cn key =
     (case csr_tbs_der C cn (pub_of C key) of
        None \<Rightarrow> Inl (Msg ''x509: marshal request'')
      | Some b \<Rightarrow> Inr (csr_der C b (ecdsa_sign C key ent b)))"

definition ParseCertificateRequest :: "crypto \<Rightarrow> bytes \<Rightarrow> err + csr" where
  "ParseCertificateRequest C b =
     (case csr_parse C b of
        None \<Rightarrow> Inl (Msg ''x509: malformed certificate request'')
      | Some (n, p, rt, s) \<Rightarrow>
          Inr \<lparr>csr_CommonName = n, csr_PublicKey = p, csr_RawTBS = rt, csr_Signature = s\<rparr>)"

definition csr_CheckSignature :: "crypto \<Rightarrow> csr \<Rightarrow> bool" where
  "csr_CheckSignature C r =
     (case csr_PublicKey r of None \<Rightarrow> False | Some p \<Rightarrow> ecdsa_verify C p (csr_RawTBS r) (csr_Signature r))"

lemma mk_certificate_sel [simp]:
  "SerialNumber (mk_certificate t rt s b) = SerialNumber t"
  "Subject_CommonName (mk_certificate t rt s b) = Subject_CommonName t"
  "Subject_Organization (mk_certificate t rt s b) = Subject_Organization t"
  "Issuer_CommonName (mk_certificate t rt s b) = Issuer_CommonName t"
  "Issuer_Organization (mk_certificate t rt s b) = Issuer_Organization t"
  "NotBefore (mk_certificate t rt s b) = NotBefore t"
  "NotAfter (mk_certificate t rt s b) = NotAfter t"
  "KeyUsage (mk_certificate t rt s b) = KeyUsage t"
  "ExtKeyUsage (mk_certificate t rt s b) = ExtKeyUsage t"
  "BasicConstraintsValid (mk_certificate t rt s b) = BasicConstraintsValid t"
  "IsCA (mk_certificate t rt s b) = IsCA t"
  "MaxPathLen (mk_certificate t rt s b) = MaxPathLen t"
  "MaxPathLenZero (mk_certificate t rt s b) = MaxPathLenZero t"
  "DNSNames (mk_certificate t rt s b) = DNSNames t"
  "URIs (mk_certificate t rt s b) = URIs t"
  "PublicKey (mk_certificate t rt s b) = PublicKey t"
  "RawTBS (mk_certificate t rt s b) = rt"
  "Signature (mk_certificate t rt s b) = s"
  "Raw (mk_certificate t rt s b) = b"
  by (cases t; simp add: mk_certificate_def cert_tbs.extend_def certificate.fields_def)+

text \<open>Parsing keeps the input as the certificate's \<^verbatim>\<open>Raw\<close> field.\<close>

lemma ParseCertificate_Raw: "ParseCertificate C b = Inr c \<Longrightarrow> Raw c = b"
  by (auto simp: ParseCertificate_def split: option.splits)

lemma CreateCertificate_parse:
  assumes C: "crypto_ok C" and t: "tbs_ok (issued_tbs tmpl parent pub)"
    and p: "parent_pub = None \<or> parent_pub = Some (pub_of C priv)"
    and m: "IsCA tmpl \<and> - 1 \<le> MaxPathLen tmpl \<or> MaxPathLen tmpl = 0 \<and> \<not> MaxPathLenZero tmpl"
  obtains b s where
    "CreateCertificate C ent tmpl parent parent_pub pub priv = Inr (cert_der C b s)"
    "ParseCertificate C (cert_der C b s) = Inr (mk_certificate (issued_tbs tmpl parent pub) b s (cert_der C b s))"
    "ecdsa_verify C (pub_of C priv) b s"
proof -
  obtain b where b: "tbs_der C (issued_tbs tmpl parent pub) = Some b"
    and q: "\<And>s. cert_parse C (cert_der C b s) = Some (issued_tbs tmpl parent pub, b, s)"
    using crypto_ok_cert[OF C t] by blast
  let ?s = "ecdsa_sign C priv ent b"
  have v: "ecdsa_verify C (pub_of C priv) b ?s" using C by (rule crypto_ok_sign)
  show thesis
  proof (rule that)
    show "CreateCertificate C ent tmpl parent parent_pub pub priv = Inr (cert_der C b ?s)"
      using p m v b by (auto simp: CreateCertificate_def Let_def)
    show "ParseCertificate C (cert_der C b ?s) =
        Inr (mk_certificate (issued_tbs tmpl parent pub) b ?s (cert_der C b ?s))"
      by (simp add: ParseCertificate_def q)
    show "ecdsa_verify C (pub_of C priv) b ?s" by (rule v)
  qed
qed

lemma CreateCertificateRequest_parse:
  assumes C: "crypto_ok C" and n: "ascii_text cn"
  obtains d r where "CreateCertificateRequest C ent cn key = Inr d"
    "ParseCertificateRequest C d = Inr r" "csr_CommonName r = cn"
    "csr_PublicKey r = Some (pub_of C key)" "csr_CheckSignature C r"
proof -
  obtain b where b: "csr_tbs_der C cn (pub_of C key) = Some b"
    and q: "\<And>s. csr_parse C (csr_der C b s) = Some (cn, Some (pub_of C key), b, s)"
    using crypto_ok_csr[OF C n] by blast
  have v: "ecdsa_verify C (pub_of C key) b (ecdsa_sign C key ent b)" using C by (rule crypto_ok_sign)
  let ?s = "ecdsa_sign C key ent b"
  show thesis
    by (rule that[where d = "csr_der C b ?s" and
          r = "\<lparr>csr_CommonName = cn, csr_PublicKey = Some (pub_of C key), csr_RawTBS = b, csr_Signature = ?s\<rparr>"])
      (simp_all add: b q v CreateCertificateRequest_def ParseCertificateRequest_def csr_CheckSignature_def)
qed

section \<open>Verification against one root\<close>

text \<open>
  \<^verbatim>\<open>Certificate.Verify\<close> with a pool of one root and no intermediates: the leaf's dates and
  host name, then either the leaf is the root itself, or the root's name, dates, CA constraints and
  signature are checked; last the extended key usages, where a certificate without any is
  unrestricted. The value is the list of verified chains.
\<close>

definition time_valid :: "time \<Rightarrow> ('a) cert_tbs_scheme \<Rightarrow> bool" where
  "time_valid now c \<longleftrightarrow> \<not> time_Before now (NotBefore c) \<and> \<not> time_After now (NotAfter c)"

definition may_sign :: "certificate \<Rightarrow> bool" where
  "may_sign root \<longleftrightarrow> BasicConstraintsValid root \<and> IsCA root \<and>
     (KeyUsage root = 0 \<or> KeyUsage root AND KeyUsageCertSign \<noteq> 0)"

definition signed_by :: "crypto \<Rightarrow> certificate \<Rightarrow> certificate \<Rightarrow> bool" where
  "signed_by C root leaf \<longleftrightarrow>
     (case PublicKey root of None \<Rightarrow> False | Some p \<Rightarrow> ecdsa_verify C p (RawTBS leaf) (Signature leaf))"

definition chains_to :: "crypto \<Rightarrow> certificate \<Rightarrow> certificate \<Rightarrow> time \<Rightarrow> bool" where
  "chains_to C root leaf now \<longleftrightarrow>
     Issuer_CommonName leaf = Subject_CommonName root \<and>
     Issuer_Organization leaf = Subject_Organization root \<and>
     time_valid now root \<and> may_sign root \<and> signed_by C root leaf"

definition eku_ok :: "ext_key_usage list \<Rightarrow> certificate \<Rightarrow> bool" where
  "eku_ok usages c \<longleftrightarrow> ExtKeyUsageAny \<in> set usages \<or> ExtKeyUsage c = [] \<or>
     ExtKeyUsageAny \<in> set (ExtKeyUsage c) \<or> list_ex (\<lambda>u. u \<in> set (ExtKeyUsage c)) usages"

definition x509_Verify ::
  "crypto \<Rightarrow> certificate \<Rightarrow> certificate \<Rightarrow> time \<Rightarrow> ext_key_usage list \<Rightarrow> string option \<Rightarrow> err + certificate list list" where
  "x509_Verify C root leaf now usages dnsName =
     (if \<not> time_valid now leaf then Inl (Msg ''x509: certificate has expired or is not yet valid'')
      else if (case dnsName of None \<Rightarrow> False | Some h \<Rightarrow> h \<notin> set (DNSNames leaf)) then
        Inl (Msg ''x509: certificate is not valid for that name'')
      else if leaf = root then
        (if eku_ok usages leaf then Inr [[leaf]] else Inl (Msg ''x509: incompatible key usage''))
      else if chains_to C root leaf now then
        (if eku_ok usages leaf \<and> eku_ok usages root then Inr [[leaf, root]]
         else Inl (Msg ''x509: incompatible key usage''))
      else Inl (Msg ''x509: certificate signed by unknown authority''))"

lemma x509_Verify_chains:
  "x509_Verify C root leaf now us h = Inr cs \<Longrightarrow>
     time_valid now leaf \<and> (leaf = root \<and> cs = [[leaf]] \<or> chains_to C root leaf now \<and> cs = [[leaf, root]])"
  by (auto simp: x509_Verify_def split: if_splits)

lemma x509_Verify_ok:
  assumes "time_valid now leaf" "leaf = root \<or> chains_to C root leaf now"
    "eku_ok us leaf" "eku_ok us root" "h = None \<or> (\<exists>d. h = Some d \<and> d \<in> set (DNSNames leaf))"
  shows "\<exists>chain. x509_Verify C root leaf now us h = Inr [leaf # chain]"
  using assms by (auto simp: x509_Verify_def)

end
