(* ===== verification/NodeName.thy ===== *)
theory NodeName
  imports GoStrings X509
begin

text \<open>
  The interface of a check for names of nodes, meshes and operators. Both
  \<^verbatim>\<open>internal/pki\<close> and \<^verbatim>\<open>internal/identity\<close> have such a check, written in
  different ways; the components that put a name into a URI path, a certificate name, a file or a
  TXT record rely only on the laws below.
\<close>

locale node_name =
  fixes valid :: "string \<Rightarrow> bool"
  assumes valid_chars: "valid s \<Longrightarrow> list_all label_char s"
    and valid_nonempty: "valid s \<Longrightarrow> s \<noteq> []"
    and valid_length: "valid s \<Longrightarrow> length s \<le> 63"
    and valid_hd: "valid s \<Longrightarrow> hd s \<noteq> CHR ''-''"
    and valid_complete: "list_all label_char s \<Longrightarrow> s \<noteq> [] \<Longrightarrow> length s \<le> 63 \<Longrightarrow> hd s \<noteq> CHR ''-'' \<Longrightarrow> valid s"
begin

lemma valid_iff:
  "valid s \<longleftrightarrow> list_all label_char s \<and> s \<noteq> [] \<and> length s \<le> 63 \<and> hd s \<noteq> CHR ''-''"
  using valid_chars valid_nonempty valid_length valid_hd valid_complete by blast

lemma valid_notin: "valid s \<Longrightarrow> \<not> label_char c \<Longrightarrow> c \<notin> set s"
  using valid_chars by (auto simp: list_all_iff)

lemma valid_no_slash: "valid s \<Longrightarrow> CHR ''/'' \<notin> set s"
  by (rule valid_notin) (auto simp: label_char_ord)

lemma valid_no_equals: "valid s \<Longrightarrow> CHR ''='' \<notin> set s"
  by (rule valid_notin) (auto simp: label_char_ord)

lemma valid_ascii: "valid s \<Longrightarrow> ascii_text s"
  using valid_chars by blast

lemma valid_line: "valid s \<Longrightarrow> TrimSpace (s @ [CHR 0x0A]) = s"
  using valid_chars TrimSpace_line(1) by blast

text \<open>The text of a host name with a suffix appended is a name when the parts fit.\<close>

lemma valid_with_suffix:
  assumes "valid h" "list_all label_char t" "length h + length t \<le> 63"
  shows "valid (h @ t)"
  using assms valid_chars[OF assms(1)] valid_nonempty[OF assms(1)] valid_hd[OF assms(1)]
  by (intro valid_complete) auto

end

end
