(* ===== verification/DemoCrypto.thy ===== *)
theory DemoCrypto
  imports X509
begin

text \<open>
  A concrete instance of the record \<open>crypto\<close>: a self-delimiting byte encoding of certificate
  bodies and requests, and a signature scheme that only checks shapes. It has the properties the
  program relies on (\<open>demo_crypto_ok\<close>), so theorems that assume \<open>crypto_ok\<close> are about something,
  and their concrete instances use it.
\<close>

section \<open>Self-delimiting encodings\<close>

definition codec :: "('a \<Rightarrow> bytes) \<Rightarrow> (bytes \<Rightarrow> ('a \<times> bytes) option) \<Rightarrow> bool" where
  "codec e d \<longleftrightarrow> (\<forall>x r. d (e x @ r) = Some (x, r))"

fun enc_nat :: "nat \<Rightarrow> bytes" where
  "enc_nat n = (if n = 0 then [0] else (if even n then 1 else 2) # enc_nat (n div 2))"

declare enc_nat.simps [simp del]

fun dec_nat :: "bytes \<Rightarrow> (nat \<times> bytes) option" where
  "dec_nat [] = None"
| "dec_nat (b # bs) =
     (if b = 0 then Some (0, bs)
      else map_option (\<lambda>(n, r). (2 * n + (if b = 2 then 1 else 0), r)) (dec_nat bs))"

definition enc_map :: "('a \<Rightarrow> 'b) \<Rightarrow> ('b \<Rightarrow> bytes) \<Rightarrow> 'a \<Rightarrow> bytes" where
  "enc_map f e x = e (f x)"

definition dec_map :: "('b \<Rightarrow> 'a) \<Rightarrow> (bytes \<Rightarrow> ('b \<times> bytes) option) \<Rightarrow> bytes \<Rightarrow> ('a \<times> bytes) option" where
  "dec_map g d bs = map_option (\<lambda>(y, r). (g y, r)) (d bs)"

definition enc_pair :: "('a \<Rightarrow> bytes) \<Rightarrow> ('b \<Rightarrow> bytes) \<Rightarrow> 'a \<times> 'b \<Rightarrow> bytes" where
  "enc_pair e f p = e (fst p) @ f (snd p)"

definition dec_pair ::
  "(bytes \<Rightarrow> ('a \<times> bytes) option) \<Rightarrow> (bytes \<Rightarrow> ('b \<times> bytes) option) \<Rightarrow> bytes \<Rightarrow> (('a \<times> 'b) \<times> bytes) option" where
  "dec_pair d c bs =
     (case d bs of None \<Rightarrow> None
      | Some (x, r) \<Rightarrow> (case c r of None \<Rightarrow> None | Some (y, r') \<Rightarrow> Some ((x, y), r')))"

fun dec_many :: "(bytes \<Rightarrow> ('a \<times> bytes) option) \<Rightarrow> nat \<Rightarrow> bytes \<Rightarrow> ('a list \<times> bytes) option" where
  "dec_many d 0 bs = Some ([], bs)"
| "dec_many d (Suc n) bs =
     (case d bs of None \<Rightarrow> None
      | Some (x, r) \<Rightarrow> (case dec_many d n r of None \<Rightarrow> None | Some (xs, r') \<Rightarrow> Some (x # xs, r')))"

definition enc_list :: "('a \<Rightarrow> bytes) \<Rightarrow> 'a list \<Rightarrow> bytes" where
  "enc_list e xs = enc_nat (length xs) @ concat (map e xs)"

definition dec_list :: "(bytes \<Rightarrow> ('a \<times> bytes) option) \<Rightarrow> bytes \<Rightarrow> ('a list \<times> bytes) option" where
  "dec_list d bs = (case dec_nat bs of None \<Rightarrow> None | Some (n, r) \<Rightarrow> dec_many d n r)"

lemma codec_nat [intro!]: "codec enc_nat dec_nat"
proof -
  have "dec_nat (enc_nat n @ r) = Some (n, r)" for n r
    by (induction n rule: enc_nat.induct) (subst enc_nat.simps, auto)
  then show ?thesis by (simp add: codec_def)
qed

lemma codec_map [intro]: "codec e d \<Longrightarrow> (\<And>x. g (f x) = x) \<Longrightarrow> codec (enc_map f e) (dec_map g d)"
  by (simp add: codec_def enc_map_def dec_map_def)

lemma codec_pair [intro!]: "codec e d \<Longrightarrow> codec f c \<Longrightarrow> codec (enc_pair e f) (dec_pair d c)"
  by (simp add: codec_def enc_pair_def dec_pair_def)

lemma codec_list [intro!]: "codec e d \<Longrightarrow> codec (enc_list e) (dec_list d)"
proof -
  assume ed: "codec e d"
  have many: "dec_many d (length xs) (concat (map e xs) @ r) = Some (xs, r)" for xs r
    using ed by (induction xs) (auto simp: codec_def)
  have "dec_nat (enc_nat n @ r) = Some (n, r)" for n r
    using codec_nat by (simp add: codec_def)
  then show ?thesis by (simp add: codec_def enc_list_def dec_list_def many)
qed

section \<open>Encodings of the data\<close>

definition enc_int :: "int \<Rightarrow> bytes" where
  "enc_int = enc_map (\<lambda>i. (nat i, nat (- i))) (enc_pair enc_nat enc_nat)"
definition dec_int :: "bytes \<Rightarrow> (int \<times> bytes) option" where
  "dec_int = dec_map (\<lambda>(p, n). int p - int n) (dec_pair dec_nat dec_nat)"

definition enc_bool :: "bool \<Rightarrow> bytes" where
  "enc_bool = enc_map (\<lambda>b. if b then 1 else 0) enc_nat"
definition dec_bool :: "bytes \<Rightarrow> (bool \<times> bytes) option" where
  "dec_bool = dec_map (\<lambda>n. n = 1) dec_nat"

definition enc_string :: "string \<Rightarrow> bytes" where
  "enc_string = enc_list (enc_map of_char enc_nat)"
definition dec_string :: "bytes \<Rightarrow> (string \<times> bytes) option" where
  "dec_string = dec_list (dec_map char_of dec_nat)"

definition enc_bytes :: "bytes \<Rightarrow> bytes" where
  "enc_bytes = enc_list (enc_map unat enc_nat)"
definition dec_bytes :: "bytes \<Rightarrow> (bytes \<times> bytes) option" where
  "dec_bytes = dec_list (dec_map of_nat dec_nat)"

definition enc_usage :: "16 word \<Rightarrow> bytes" where
  "enc_usage = enc_map unat enc_nat"
definition dec_usage :: "bytes \<Rightarrow> (16 word \<times> bytes) option" where
  "dec_usage = dec_map of_nat dec_nat"

definition eku_nat :: "ext_key_usage \<Rightarrow> nat" where
  "eku_nat u = (case u of ExtKeyUsageAny \<Rightarrow> 0 | ExtKeyUsageServerAuth \<Rightarrow> 1 | ExtKeyUsageClientAuth \<Rightarrow> 2)"
definition nat_eku :: "nat \<Rightarrow> ext_key_usage" where
  "nat_eku n = (if n = 0 then ExtKeyUsageAny else if n = 1 then ExtKeyUsageServerAuth else ExtKeyUsageClientAuth)"

definition curve_nat :: "curve \<Rightarrow> nat" where
  "curve_nat c = (case c of P224 \<Rightarrow> 0 | P256 \<Rightarrow> 1 | P384 \<Rightarrow> 2 | P521 \<Rightarrow> 3)"
definition nat_curve :: "nat \<Rightarrow> curve" where
  "nat_curve n = (if n = 0 then P224 else if n = 1 then P256 else if n = 2 then P384 else P521)"

definition pub_tuple :: "pubkey option \<Rightarrow> nat \<times> (nat \<times> nat \<times> nat) \<times> bytes" where
  "pub_tuple p = (case p of None \<Rightarrow> (0, (0, 0, 0), [])
     | Some (EcdsaPub c x y) \<Rightarrow> (1, (curve_nat c, x, y), []) | Some (OtherPub b) \<Rightarrow> (2, (0, 0, 0), b))"
definition tuple_pub :: "nat \<times> (nat \<times> nat \<times> nat) \<times> bytes \<Rightarrow> pubkey option" where
  "tuple_pub = (\<lambda>(k, (c, x, y), b). if k = 0 then None else if k = 1 then Some (EcdsaPub (nat_curve c) x y)
     else Some (OtherPub b))"

definition enc_pub :: "pubkey option \<Rightarrow> bytes" where
  "enc_pub = enc_map pub_tuple (enc_pair enc_nat (enc_pair (enc_pair enc_nat (enc_pair enc_nat enc_nat)) enc_bytes))"
definition dec_pub :: "bytes \<Rightarrow> (pubkey option \<times> bytes) option" where
  "dec_pub = dec_map tuple_pub (dec_pair dec_nat (dec_pair (dec_pair dec_nat (dec_pair dec_nat dec_nat)) dec_bytes))"

definition enc_url :: "url \<Rightarrow> bytes" where
  "enc_url = enc_map (\<lambda>u. (url_Scheme u, url_Host u, url_Path u)) (enc_pair enc_string (enc_pair enc_string enc_string))"
definition dec_url :: "bytes \<Rightarrow> (url \<times> bytes) option" where
  "dec_url = dec_map (\<lambda>(s, h, p). \<lparr>url_Scheme = s, url_Host = h, url_Path = p\<rparr>)
     (dec_pair dec_string (dec_pair dec_string dec_string))"

lemma eku_roundtrip: "nat_eku (eku_nat u) = u"
  by (cases u) (simp_all add: eku_nat_def nat_eku_def)

lemma curve_roundtrip: "nat_curve (curve_nat c) = c"
  by (cases c) (simp_all add: curve_nat_def nat_curve_def)

lemma pub_roundtrip: "tuple_pub (pub_tuple p) = p"
  by (auto simp: pub_tuple_def tuple_pub_def curve_roundtrip split: option.splits pubkey.splits)

lemma codec_int [intro!]: "codec enc_int dec_int"
  unfolding enc_int_def dec_int_def by (rule codec_map) auto

lemma codec_bool [intro!]: "codec enc_bool dec_bool"
  unfolding enc_bool_def dec_bool_def by (rule codec_map) auto

lemma codec_string [intro!]: "codec enc_string dec_string"
  unfolding enc_string_def dec_string_def by (rule codec_list, rule codec_map) auto

lemma codec_bytes [intro!]: "codec enc_bytes dec_bytes"
  unfolding enc_bytes_def dec_bytes_def by (rule codec_list, rule codec_map) auto

lemma codec_usage [intro!]: "codec enc_usage dec_usage"
  unfolding enc_usage_def dec_usage_def by (rule codec_map) auto

lemma codec_pub [intro!]: "codec enc_pub dec_pub"
  unfolding enc_pub_def dec_pub_def by (rule codec_map) (auto simp: pub_roundtrip)

lemma codec_url [intro!]: "codec enc_url dec_url"
  unfolding enc_url_def dec_url_def by (rule codec_map) auto

section \<open>Certificate bodies and keys\<close>

definition tbs_tuple where
  "tbs_tuple t =
     (((SerialNumber t, Subject_CommonName t), (Subject_Organization t, Issuer_CommonName t)),
      ((Issuer_Organization t, NotBefore t), (NotAfter t, KeyUsage t)),
      ((ExtKeyUsage t, BasicConstraintsValid t), (IsCA t, MaxPathLen t)),
      ((MaxPathLenZero t, DNSNames t), (URIs t, PublicKey t)))"

definition tuple_tbs where
  "tuple_tbs = (\<lambda>(((sn, cn), (org, icn)), ((iorg, nb), (na, ku)), ((eku, bc), (ca, mp)), ((mz, dns), (us, pk))).
     \<lparr>SerialNumber = sn, Subject_CommonName = cn, Subject_Organization = org, Issuer_CommonName = icn,
      Issuer_Organization = iorg, NotBefore = nb, NotAfter = na, KeyUsage = ku, ExtKeyUsage = eku,
      BasicConstraintsValid = bc, IsCA = ca, MaxPathLen = mp, MaxPathLenZero = mz, DNSNames = dns,
      URIs = us, PublicKey = pk\<rparr>)"

definition enc_tbs :: "cert_tbs \<Rightarrow> bytes" where
  "enc_tbs = enc_map tbs_tuple
     (enc_pair (enc_pair (enc_pair enc_nat enc_string) (enc_pair (enc_list enc_string) enc_string))
     (enc_pair (enc_pair (enc_pair (enc_list enc_string) enc_int) (enc_pair enc_int enc_usage))
     (enc_pair (enc_pair (enc_pair (enc_list (enc_map eku_nat enc_nat)) enc_bool) (enc_pair enc_bool enc_int))
        (enc_pair (enc_pair enc_bool (enc_list enc_string)) (enc_pair (enc_list enc_url) enc_pub)))))"

definition dec_tbs :: "bytes \<Rightarrow> (cert_tbs \<times> bytes) option" where
  "dec_tbs = dec_map tuple_tbs
     (dec_pair (dec_pair (dec_pair dec_nat dec_string) (dec_pair (dec_list dec_string) dec_string))
     (dec_pair (dec_pair (dec_pair (dec_list dec_string) dec_int) (dec_pair dec_int dec_usage))
     (dec_pair (dec_pair (dec_pair (dec_list (dec_map nat_eku dec_nat)) dec_bool) (dec_pair dec_bool dec_int))
        (dec_pair (dec_pair dec_bool (dec_list dec_string)) (dec_pair (dec_list dec_url) dec_pub)))))"

lemma codec_tbs [intro!]: "codec enc_tbs dec_tbs"
  unfolding enc_tbs_def dec_tbs_def
  by (rule codec_map) (auto simp: tbs_tuple_def tuple_tbs_def eku_roundtrip)

definition enc_priv :: "privkey \<Rightarrow> bytes" where
  "enc_priv = enc_map (\<lambda>k. (curve_nat (key_curve k), key_D k)) (enc_pair enc_nat enc_nat)"
definition dec_priv :: "bytes \<Rightarrow> (privkey \<times> bytes) option" where
  "dec_priv = dec_map (\<lambda>(c, d). PrivKey (nat_curve c) d) (dec_pair dec_nat dec_nat)"

lemma codec_priv [intro!]: "codec enc_priv dec_priv"
  unfolding enc_priv_def dec_priv_def by (rule codec_map) (auto simp: curve_roundtrip)

section \<open>The instance\<close>

definition demo_parse_cert :: "bytes \<Rightarrow> (cert_tbs \<times> bytes \<times> bytes) option" where
  "demo_parse_cert bs =
     (case dec_pair dec_bytes dec_bytes bs of
        Some ((b, s), []) \<Rightarrow> (case dec_tbs b of Some (t, []) \<Rightarrow> Some (t, b, s) | _ \<Rightarrow> None)
      | _ \<Rightarrow> None)"

definition demo_parse_csr :: "bytes \<Rightarrow> (string \<times> pubkey option \<times> bytes \<times> bytes) option" where
  "demo_parse_csr bs =
     (case dec_pair dec_bytes dec_bytes bs of
        Some ((b, s), []) \<Rightarrow>
          (case dec_pair dec_string dec_pub b of Some ((n, p), []) \<Rightarrow> Some (n, p, b, s) | _ \<Rightarrow> None)
      | _ \<Rightarrow> None)"

definition demo_crypto :: crypto where
  "demo_crypto =
     \<lparr>pub_of = (\<lambda>k. EcdsaPub (key_curve k) (key_D k) 0),
      ecdsa_sign = (\<lambda>k ent m. enc_pub (Some (EcdsaPub (key_curve k) (key_D k) 0)) @ m),
      ecdsa_verify = (\<lambda>p m s. s = enc_pub (Some p) @ m),
      tbs_der = (\<lambda>t. Some (enc_tbs t)),
      cert_der = (\<lambda>b s. enc_pair enc_bytes enc_bytes (b, s)),
      cert_parse = demo_parse_cert,
      csr_tbs_der = (\<lambda>n p. Some (enc_pair enc_string enc_pub (n, Some p))),
      csr_der = (\<lambda>b s. enc_pair enc_bytes enc_bytes (b, s)),
      csr_parse = demo_parse_csr,
      pkcs8_der = (\<lambda>k. Some (enc_priv k)),
      pkcs8_parse = (\<lambda>b. map_option (\<lambda>(k, r). EcKey k) (dec_priv b)),
      sec1_parse = (\<lambda>b. map_option fst (dec_priv b)),
      pem_EncodeToMemory = (\<lambda>t b. enc_pair enc_string enc_bytes (t, b)),
      pem_Decode = (\<lambda>bs. map_option fst (dec_pair dec_string dec_bytes bs)),
      argon2_IDKey = (\<lambda>pw salt t m p n. pw @ salt)\<rparr>"

lemma codecD: "codec e d \<Longrightarrow> d (e x) = Some (x, [])"
  unfolding codec_def by (metis append_Nil2)

lemma demo_crypto_ok: "crypto_ok demo_crypto"
proof -
  have bb: "dec_pair dec_bytes dec_bytes (enc_pair enc_bytes enc_bytes (b, s)) = Some ((b, s), [])" for b s
    by (rule codecD) (rule codec_pair[OF codec_bytes codec_bytes])
  have t: "dec_tbs (enc_tbs t) = Some (t, [])" for t by (rule codecD) (rule codec_tbs)
  have sp: "dec_pair dec_string dec_pub (enc_pair enc_string enc_pub (n, p)) = Some ((n, p), [])" for n p
    by (rule codecD) (rule codec_pair[OF codec_string codec_pub])
  have sb: "dec_pair dec_string dec_bytes (enc_pair enc_string enc_bytes (n, p)) = Some ((n, p), [])" for n p
    by (rule codecD) (rule codec_pair[OF codec_string codec_bytes])
  have k: "dec_priv (enc_priv k) = Some (k, [])" for k by (rule codecD) (rule codec_priv)
  show ?thesis
    unfolding crypto_ok_def signatures_ok_def keys_ok_def cert_codec_ok_def csr_codec_ok_def pem_codec_ok_def
    by (simp add: demo_crypto_def demo_parse_cert_def demo_parse_csr_def bb t sp sb k)
qed

lemma demo_pub_of [simp]: "pub_of demo_crypto k = EcdsaPub (key_curve k) (key_D k) 0"
  by (simp add: demo_crypto_def)

end
