(* ===== verification/CA.thy ===== *)
theory CA
  imports NodeName DemoCrypto
begin

text \<open>
  \<^verbatim>\<open>internal/pki/ca.go\<close>: principals and their SAN URIs, the mesh CA, issuing and verifying
  certificates. Randomness and clock readings are arguments: \<open>d\<close> is the scalar drawn by
  \<^verbatim>\<open>ecdsa.GenerateKey\<close>, \<open>r\<close> the number drawn by \<^verbatim>\<open>rand.Int\<close> (\<open>None\<close> when the random
  source fails), \<open>ent\<close> the randomness of a signature, \<open>now\<close> the value of \<^verbatim>\<open>time.Now\<close>.
\<close>

unbundle bit_operations_syntax

section \<open>Constants and principals\<close>

definition URIScheme :: string where "URIScheme = ''lcm''"
definition RoleNode :: string where "RoleNode = ''node''"
definition RoleAdmin :: string where "RoleAdmin = ''admin''"
definition CACertTTL :: duration where "CACertTTL = 10 * 365 * 24 * Hour"
definition DefaultNodeCertTTL :: duration where "DefaultNodeCertTTL = 30 * 24 * Hour"
definition DefaultAdminCertTTL :: duration where "DefaultAdminCertTTL = 365 * 24 * Hour"
definition backdate :: duration where "backdate = 5 * Minute"

lemmas ca_ttl_defs [go_time] = CACertTTL_def DefaultNodeCertTTL_def DefaultAdminCertTTL_def backdate_def

record principal =
  pr_MeshID :: string
  pr_Role :: string
  pr_Name :: string

definition upper_hex :: "nat \<Rightarrow> char" where
  "upper_hex d = (if d < 10 then char_of (48 + d) else char_of (55 + d))"

definition principal_URI :: "principal \<Rightarrow> url" where
  "principal_URI p =
     \<lparr>url_Scheme = URIScheme, url_Host = pr_MeshID p, url_Path = ''/'' @ pr_Role p @ ''/'' @ pr_Name p\<rparr>"

text \<open>
  \<^verbatim>\<open>URL.String\<close> for such a URL: the scheme, two slashes, the host and the path, where every byte that is
  not allowed in its place is written as a percent sign and two digits.
\<close>

definition url_escape :: "string \<Rightarrow> string \<Rightarrow> string" where
  "url_escape allowed s =
     concat (map (\<lambda>c. if is_lower_char c \<or> 65 \<le> ord_of c \<and> ord_of c \<le> 90 \<or> is_digit_char c \<or> c \<in> set allowed then [c]
       else [CHR 0x25, upper_hex (ord_of c div 16), upper_hex (ord_of c mod 16)]) s)"

definition host_chars :: string where
  "host_chars = ''-_.~!$&()*+,;=:[]<>'' @ [CHR 0x22, CHR 0x27]"

definition path_chars :: string where
  "path_chars = ''-_.~$&+,/:;=@''"

definition principal_String :: "principal \<Rightarrow> string" where
  "principal_String p =
     (let u = principal_URI p in url_Scheme u @ ''://'' @ url_escape host_chars (url_Host u) @ url_escape path_chars (url_Path u))"

definition ParsePrincipal :: "url option \<Rightarrow> err + principal" where
  "ParsePrincipal uo =
     (case uo of None \<Rightarrow> Inl (CaErr ErrBadPrincipal)
      | Some u \<Rightarrow>
          if url_Scheme u \<noteq> URIScheme \<or> url_Host u = [] then Inl (CaErr ErrBadPrincipal)
          else (case Split CHR ''/'' (TrimPrefix (url_Path u) ''/'') of
                  [role, name] \<Rightarrow>
                    if role = [] \<or> name = [] then Inl (Wrap ''uri'' (CaErr ErrBadPrincipal))
                    else if role \<noteq> RoleNode \<and> role \<noteq> RoleAdmin then
                      Inl (Wrap ''unknown role'' (CaErr ErrBadPrincipal))
                    else Inr \<lparr>pr_MeshID = url_Host u, pr_Role = role, pr_Name = name\<rparr>
                | _ \<Rightarrow> Inl (Wrap ''uri'' (CaErr ErrBadPrincipal))))"

definition PrincipalFromCert :: "'a cert_tbs_scheme \<Rightarrow> err + principal" where
  "PrincipalFromCert cert =
     (case find (\<lambda>u. url_Scheme u = URIScheme) (URIs cert) of
        None \<Rightarrow> Inl (CaErr ErrNoMeshURI)
      | Some u \<Rightarrow> ParsePrincipal (Some u))"

section \<open>The label check\<close>

text \<open>
  The loop over the runes of the label. A byte of 128 or more belongs to a rune outside ASCII (or
  to an invalid sequence), which is not allowed either, so the loop can go byte by byte.
\<close>

fun label_loop :: "nat \<Rightarrow> string \<Rightarrow> err + unit" where
  "label_loop i [] = Inr ()"
| "label_loop i (r # rs) =
     (if is_lower_char r \<or> is_digit_char r \<or> (r = CHR ''-'' \<and> 0 < i) then label_loop (Suc i) rs
      else Inl (Msg ''contains invalid character''))"

definition validateLabel :: "string \<Rightarrow> err + unit" where
  "validateLabel s =
     (if length s = 0 \<or> 63 < length s then Inl (Msg ''length must be 1..63'') else label_loop 0 s)"

section \<open>The CA\<close>

record CA =
  ca_Cert :: certificate
  ca_Key :: privkey

definition MeshID :: "CA \<Rightarrow> string" where
  "MeshID ca = (case Subject_Organization (ca_Cert ca) of [] \<Rightarrow> [] | o1 # _ \<Rightarrow> o1)"

definition newSerial :: "nat option \<Rightarrow> err + nat" where
  "newSerial r = (case r of None \<Rightarrow> Inl (Wrap ''pki: serial'' (Msg ''random'')) | Some s \<Rightarrow> Inr (s + 1))"

definition NewKey :: "nat option \<Rightarrow> err + privkey" where
  "NewKey d = (case d of None \<Rightarrow> Inl (Msg ''random'') | Some x \<Rightarrow> Inr (PrivKey P256 x))"

definition ca_template :: "string \<Rightarrow> nat \<Rightarrow> time \<Rightarrow> cert_tbs" where
  "ca_template meshID serial now =
     \<lparr>SerialNumber = serial, Subject_CommonName = ''Local Compute Mesh CA'',
      Subject_Organization = [meshID], Issuer_CommonName = [], Issuer_Organization = [],
      NotBefore = time_Add now (- backdate), NotAfter = time_Add now CACertTTL,
      KeyUsage = KeyUsageCertSign OR KeyUsageCRLSign OR KeyUsageDigitalSignature, ExtKeyUsage = [],
      BasicConstraintsValid = True, IsCA = True, MaxPathLen = 0, MaxPathLenZero = True,
      DNSNames = [], URIs = [], PublicKey = None\<rparr>"

definition NewCA :: "crypto \<Rightarrow> string \<Rightarrow> nat option \<Rightarrow> nat option \<Rightarrow> time \<Rightarrow> bytes \<Rightarrow> err + CA" where
  "NewCA C meshID d r now ent =
     and_then (map_err (Wrap ''pki: mesh_id'') (validateLabel meshID)) (\<lambda>_.
     and_then (map_err (Wrap ''pki: generate CA key'') (NewKey d)) (\<lambda>key.
     and_then (newSerial r) (\<lambda>serial.
       let tmpl = ca_template meshID serial now in
       and_then (map_err (Wrap ''pki: self-sign CA'')
                  (CreateCertificate C ent tmpl (Subject_CommonName tmpl, Subject_Organization tmpl) None
                    (pub_of C key) key)) (\<lambda>der.
       and_then (ParseCertificate C der) (\<lambda>cert. Inr \<lparr>ca_Cert = cert, ca_Key = key\<rparr>)))))"

definition LoadCA :: "crypto \<Rightarrow> certificate \<Rightarrow> privkey \<Rightarrow> err + CA" where
  "LoadCA C cert key =
     (if \<not> IsCA cert then Inl (CaErr ErrNotCA)
      else (case PublicKey cert of
              Some (EcdsaPub cv x y) \<Rightarrow>
                if EcdsaPub cv x y = pub_of C key then Inr \<lparr>ca_Cert = cert, ca_Key = key\<rparr>
                else Inl (CaErr ErrKeyMismatch)
            | _ \<Rightarrow> Inl (CaErr ErrKeyMismatch)))"

definition Pool :: "CA \<Rightarrow> certificate list" where
  "Pool ca = [ca_Cert ca]"

section \<open>Issuing\<close>

record sign_request =
  sr_Principal :: principal
  sr_PublicKey :: "pubkey option"
  sr_TTL :: duration

definition leaf_template :: "sign_request \<Rightarrow> nat \<Rightarrow> time \<Rightarrow> cert_tbs" where
  "leaf_template req serial now =
     \<lparr>SerialNumber = serial, Subject_CommonName = pr_Name (sr_Principal req),
      Subject_Organization = [pr_MeshID (sr_Principal req)], Issuer_CommonName = [], Issuer_Organization = [],
      NotBefore = time_Add now (- backdate), NotAfter = time_Add now (sr_TTL req),
      KeyUsage = KeyUsageDigitalSignature, ExtKeyUsage = [ExtKeyUsageServerAuth, ExtKeyUsageClientAuth],
      BasicConstraintsValid = True, IsCA = False, MaxPathLen = 0, MaxPathLenZero = False,
      DNSNames = (if pr_Role (sr_Principal req) = RoleNode then [pr_Name (sr_Principal req)] else []),
      URIs = [principal_URI (sr_Principal req)], PublicKey = None\<rparr>"

definition Sign :: "crypto \<Rightarrow> CA \<Rightarrow> sign_request \<Rightarrow> nat option \<Rightarrow> time \<Rightarrow> bytes \<Rightarrow> err + certificate" where
  "Sign C ca req r now ent =
     (if pr_MeshID (sr_Principal req) \<noteq> MeshID ca then Inl (Wrap ''mesh'' (CaErr ErrMeshMismatch))
      else and_then (map_err (\<lambda>_. Wrap ''name'' (CaErr ErrInvalidNodeID)) (validateLabel (pr_Name (sr_Principal req)))) (\<lambda>_.
        if pr_Role (sr_Principal req) \<noteq> RoleNode \<and> pr_Role (sr_Principal req) \<noteq> RoleAdmin then
          Inl (Wrap ''role'' (CaErr ErrBadPrincipal))
        else (case sr_PublicKey req of
                None \<Rightarrow> Inl (Msg ''pki: public key required'')
              | Some pub \<Rightarrow>
                  if sr_TTL req \<le> 0 then Inl (Msg ''pki: TTL must be positive'')
                  else and_then (newSerial r) (\<lambda>serial.
                    and_then (map_err (Wrap ''pki: sign'')
                      (CreateCertificate C ent (leaf_template req serial now)
                        (Subject_CommonName (ca_Cert ca), Subject_Organization (ca_Cert ca))
                        (PublicKey (ca_Cert ca)) pub (ca_Key ca)))
                    (ParseCertificate C)))))"

definition SignCSR ::
  "crypto \<Rightarrow> CA \<Rightarrow> bytes \<Rightarrow> principal \<Rightarrow> duration \<Rightarrow> nat option \<Rightarrow> time \<Rightarrow> bytes \<Rightarrow> err + certificate" where
  "SignCSR C ca csrDER p ttl r now ent =
     and_then (map_err (\<lambda>_. Wrap ''parse'' (CaErr ErrBadCSR)) (ParseCertificateRequest C csrDER)) (\<lambda>csr.
       if \<not> csr_CheckSignature C csr then Inl (Wrap ''bad signature'' (CaErr ErrBadCSR))
       else (case csr_PublicKey csr of
               Some (EcdsaPub cv x y) \<Rightarrow>
                 if cv = P256 then
                   Sign C ca \<lparr>sr_Principal = p, sr_PublicKey = Some (EcdsaPub cv x y), sr_TTL = ttl\<rparr> r now ent
                 else Inl (Wrap ''key must be ECDSA P-256'' (CaErr ErrBadCSR))
             | _ \<Rightarrow> Inl (Wrap ''key must be ECDSA P-256'' (CaErr ErrBadCSR))))"

section \<open>Verifying\<close>

definition VerifyAgainst :: "crypto \<Rightarrow> certificate \<Rightarrow> certificate \<Rightarrow> time \<Rightarrow> err + principal" where
  "VerifyAgainst C caCert leaf now =
     and_then (map_err (Wrap ''pki: verify'') (x509_Verify C caCert leaf now [ExtKeyUsageAny] None)) (\<lambda>_.
     and_then (PrincipalFromCert leaf) (\<lambda>p.
       let meshID = (case Subject_Organization caCert of [] \<Rightarrow> [] | o1 # _ \<Rightarrow> o1) in
       if pr_MeshID p \<noteq> meshID then Inl (Wrap ''cert and CA'' (CaErr ErrMeshMismatch)) else Inr p))"

definition CA_Verify :: "crypto \<Rightarrow> CA \<Rightarrow> certificate \<Rightarrow> time \<Rightarrow> err + principal" where
  "CA_Verify C ca leaf now = VerifyAgainst C (ca_Cert ca) leaf now"

definition NewCSR :: "crypto \<Rightarrow> string \<Rightarrow> privkey \<Rightarrow> bytes \<Rightarrow> err + bytes" where
  "NewCSR C nodeID key ent =
     and_then (map_err (\<lambda>_. Wrap ''node_id'' (CaErr ErrInvalidNodeID)) (validateLabel nodeID)) (\<lambda>_.
       CreateCertificateRequest C ent nodeID key)"

definition Fingerprint :: "certificate \<Rightarrow> string" where
  "Fingerprint cert = hex_EncodeToString (Sum256 (Raw cert))"

section \<open>Labels and URIs\<close>

lemma label_loop_ok:
  "is_ok (label_loop i s) \<longleftrightarrow> list_all label_char s \<and> (i = 0 \<and> s \<noteq> [] \<longrightarrow> hd s \<noteq> CHR ''-'')"
proof (induction s arbitrary: i)
  case (Cons r rs)
  have "\<not> is_lower_char CHR ''-''" "\<not> is_digit_char CHR ''-''" by (simp_all add: char_class_defs)
  with Cons.IH[of "Suc i"] show ?case by (auto simp: label_char_def)
qed simp

lemma validateLabel_iff:
  "is_ok (validateLabel s) \<longleftrightarrow> list_all label_char s \<and> s \<noteq> [] \<and> length s \<le> 63 \<and> hd s \<noteq> CHR ''-''"
  by (auto simp: validateLabel_def label_loop_ok)

interpretation pki_label: node_name "\<lambda>s. is_ok (validateLabel s)"
  by unfold_locales (simp_all add: validateLabel_iff)

lemma validateLabel_Inr [go_result]: "validateLabel s = Inr u \<longleftrightarrow> is_ok (validateLabel s)"
  by (cases "validateLabel s") auto

definition role_ok :: "string \<Rightarrow> bool" where
  "role_ok r \<longleftrightarrow> r = RoleNode \<or> r = RoleAdmin"

lemma role_no_slash: "role_ok r \<Longrightarrow> CHR ''/'' \<notin> set r \<and> r \<noteq> []"
  by (auto simp: role_ok_def RoleNode_def RoleAdmin_def)

lemma ParsePrincipal_URI:
  assumes "pr_MeshID p \<noteq> []" "role_ok (pr_Role p)" "pr_Name p \<noteq> []" "CHR ''/'' \<notin> set (pr_Name p)"
  shows "ParsePrincipal (Some (principal_URI p)) = Inr p"
proof -
  have "Split CHR ''/'' (pr_Role p @ CHR ''/'' # pr_Name p) = [pr_Role p, pr_Name p]"
    using assms role_no_slash by (simp add: Split_append)
  then show ?thesis using assms role_no_slash[of "pr_Role p"]
    by (auto simp: ParsePrincipal_def principal_URI_def TrimPrefix_def role_ok_def)
qed

lemma ParsePrincipal_Inr:
  assumes "ParsePrincipal (Some u) = Inr p"
  shows "url_Scheme u = URIScheme \<and> url_Host u = pr_MeshID p \<and> pr_MeshID p \<noteq> [] \<and>
    role_ok (pr_Role p) \<and> pr_Name p \<noteq> []"
  using assms by (auto simp: ParsePrincipal_def role_ok_def split: if_splits list.splits)

lemma PrincipalFromCert_Inr:
  assumes "PrincipalFromCert c = Inr p"
  shows "pr_MeshID p \<noteq> [] \<and> role_ok (pr_Role p) \<and> pr_Name p \<noteq> [] \<and>
    (\<exists>u \<in> set (URIs c). url_Scheme u = URIScheme \<and> url_Host u = pr_MeshID p)"
proof -
  obtain u where u: "find (\<lambda>u. url_Scheme u = URIScheme) (URIs c) = Some u"
    and p: "ParsePrincipal (Some u) = Inr p"
    using assms by (auto simp: PrincipalFromCert_def split: option.splits)
  have "u \<in> set (URIs c)" using u by (auto simp: find_Some_iff in_set_conv_nth)
  with ParsePrincipal_Inr[OF p] show ?thesis by blast
qed

section \<open>Well-formed CAs and clocks\<close>

text \<open>What \<open>NewCA\<close> establishes of a CA, and the dates a certificate can carry.\<close>

definition ca_wf :: "crypto \<Rightarrow> CA \<Rightarrow> bool" where
  "ca_wf C ca \<longleftrightarrow> may_sign (ca_Cert ca) \<and> PublicKey (ca_Cert ca) = Some (pub_of C (ca_Key ca)) \<and>
     ascii_text (Subject_CommonName (ca_Cert ca)) \<and> Subject_Organization (ca_Cert ca) = [MeshID ca] \<and>
     is_ok (validateLabel (MeshID ca)) \<and> ExtKeyUsage (ca_Cert ca) = []"

definition clock_ok :: "time \<Rightarrow> bool" where
  "clock_ok now \<longleftrightarrow> Hour \<le> now \<and> now + 20 * 365 * 24 * Hour \<le> max_cert_time"

lemma clock_cert_times:
  assumes "clock_ok now" "- backdate \<le> ttl" "ttl \<le> 20 * 365 * 24 * Hour"
  shows "cert_time_ok (trunc_sec (time_Add now ttl))"
proof -
  have "0 \<le> time_Add now ttl" "time_Add now ttl \<le> max_cert_time"
    using assms by (auto simp: clock_ok_def time_Add_def go_time max_cert_time_def)
  then show ?thesis
    using trunc_sec_bounds[of "time_Add now ttl"] trunc_sec_nonneg[of "time_Add now ttl"]
    by (simp add: cert_time_ok_def)
qed

lemma may_sign_ca_usage: "(KeyUsageCertSign OR KeyUsageCRLSign OR KeyUsageDigitalSignature) AND KeyUsageCertSign \<noteq> 0"
  by (simp add: KeyUsageCertSign_def KeyUsageCRLSign_def KeyUsageDigitalSignature_def)

section \<open>Creating and loading a CA\<close>

definition ca_issuer :: "CA \<Rightarrow> string \<times> string list" where
  "ca_issuer ca = (Subject_CommonName (ca_Cert ca), Subject_Organization (ca_Cert ca))"

lemma issued_tbs_sel [simp]:
  "SerialNumber (issued_tbs t i k) = SerialNumber t"
  "Subject_CommonName (issued_tbs t i k) = Subject_CommonName t"
  "Subject_Organization (issued_tbs t i k) = Subject_Organization t"
  "Issuer_CommonName (issued_tbs t i k) = fst i"
  "Issuer_Organization (issued_tbs t i k) = snd i"
  "NotBefore (issued_tbs t i k) = trunc_sec (NotBefore t)"
  "NotAfter (issued_tbs t i k) = trunc_sec (NotAfter t)"
  "KeyUsage (issued_tbs t i k) = KeyUsage t"
  "ExtKeyUsage (issued_tbs t i k) = ExtKeyUsage t"
  "BasicConstraintsValid (issued_tbs t i k) = BasicConstraintsValid t"
  "IsCA (issued_tbs t i k) = IsCA t"
  "MaxPathLen (issued_tbs t i k) = normal_path_len t"
  "MaxPathLenZero (issued_tbs t i k) = (normal_path_len t = 0)"
  "DNSNames (issued_tbs t i k) = DNSNames t"
  "URIs (issued_tbs t i k) = URIs t"
  "PublicKey (issued_tbs t i k) = Some k"
  by (simp_all add: issued_tbs_def)

lemma ca_template_tbs_ok:
  assumes "is_ok (validateLabel m)" "clock_ok now"
  shows "tbs_ok (issued_tbs (ca_template m (r + 1) now) (''Local Compute Mesh CA'', [m]) k)"
proof -
  have "cert_time_ok (trunc_sec (time_Add now (- backdate)))" "cert_time_ok (trunc_sec (time_Add now CACertTTL))"
    using assms(2) by (rule clock_cert_times; simp add: go_time)+
  then show ?thesis using pki_label.valid_ascii[OF assms(1)]
    by (simp add: tbs_ok_def ca_template_def normal_path_len_def ascii_text_def)
qed

lemma NewCA_ok:
  assumes C: "crypto_ok C" and m: "is_ok (validateLabel m)" and now: "clock_ok now"
  obtains ca where "NewCA C m (Some d) (Some r) now ent = Inr ca" "MeshID ca = m" "ca_wf C ca"
    "ca_Key ca = PrivKey P256 d" "signed_by C (ca_Cert ca) (ca_Cert ca)"
    "NotBefore (ca_Cert ca) = trunc_sec (now - backdate)" "NotAfter (ca_Cert ca) = trunc_sec (now + CACertTTL)"
    "SerialNumber (ca_Cert ca) = r + 1" "Issuer_CommonName (ca_Cert ca) = Subject_CommonName (ca_Cert ca)"
    "URIs (ca_Cert ca) = []"
proof -
  let ?t = "ca_template m (r + 1) now" and ?k = "PrivKey P256 d" and ?i = "(''Local Compute Mesh CA'', [m])"
  obtain b sg where der: "CreateCertificate C ent ?t ?i None (pub_of C ?k) ?k = Inr (cert_der C b sg)"
    and parse: "ParseCertificate C (cert_der C b sg) =
      Inr (mk_certificate (issued_tbs ?t ?i (pub_of C ?k)) b sg (cert_der C b sg))"
    and sig: "ecdsa_verify C (pub_of C ?k) b sg"
    by (rule CreateCertificate_parse[OF C ca_template_tbs_ok[OF m now], of None ?k])
      (auto simp: ca_template_def)
  let ?ca = "\<lparr>ca_Cert = mk_certificate (issued_tbs ?t ?i (pub_of C ?k)) b sg (cert_der C b sg), ca_Key = ?k\<rparr>"
  have new: "NewCA C m (Some d) (Some r) now ent = Inr ?ca"
  proof -
    obtain u where "validateLabel m = Inr u" using m by (auto simp: is_ok_iff)
    moreover have "Subject_CommonName ?t = fst ?i" "Subject_Organization ?t = snd ?i"
      by (simp_all add: ca_template_def)
    ultimately show ?thesis by (simp add: NewCA_def NewKey_def newSerial_def Let_def der[simplified] parse[simplified])
  qed
  have wf: "ca_wf C ?ca"
    using m may_sign_ca_usage
    by (simp add: ca_wf_def may_sign_def MeshID_def ca_template_def ascii_text_def)
  show thesis
    by (rule that[OF new _ wf])
      (use sig in \<open>simp_all add: MeshID_def ca_template_def signed_by_def time_Add_def\<close>)
qed

lemma NewCA_parse: "NewCA C m d r now ent = Inr ca \<Longrightarrow> ParseCertificate C (Raw (ca_Cert ca)) = Inr (ca_Cert ca)"
  using ParseCertificate_Raw by (fastforce simp: NewCA_def Let_def go_result)

text \<open>
  Creating a mesh CA. For a valid mesh name the result is a self-signed P-256 CA certificate that
  names the mesh, may sign certificates, is valid from five minutes before \<open>now\<close> for ten years (to
  the second), has a positive serial number, and that \<^verbatim>\<open>LoadCA\<close> accepts with its key; for any
  other mesh name the result is the mesh name error.
\<close>

lemma NewCA_spec:
  assumes "crypto_ok C" "clock_ok now"
  shows "if is_ok (validateLabel m)
    then \<exists>ca. NewCA C m (Some d) (Some r) now ent = Inr ca \<and> MeshID ca = m \<and> ca_wf C ca \<and>
      key_curve (ca_Key ca) = P256 \<and> signed_by C (ca_Cert ca) (ca_Cert ca) \<and> 0 < SerialNumber (ca_Cert ca) \<and>
      NotBefore (ca_Cert ca) = trunc_sec (now - backdate) \<and> NotAfter (ca_Cert ca) = trunc_sec (now + CACertTTL) \<and>
      LoadCA C (ca_Cert ca) (ca_Key ca) = Inr ca
    else \<exists>e. NewCA C m (Some d) (Some r) now ent = Inl (Wrap ''pki: mesh_id'' e)"
proof (cases "is_ok (validateLabel m)")
  case True
  obtain ca where ca: "NewCA C m (Some d) (Some r) now ent = Inr ca" "MeshID ca = m" "ca_wf C ca"
    "ca_Key ca = PrivKey P256 d" "signed_by C (ca_Cert ca) (ca_Cert ca)"
    "NotBefore (ca_Cert ca) = trunc_sec (now - backdate)" "NotAfter (ca_Cert ca) = trunc_sec (now + CACertTTL)"
    "SerialNumber (ca_Cert ca) = r + 1"
    using NewCA_ok[OF assms(1) True assms(2)] by metis
  obtain x y where "pub_of C (ca_Key ca) = EcdsaPub P256 x y"
    using crypto_ok_key[OF assms(1), of "ca_Key ca"] ca(4) by auto
  then have "LoadCA C (ca_Cert ca) (ca_Key ca) = Inr ca"
    using ca(3) by (simp add: LoadCA_def ca_wf_def may_sign_def)
  with ca True show ?thesis by auto
next
  case False
  then show ?thesis by (cases "validateLabel m") (auto simp: NewCA_def)
qed

section \<open>Issuing and verifying\<close>

definition sign_allowed :: "CA \<Rightarrow> sign_request \<Rightarrow> bool" where
  "sign_allowed ca req \<longleftrightarrow> pr_MeshID (sr_Principal req) = MeshID ca \<and>
     is_ok (validateLabel (pr_Name (sr_Principal req))) \<and> role_ok (pr_Role (sr_Principal req)) \<and>
     sr_PublicKey req \<noteq> None \<and> 0 < sr_TTL req"

lemma leaf_template_tbs_ok:
  assumes "ca_wf C ca" "clock_ok now" "sign_allowed ca req" "sr_TTL req \<le> 20 * 365 * 24 * Hour"
  shows "tbs_ok (issued_tbs (leaf_template req (r + 1) now) (ca_issuer ca) k)"
proof -
  let ?p = "sr_Principal req"
  have name: "is_ok (validateLabel (pr_Name ?p))" and mesh: "is_ok (validateLabel (pr_MeshID ?p))"
    using assms by (auto simp: sign_allowed_def ca_wf_def)
  have "cert_time_ok (trunc_sec (time_Add now (- backdate)))"
    using assms(2) by (rule clock_cert_times) (simp_all add: go_time)
  moreover have "cert_time_ok (trunc_sec (time_Add now (sr_TTL req)))"
    using assms(2) by (rule clock_cert_times) (use assms(3,4) in \<open>simp_all add: go_time sign_allowed_def\<close>)
  moreover have "url_ok (principal_URI ?p)"
  proof -
    have "list_all (\<lambda>c. label_char c \<or> c = CHR ''/'') (pr_Role ?p)"
      using assms(3) by (auto simp: sign_allowed_def role_ok_def RoleNode_def RoleAdmin_def label_char_ord)
    moreover have "list_all (\<lambda>c. label_char c \<or> c = CHR ''/'') (pr_Name ?p)"
      using pki_label.valid_chars[OF name] by (auto simp: list_all_iff)
    ultimately show ?thesis using pki_label.valid_chars[OF mesh]
      by (simp add: url_ok_def principal_URI_def URIScheme_def ascii_text_def)
  qed
  ultimately show ?thesis using pki_label.valid_ascii[OF name] pki_label.valid_ascii[OF mesh] assms(1,3)
    by (simp add: tbs_ok_def leaf_template_def normal_path_len_def ca_issuer_def ca_wf_def sign_allowed_def)
qed

lemma Sign_ok:
  assumes C: "crypto_ok C" and wf: "ca_wf C ca" and now: "clock_ok now" and req: "sign_allowed ca req"
    and ttl: "sr_TTL req \<le> 20 * 365 * 24 * Hour" and pub: "sr_PublicKey req = Some pk"
  obtains b sg where
    "Sign C ca req (Some r) now ent =
       Inr (mk_certificate (issued_tbs (leaf_template req (r + 1) now) (ca_issuer ca) pk) b sg (cert_der C b sg))"
    "ecdsa_verify C (pub_of C (ca_Key ca)) b sg"
    "ParseCertificate C (cert_der C b sg) =
       Inr (mk_certificate (issued_tbs (leaf_template req (r + 1) now) (ca_issuer ca) pk) b sg (cert_der C b sg))"
proof -
  let ?t = "leaf_template req (r + 1) now"
  obtain b sg where der: "CreateCertificate C ent ?t (ca_issuer ca) (PublicKey (ca_Cert ca)) pk (ca_Key ca) =
      Inr (cert_der C b sg)"
    and parse: "ParseCertificate C (cert_der C b sg) =
      Inr (mk_certificate (issued_tbs ?t (ca_issuer ca) pk) b sg (cert_der C b sg))"
    and sig: "ecdsa_verify C (pub_of C (ca_Key ca)) b sg"
    by (rule CreateCertificate_parse[OF C leaf_template_tbs_ok[OF wf now req ttl],
          of "PublicKey (ca_Cert ca)" "ca_Key ca"])
      (use wf in \<open>auto simp: ca_wf_def leaf_template_def\<close>)
  obtain u where u: "validateLabel (pr_Name (sr_Principal req)) = Inr u"
    using req by (auto simp: sign_allowed_def is_ok_iff)
  show thesis
    by (rule that[OF _ sig parse])
      (use req pub der parse u in \<open>auto simp: Sign_def sign_allowed_def role_ok_def newSerial_def ca_issuer_def\<close>)
qed

lemma Sign_rejects: "\<not> sign_allowed ca req \<Longrightarrow> \<exists>e. Sign C ca req r now ent = Inl e"
  by (cases "validateLabel (pr_Name (sr_Principal req))")
    (auto simp: Sign_def sign_allowed_def role_ok_def split: option.splits)

lemma leaf_principal:
  assumes "sign_allowed ca req" "ca_wf C ca"
  shows "PrincipalFromCert (mk_certificate (issued_tbs (leaf_template req n now) i pk) b sg d) = Inr (sr_Principal req)"
proof -
  have "ParsePrincipal (Some (principal_URI (sr_Principal req))) = Inr (sr_Principal req)"
    using assms pki_label.valid_nonempty pki_label.valid_no_slash
    by (intro ParsePrincipal_URI) (auto simp: sign_allowed_def ca_wf_def)
  then show ?thesis by (simp add: PrincipalFromCert_def leaf_template_def principal_URI_def)
qed

lemma leaf_chains:
  assumes "ca_wf C ca" "ecdsa_verify C (pub_of C (ca_Key ca)) b sg" "time_valid t (ca_Cert ca)"
  shows "chains_to C (ca_Cert ca) (mk_certificate (issued_tbs tm (ca_issuer ca) pk) b sg d) t"
  using assms by (simp add: chains_to_def ca_issuer_def ca_wf_def signed_by_def)

lemma VerifyAgainst_Inr:
  "VerifyAgainst C root leaf now = Inr p \<longleftrightarrow>
     time_valid now leaf \<and> (leaf = root \<or> chains_to C root leaf now) \<and> PrincipalFromCert leaf = Inr p \<and>
     Subject_Organization root \<noteq> [] \<and> pr_MeshID p = hd (Subject_Organization root)"
proof -
  have "(\<exists>cs. x509_Verify C root leaf now [ExtKeyUsageAny] None = Inr cs) \<longleftrightarrow>
      time_valid now leaf \<and> (leaf = root \<or> chains_to C root leaf now)"
    by (auto simp: x509_Verify_def eku_ok_def split: if_splits)
  moreover have "PrincipalFromCert leaf = Inr p \<Longrightarrow> pr_MeshID p \<noteq> []" using PrincipalFromCert_Inr by blast
  ultimately show ?thesis
    by (auto simp: VerifyAgainst_def Let_def go_result split: list.splits if_splits)
qed

section \<open>The interfaces of the PKI\<close>

text \<open>
  What the callers of \<^verbatim>\<open>VerifyAgainst\<close> rely on (the TLS callbacks of
  \<^verbatim>\<open>internal/transport\<close>, the bundle check of the pairing client), and what the callers of
  \<^verbatim>\<open>Sign\<close> rely on (pairing and \<^verbatim>\<open>meshctl init\<close>).
\<close>

locale chain_verifier =
  fixes verify :: "certificate \<Rightarrow> certificate \<Rightarrow> time \<Rightarrow> err + principal"
  assumes verify_dates: "verify root leaf t = Inr p \<Longrightarrow> time_valid t leaf"
    and verify_principal: "verify root leaf t = Inr p \<Longrightarrow> PrincipalFromCert leaf = Inr p"
    and verify_mesh: "verify root leaf t = Inr p \<Longrightarrow>
      Subject_Organization root \<noteq> [] \<and> pr_MeshID p = hd (Subject_Organization root)"
begin

lemma verify_window: "verify root leaf t = Inr p \<Longrightarrow> NotBefore leaf \<le> t \<and> t \<le> NotAfter leaf"
  using verify_dates[of root leaf t p] by (auto simp: time_valid_def time_ops)

lemma verify_expired: "NotAfter leaf < t \<Longrightarrow> \<exists>e. verify root leaf t = Inl e"
  using verify_window[of root leaf t] by (cases "verify root leaf t") auto

lemma verify_role: "verify root leaf t = Inr p \<Longrightarrow> role_ok (pr_Role p) \<and> pr_Name p \<noteq> []"
  using verify_principal PrincipalFromCert_Inr by blast

lemma verify_same_mesh:
  "verify root a t = Inr p \<Longrightarrow> verify root b u = Inr q \<Longrightarrow> pr_MeshID p = pr_MeshID q"
  using verify_mesh by metis

lemma verify_stable: "verify r1 leaf t = Inr p \<Longrightarrow> verify r2 leaf u = Inr q \<Longrightarrow> p = q"
  using verify_principal by (metis sum.inject(2))

end

locale issuing_ca = chain_verifier verify
  for verify :: "certificate \<Rightarrow> certificate \<Rightarrow> time \<Rightarrow> err + principal" +
  fixes issue :: "CA \<Rightarrow> sign_request \<Rightarrow> nat option \<Rightarrow> time \<Rightarrow> bytes \<Rightarrow> err + certificate"
    and parse :: "bytes \<Rightarrow> err + certificate"
    and invar :: "CA \<Rightarrow> bool"
  assumes issue_refuses: "\<not> sign_allowed ca req \<Longrightarrow> \<exists>e. issue ca req r now ent = Inl e"
    and issue_ok: "invar ca \<Longrightarrow> clock_ok now \<Longrightarrow> sign_allowed ca req \<Longrightarrow> sr_TTL req \<le> 20 * 365 * 24 * Hour \<Longrightarrow>
      \<exists>c. issue ca req (Some s) now ent = Inr c \<and> parse (Raw c) = Inr c \<and>
        PublicKey c = sr_PublicKey req \<and> \<not> IsCA c \<and> SerialNumber c = s + 1 \<and>
        NotBefore c = trunc_sec (now - backdate) \<and> NotAfter c = trunc_sec (now + sr_TTL req) \<and>
        (\<forall>t. time_valid t c \<and> time_valid t (ca_Cert ca) \<longrightarrow> verify (ca_Cert ca) c t = Inr (sr_Principal req))"
begin

lemma issue_iff:
  assumes "invar ca" "clock_ok now" "sr_TTL req \<le> 20 * 365 * 24 * Hour"
  shows "is_ok (issue ca req (Some s) now ent) \<longleftrightarrow> sign_allowed ca req"
proof (cases "sign_allowed ca req")
  case True
  with issue_ok[of ca now req s ent] assms show ?thesis by auto
next
  case False
  then show ?thesis using issue_refuses[of ca req "Some s" now ent] by auto
qed

lemma issue_verifies:
  assumes "invar ca" "clock_ok now" "sr_TTL req \<le> 20 * 365 * 24 * Hour"
    "issue ca req (Some s) now ent = Inr c" "time_valid t c" "time_valid t (ca_Cert ca)"
  shows "verify (ca_Cert ca) c t = Inr (sr_Principal req)"
proof -
  have "sign_allowed ca req" using assms issue_iff[of ca now req s ent] by simp
  with issue_ok[of ca now req s ent] assms show ?thesis by auto
qed

text \<open>A certificate is good at the time it is issued once its lifetime is a second or more.\<close>

lemma issue_verifies_now:
  assumes "invar ca" "clock_ok now" "sr_TTL req \<le> 20 * 365 * 24 * Hour" "Second \<le> sr_TTL req"
    "issue ca req (Some s) now ent = Inr c" "time_valid now (ca_Cert ca)"
  shows "verify (ca_Cert ca) c now = Inr (sr_Principal req)"
proof -
  have "sign_allowed ca req" using assms issue_iff[of ca now req s ent] by simp
  then have "NotBefore c = trunc_sec (now - backdate)" "NotAfter c = trunc_sec (now + sr_TTL req)"
    using issue_ok[of ca now req s ent] assms by auto
  moreover have "trunc_sec (now - backdate) \<le> now" "now \<le> trunc_sec (now + sr_TTL req)"
    using trunc_sec_bounds[of "now - backdate"] trunc_sec_bounds[of "now + sr_TTL req"] assms(4)
    by (auto simp: go_time)
  ultimately have "time_valid now c" by (simp add: time_valid_def time_ops)
  then show ?thesis using assms issue_verifies by blast
qed

end

interpretation pki_verify: chain_verifier "VerifyAgainst C" for C
  by unfold_locales (simp_all add: VerifyAgainst_Inr)

interpretation pki_ca: issuing_ca "VerifyAgainst C" "Sign C" "ParseCertificate C" "\<lambda>ca. crypto_ok C \<and> ca_wf C ca"
  for C
proof
  fix ca req r now ent
  show "\<not> sign_allowed ca req \<Longrightarrow> \<exists>e. Sign C ca req r now ent = Inl e" by (rule Sign_rejects)
next
  fix ca now req s ent
  assume inv: "crypto_ok C \<and> ca_wf C ca" and now: "clock_ok now" and req: "sign_allowed ca req"
    and ttl: "sr_TTL req \<le> 20 * 365 * 24 * Hour"
  then have C: "crypto_ok C" and wf: "ca_wf C ca" by simp_all
  obtain pk where pk: "sr_PublicKey req = Some pk" using req by (auto simp: sign_allowed_def)
  let ?t = "leaf_template req (s + 1) now"
  obtain b sg where sign: "Sign C ca req (Some s) now ent =
      Inr (mk_certificate (issued_tbs ?t (ca_issuer ca) pk) b sg (cert_der C b sg))"
    and sig: "ecdsa_verify C (pub_of C (ca_Key ca)) b sg"
    and parse: "ParseCertificate C (cert_der C b sg) =
      Inr (mk_certificate (issued_tbs ?t (ca_issuer ca) pk) b sg (cert_der C b sg))"
    using Sign_ok[OF C wf now req ttl pk] by blast
  let ?c = "mk_certificate (issued_tbs ?t (ca_issuer ca) pk) b sg (cert_der C b sg)"
  have "VerifyAgainst C (ca_Cert ca) ?c t = Inr (sr_Principal req)"
    if "time_valid t ?c" "time_valid t (ca_Cert ca)" for t
    using that leaf_principal[OF req wf] leaf_chains[OF wf sig that(2)] req wf
    by (simp add: VerifyAgainst_Inr ca_wf_def sign_allowed_def)
  then show "\<exists>c. Sign C ca req (Some s) now ent = Inr c \<and> ParseCertificate C (Raw c) = Inr c \<and>
      PublicKey c = sr_PublicKey req \<and> \<not> IsCA c \<and> SerialNumber c = s + 1 \<and>
      NotBefore c = trunc_sec (now - backdate) \<and> NotAfter c = trunc_sec (now + sr_TTL req) \<and>
      (\<forall>t. time_valid t c \<and> time_valid t (ca_Cert ca) \<longrightarrow>
        VerifyAgainst C (ca_Cert ca) c t = Inr (sr_Principal req))"
    by (intro exI[of _ ?c]) (simp add: sign parse pk leaf_template_def time_Add_def)
qed

text \<open>
  C8. Issuing a certificate. A well-formed CA signs exactly the requests for its own mesh with a valid
  name, one of the two roles, a public key and a positive lifetime; the certificate binds that key,
  is not a CA, runs from five minutes before \<open>now\<close> to the end of the lifetime, and verifies to the
  requested principal whenever both it and the CA certificate are in date.
\<close>

theorem Sign_spec:
  assumes "crypto_ok C" "ca_wf C ca" "clock_ok now" "sr_TTL req \<le> 20 * 365 * 24 * Hour"
  shows "if sign_allowed ca req
    then \<exists>c. Sign C ca req (Some s) now ent = Inr c \<and> PublicKey c = sr_PublicKey req \<and> \<not> IsCA c \<and>
      NotBefore c = trunc_sec (now - backdate) \<and> NotAfter c = trunc_sec (now + sr_TTL req) \<and>
      (\<forall>t. time_valid t c \<and> time_valid t (ca_Cert ca) \<longrightarrow>
        VerifyAgainst C (ca_Cert ca) c t = Inr (sr_Principal req))
    else \<exists>e. Sign C ca req (Some s) now ent = Inl e"
  using assms pki_ca.issue_ok[of C ca now req s ent] pki_ca.issue_refuses[of ca req C "Some s" now ent] by auto

text \<open>The principals that can be certified are printed unescaped, and different ones differently.\<close>

lemma url_escape_plain: "list_all (\<lambda>c. label_char c \<or> c \<in> set allowed) s \<Longrightarrow> CHR ''-'' \<in> set allowed \<Longrightarrow> url_escape allowed s = s"
  by (induction s) (auto simp: url_escape_def label_char_def)

lemma principal_String_plain:
  assumes "list_all label_char (pr_MeshID p)" "role_ok (pr_Role p)" "list_all label_char (pr_Name p)"
  shows "principal_String p = ''lcm://'' @ pr_MeshID p @ ''/'' @ pr_Role p @ ''/'' @ pr_Name p"
proof -
  have "list_all label_char (pr_Role p)" using assms(2) by (auto simp: role_ok_def RoleNode_def RoleAdmin_def label_char_ord)
  then have "url_escape path_chars (''/'' @ pr_Role p @ ''/'' @ pr_Name p) = ''/'' @ pr_Role p @ ''/'' @ pr_Name p"
    using assms(3) by (intro url_escape_plain) (auto simp: path_chars_def list_all_iff)
  moreover have "url_escape host_chars (pr_MeshID p) = pr_MeshID p"
    using assms(1) by (intro url_escape_plain) (auto simp: host_chars_def list_all_iff)
  ultimately show ?thesis by (simp add: principal_String_def principal_URI_def URIScheme_def)
qed

lemma before_slash: "xs @ CHR ''/'' # ys = xs' @ CHR ''/'' # ys' \<Longrightarrow> list_all label_char xs \<Longrightarrow> list_all label_char xs' \<Longrightarrow> xs = xs' \<and> ys = ys'"
proof (induction xs arbitrary: xs')
  case Nil
  then show ?case by (cases xs') (auto simp: label_char_ord)
next
  case (Cons x xs)
  then show ?case by (cases xs') (auto simp: label_char_ord)
qed

lemma principal_String_inj:
  assumes "list_all label_char (pr_MeshID p)" "role_ok (pr_Role p)" "list_all label_char (pr_Name p)"
    and "list_all label_char (pr_MeshID q)" "role_ok (pr_Role q)" "list_all label_char (pr_Name q)"
    and "principal_String p = principal_String q"
  shows "p = q"
proof -
  have role: "list_all label_char r" if "role_ok r" for r
    using that by (auto simp: role_ok_def RoleNode_def RoleAdmin_def label_char_ord)
  have "pr_MeshID p @ CHR ''/'' # pr_Role p @ CHR ''/'' # pr_Name p = pr_MeshID q @ CHR ''/'' # pr_Role q @ CHR ''/'' # pr_Name q"
    using assms(7) principal_String_plain[OF assms(1-3)] principal_String_plain[OF assms(4-6)] by simp
  from before_slash[OF this assms(1,4)] have m: "pr_MeshID p = pr_MeshID q"
    and rest: "pr_Role p @ CHR ''/'' # pr_Name p = pr_Role q @ CHR ''/'' # pr_Name q" by simp_all
  show ?thesis using m before_slash[OF rest role[OF assms(2)] role[OF assms(5)]] by simp
qed

text \<open>A CA and a request for the concrete instances.\<close>

definition demo_now :: time where "demo_now = 1700000000 * Second"

definition demo_ca :: CA where
  "demo_ca =
     \<lparr>ca_Cert = mk_certificate (issued_tbs (ca_template ''home'' 42 demo_now)
        (''Local Compute Mesh CA'', [''home'']) (EcdsaPub P256 7 0)) [] [] [], ca_Key = PrivKey P256 7\<rparr>"

definition demo_req :: sign_request where
  "demo_req = \<lparr>sr_Principal = \<lparr>pr_MeshID = ''home'', pr_Role = RoleNode, pr_Name = ''laptop-1''\<rparr>,
     sr_PublicKey = Some (EcdsaPub P256 9 0), sr_TTL = DefaultNodeCertTTL\<rparr>"

lemma demo_clock: "clock_ok demo_now"
  by (simp add: demo_now_def clock_ok_def max_cert_time_def go_time)

lemma demo_mesh [simp]: "MeshID demo_ca = ''home''"
  by (simp add: demo_ca_def MeshID_def ca_template_def)

lemma demo_ca_wf: "ca_wf demo_crypto demo_ca"
  using may_sign_ca_usage
  by (simp add: ca_wf_def may_sign_def)
    (simp add: demo_ca_def ca_template_def ascii_text_def validateLabel_iff label_char_ord)

lemma demo_sign_allowed: "sign_allowed demo_ca demo_req"
  by (simp add: sign_allowed_def demo_req_def role_ok_def validateLabel_iff label_char_ord go_time)

lemma demo_ttl: "sr_TTL demo_req \<le> 20 * 365 * 24 * Hour"
  by (simp add: demo_req_def go_time)

theorem Sign_spec_witness:
  "\<exists>c. Sign demo_crypto demo_ca demo_req (Some 3) demo_now [] = Inr c \<and> \<not> IsCA c"
  using Sign_spec[OF demo_crypto_ok demo_ca_wf demo_clock demo_ttl, of 3 "[]"] demo_sign_allowed by auto


text \<open>
  C31. Principals and URIs. Parsing the URI of a principal gives the principal back exactly when its
  mesh and name are not empty, its role is one of the two roles and its name has no slash.
\<close>

theorem ParsePrincipal_roundtrip:
  "ParsePrincipal (Some (principal_URI p)) = Inr p \<longleftrightarrow>
     pr_MeshID p \<noteq> [] \<and> role_ok (pr_Role p) \<and> pr_Name p \<noteq> [] \<and> CHR ''/'' \<notin> set (pr_Name p)"
    (is "?l \<longleftrightarrow> ?r")
proof
  assume l: ?l
  have ok: "pr_MeshID p \<noteq> []" "role_ok (pr_Role p)" "pr_Name p \<noteq> []" using ParsePrincipal_Inr[OF l] by simp_all
  have "Split CHR ''/'' (pr_Role p @ CHR ''/'' # pr_Name p) = pr_Role p # Split CHR ''/'' (pr_Name p)"
    using ok role_no_slash by (intro Split_append) blast
  then have "length (Split CHR ''/'' (pr_Name p)) = 1"
    using l by (auto simp: ParsePrincipal_def principal_URI_def TrimPrefix_def split: if_splits list.splits)
  then have "\<exists>t. Split CHR ''/'' (pr_Name p) = [t]" by (simp add: length_Suc_conv)
  then show ?r using ok by (auto simp: Split_single_iff)
qed (auto intro: ParsePrincipal_URI)

section \<open>Certificate requests\<close>

definition p256_request :: "crypto \<Rightarrow> bytes \<Rightarrow> pubkey \<Rightarrow> bool" where
  "p256_request C csrDER pk \<longleftrightarrow>
     (\<exists>csr x y. ParseCertificateRequest C csrDER = Inr csr \<and> csr_CheckSignature C csr \<and>
        csr_PublicKey csr = Some pk \<and> pk = EcdsaPub P256 x y)"

lemma SignCSR_Inr:
  "SignCSR C ca csrDER p ttl r now ent = Inr c \<longleftrightarrow>
     (\<exists>pk. p256_request C csrDER pk \<and>
        Sign C ca \<lparr>sr_Principal = p, sr_PublicKey = Some pk, sr_TTL = ttl\<rparr> r now ent = Inr c)"
    (is "?l \<longleftrightarrow> ?r")
proof
  assume ?l
  then obtain csr where "ParseCertificateRequest C csrDER = Inr csr"
    by (cases "ParseCertificateRequest C csrDER") (auto simp: SignCSR_def)
  with \<open>?l\<close> show ?r
    by (cases "csr_PublicKey csr" rule: option.exhaust; cases "the (csr_PublicKey csr)")
      (auto simp: SignCSR_def p256_request_def split: if_splits)
qed (auto simp: SignCSR_def p256_request_def)

lemma NewCSR_ok:
  assumes "crypto_ok C" "is_ok (validateLabel n)"
  obtains d csr where "NewCSR C n key ent = Inr d" "ParseCertificateRequest C d = Inr csr"
    "csr_CommonName csr = n" "csr_PublicKey csr = Some (pub_of C key)" "csr_CheckSignature C csr"
proof -
  obtain u where "validateLabel n = Inr u" using assms(2) by (auto simp: is_ok_iff)
  then show thesis
    using CreateCertificateRequest_parse[OF assms(1) pki_label.valid_ascii[OF assms(2)], of ent key] that
    by (auto simp: NewCSR_def)
qed

lemma SignCSR_fields:
  assumes "crypto_ok C" "ca_wf C ca" "clock_ok now" "ttl \<le> 20 * 365 * 24 * Hour"
    and sign: "SignCSR C ca csrDER p ttl (Some s) now ent = Inr c"
  shows "\<exists>pk. p256_request C csrDER pk \<and> PublicKey c = Some pk \<and> PrincipalFromCert c = Inr p"
proof -
  let ?req = "\<lambda>pk. \<lparr>sr_Principal = p, sr_PublicKey = Some pk, sr_TTL = ttl\<rparr>"
  obtain pk where pk: "p256_request C csrDER pk" and s: "Sign C ca (?req pk) (Some s) now ent = Inr c"
    using sign unfolding SignCSR_Inr by blast
  have a: "sign_allowed ca (?req pk)" using s Sign_rejects[of ca "?req pk" C "Some s" now ent] by auto
  have "PublicKey c = Some pk \<and> PrincipalFromCert c = Inr p"
    by (rule Sign_ok[OF assms(1-3) a, of pk s ent]) (use assms(4) s leaf_principal[OF a assms(2)] in auto)
  with pk show ?thesis by blast
qed

text \<open>
  C22. Signing a request. \<^verbatim>\<open>SignCSR\<close> succeeds exactly on a request that parses, carries a P-256 key
  and a signature made with it, for a principal the CA may sign; whatever subject the request names,
  the certificate binds that key to the principal given by the caller.
\<close>

theorem SignCSR_spec:
  assumes "crypto_ok C" "ca_wf C ca" "clock_ok now" "ttl \<le> 20 * 365 * 24 * Hour"
  shows "if (\<exists>pk. p256_request C csrDER pk) \<and> pr_MeshID p = MeshID ca \<and> is_ok (validateLabel (pr_Name p)) \<and>
      role_ok (pr_Role p) \<and> 0 < ttl
    then \<exists>c pk. SignCSR C ca csrDER p ttl (Some s) now ent = Inr c \<and> p256_request C csrDER pk \<and>
      PublicKey c = Some pk \<and> PrincipalFromCert c = Inr p
    else \<exists>e. SignCSR C ca csrDER p ttl (Some s) now ent = Inl e"
proof -
  let ?req = "\<lambda>pk. \<lparr>sr_Principal = p, sr_PublicKey = Some pk, sr_TTL = ttl\<rparr>"
  have allowed: "sign_allowed ca (?req pk) \<longleftrightarrow> pr_MeshID p = MeshID ca \<and> is_ok (validateLabel (pr_Name p)) \<and>
      role_ok (pr_Role p) \<and> 0 < ttl" for pk
    by (auto simp: sign_allowed_def)
  have sign: "\<exists>c. Sign C ca (?req pk) (Some s) now ent = Inr c \<and> PublicKey c = Some pk \<and> PrincipalFromCert c = Inr p"
    if a: "sign_allowed ca (?req pk)" for pk
    by (rule Sign_ok[OF assms(1-3) a, of pk s ent]) (use assms(4) leaf_principal[OF a assms(2)] in auto)
  let ?ok = "(\<exists>pk. p256_request C csrDER pk) \<and> pr_MeshID p = MeshID ca \<and> is_ok (validateLabel (pr_Name p)) \<and>
      role_ok (pr_Role p) \<and> 0 < ttl"
  show ?thesis
  proof (cases ?ok)
    case True
    then obtain pk where pk: "p256_request C csrDER pk" by blast
    with True sign[of pk] allowed[of pk] have "\<exists>c pk. SignCSR C ca csrDER p ttl (Some s) now ent = Inr c \<and>
        p256_request C csrDER pk \<and> PublicKey c = Some pk \<and> PrincipalFromCert c = Inr p"
      unfolding SignCSR_Inr by blast
    then show ?thesis unfolding if_P[OF True] .
  next
    case False
    have "\<exists>e. SignCSR C ca csrDER p ttl (Some s) now ent = Inl e"
    proof (cases "SignCSR C ca csrDER p ttl (Some s) now ent")
      case (Inr c)
      then obtain pk where pk: "p256_request C csrDER pk" and "Sign C ca (?req pk) (Some s) now ent = Inr c"
        unfolding SignCSR_Inr by blast
      then have "sign_allowed ca (?req pk)" using Sign_rejects[of ca "?req pk" C "Some s" now ent] by auto
      with pk allowed False show ?thesis by blast
    qed simp
    then show ?thesis unfolding if_not_P[OF False] .
  qed
qed

lemma demo_label [simp]: "is_ok (validateLabel ''laptop-1'')"
  by (simp add: validateLabel_iff label_char_ord)

theorem SignCSR_spec_witness:
  "\<exists>d c pk. NewCSR demo_crypto ''laptop-1'' (PrivKey P256 9) [] = Inr d \<and>
     SignCSR demo_crypto demo_ca d (sr_Principal demo_req) DefaultNodeCertTTL (Some 3) demo_now [] = Inr c \<and>
     PublicKey c = Some pk"
proof -
  obtain d csr where d: "NewCSR demo_crypto ''laptop-1'' (PrivKey P256 9) [] = Inr d"
    and "ParseCertificateRequest demo_crypto d = Inr csr" "csr_CommonName csr = ''laptop-1''"
      "csr_PublicKey csr = Some (pub_of demo_crypto (PrivKey P256 9))" "csr_CheckSignature demo_crypto csr"
    using NewCSR_ok[OF demo_crypto_ok demo_label] by blast
  then have "p256_request demo_crypto d (EcdsaPub P256 9 0)" by (auto simp: p256_request_def)
  moreover have "DefaultNodeCertTTL \<le> 20 * 365 * 24 * Hour" "0 < DefaultNodeCertTTL" by (simp_all add: go_time)
  ultimately show ?thesis
    using SignCSR_spec[OF demo_crypto_ok demo_ca_wf demo_clock,
        of DefaultNodeCertTTL d "sr_Principal demo_req" 3 "[]"] d
      demo_sign_allowed by (auto simp: sign_allowed_def split: if_splits)
qed

end
