(* ===== verification/FileSystem.thy ===== *)
theory FileSystem
  imports Errors
begin

text \<open>
  The part of package \<^verbatim>\<open>os\<close> the program uses, as state passing over \<open>fs\<close>: directories and
  regular files with their permission bits, keyed by (directory, base name). \<open>fs_fault\<close> is the
  environment: whether a given call on a given path fails for a reason of the system's own (a full
  disk, a read-only volume), and \<open>fs_partial\<close> how many bytes a failing write leaves behind, so every
  error branch of the callers can be taken. Such a failure is a plain \<open>Msg\<close>: the two sentinels
  \<^verbatim>\<open>os.ErrExist\<close> and \<^verbatim>\<open>os.ErrNotExist\<close> come from the state of the file system only.
\<close>

unbundle bit_operations_syntax

type_synonym perm = "12 word"
type_synonym path = "string \<times> string"

datatype os_call = OpMkdir | OpOpen | OpRead | OpStat | OpWrite | OpChmod | OpClose

record fs =
  fs_dirs :: "string \<rightharpoonup> perm"
  fs_files :: "path \<rightharpoonup> bytes \<times> perm"
  fs_umask :: perm
  fs_fault :: "os_call \<Rightarrow> path \<Rightarrow> string option"
  fs_partial :: "path \<Rightarrow> nat"

type_synonym ('s, 'a) io = "'s \<Rightarrow> (err + 'a) \<times> 's"

section \<open>Sequencing\<close>

definition io_ret :: "'a \<Rightarrow> ('s, 'a) io" where
  "io_ret x s = (Inr x, s)"

definition io_of :: "err + 'a \<Rightarrow> ('s, 'a) io" where
  "io_of r s = (r, s)"

definition io_then :: "('s, 'a) io \<Rightarrow> ('a \<Rightarrow> ('s, 'b) io) \<Rightarrow> ('s, 'b) io" where
  "io_then m f s = (case m s of (Inl e, t) \<Rightarrow> (Inl e, t) | (Inr x, t) \<Rightarrow> f x t)"

definition io_err :: "(err \<Rightarrow> err) \<Rightarrow> ('s, 'a) io \<Rightarrow> ('s, 'a) io" where
  "io_err w m s = (case m s of (r, t) \<Rightarrow> (map_err w r, t))"

named_theorems go_io

lemma io_simps [simp]:
  "io_ret x s = (Inr x, s)" "io_of r s = (r, s)"
  by (simp_all add: io_ret_def io_of_def)

lemma io_then_Inr [go_io]: "m s = (Inr x, t) \<Longrightarrow> io_then m f s = f x t"
  by (simp add: io_then_def)

lemma io_then_Inl [go_io]: "m s = (Inl e, t) \<Longrightarrow> io_then m f s = (Inl e, t)"
  by (simp add: io_then_def)

lemma io_then_ok: "io_then m f s = (Inr y, u) \<longleftrightarrow> (\<exists>x t. m s = (Inr x, t) \<and> f x t = (Inr y, u))"
  by (auto simp: io_then_def split: prod.splits sum.splits)

lemma io_err_ok: "io_err w m s = (Inr y, u) \<longleftrightarrow> m s = (Inr y, u)"
  by (auto simp: io_err_def go_result split: prod.splits)

section \<open>Calls\<close>

definition os_fault :: "fs \<Rightarrow> os_call \<Rightarrow> path \<Rightarrow> err option" where
  "os_fault s c p = map_option Msg (fs_fault s c p)"

definition os_MkdirAll :: "string \<Rightarrow> perm \<Rightarrow> (fs, unit) io" where
  "os_MkdirAll dir m s =
     (case os_fault s OpMkdir (dir, []) of Some e \<Rightarrow> (Inl e, s)
      | None \<Rightarrow> (Inr (), case fs_dirs s dir of Some _ \<Rightarrow> s
                 | None \<Rightarrow> s\<lparr>fs_dirs := (fs_dirs s)(dir \<mapsto> m AND NOT (fs_umask s))\<rparr>))"

definition os_ReadFile :: "path \<Rightarrow> (fs, bytes) io" where
  "os_ReadFile p s =
     (case fs_files s p of None \<Rightarrow> (Inl OsErrNotExist, s)
      | Some (b, _) \<Rightarrow> (case os_fault s OpRead p of Some e \<Rightarrow> (Inl e, s) | None \<Rightarrow> (Inr b, s)))"

definition os_Stat :: "path \<Rightarrow> (fs, unit) io" where
  "os_Stat p s =
     (case os_fault s OpStat p of Some e \<Rightarrow> (Inl e, s)
      | None \<Rightarrow> (if fs_files s p = None then Inl OsErrNotExist else Inr (), s))"

text \<open>\<^verbatim>\<open>os.OpenFile\<close> with \<^verbatim>\<open>O_WRONLY|O_CREATE|O_TRUNC\<close>, and \<^verbatim>\<open>O_EXCL\<close> when \<open>excl\<close>.\<close>

definition os_OpenFile :: "path \<Rightarrow> bool \<Rightarrow> perm \<Rightarrow> (fs, unit) io" where
  "os_OpenFile p excl m s =
     (if fs_dirs s (fst p) = None then (Inl OsErrNotExist, s)
      else case fs_files s p of
        Some (_, m0) \<Rightarrow>
          if excl then (Inl OsErrExist, s)
          else (case os_fault s OpOpen p of Some e \<Rightarrow> (Inl e, s)
                | None \<Rightarrow> (Inr (), s\<lparr>fs_files := (fs_files s)(p \<mapsto> ([], m0))\<rparr>))
      | None \<Rightarrow>
          (case os_fault s OpOpen p of Some e \<Rightarrow> (Inl e, s)
           | None \<Rightarrow> (Inr (), s\<lparr>fs_files := (fs_files s)(p \<mapsto> ([], m AND NOT (fs_umask s)))\<rparr>)))"

definition file_Write :: "path \<Rightarrow> bytes \<Rightarrow> (fs, unit) io" where
  "file_Write p d s =
     (let put = (\<lambda>b. s\<lparr>fs_files := (fs_files s)(p := map_option (\<lambda>(old, m). (b, m)) (fs_files s p))\<rparr>)
      in case os_fault s OpWrite p of Some e \<Rightarrow> (Inl e, put (take (fs_partial s p) d)) | None \<Rightarrow> (Inr (), put d))"

definition file_Chmod :: "path \<Rightarrow> perm \<Rightarrow> (fs, unit) io" where
  "file_Chmod p m s =
     (case os_fault s OpChmod p of Some e \<Rightarrow> (Inl e, s)
      | None \<Rightarrow> (Inr (), s\<lparr>fs_files := (fs_files s)(p := map_option (\<lambda>(b, _). (b, m)) (fs_files s p))\<rparr>))"

definition file_Close :: "path \<Rightarrow> (fs, unit) io" where
  "file_Close p s = (case os_fault s OpClose p of Some e \<Rightarrow> (Inl e, s) | None \<Rightarrow> (Inr (), s))"

text \<open>\<^verbatim>\<open>os.WriteFile\<close>: open, write, close.\<close>

definition os_WriteFile :: "path \<Rightarrow> bytes \<Rightarrow> perm \<Rightarrow> (fs, unit) io" where
  "os_WriteFile p d m =
     io_then (os_OpenFile p False m) (\<lambda>_. io_then (file_Write p d) (\<lambda>_. file_Close p))"

lemmas os_defs = os_MkdirAll_def os_ReadFile_def os_Stat_def os_OpenFile_def file_Write_def file_Chmod_def
  file_Close_def os_fault_def

definition fs_quiet :: "fs \<Rightarrow> bool" where
  "fs_quiet s \<longleftrightarrow> (\<forall>c p. fs_fault s c p = None)"

lemma fs_quietD [simp]: "fs_quiet s \<Longrightarrow> fs_fault s c p = None"
  unfolding fs_quiet_def by blast

section \<open>What a call leaves alone\<close>

text \<open>
  \<open>keeps ps s t\<close>: from \<open>s\<close> to \<open>t\<close> only files at the paths \<open>ps\<close> may have changed, no directory went
  away or changed its mode, and the environment is the same.
\<close>

definition keeps :: "path set \<Rightarrow> fs \<Rightarrow> fs \<Rightarrow> bool" where
  "keeps ps s t \<longleftrightarrow> (\<forall>q. q \<notin> ps \<longrightarrow> fs_files t q = fs_files s q) \<and> fs_dirs s \<subseteq>\<^sub>m fs_dirs t \<and>
     fs_umask t = fs_umask s \<and> fs_fault t = fs_fault s \<and> fs_partial t = fs_partial s"

lemma keeps_refl [intro, simp]: "keeps ps s s"
  by (simp add: keeps_def)

lemma keeps_trans [trans]: "keeps ps s t \<Longrightarrow> keeps qs t u \<Longrightarrow> keeps (ps \<union> qs) s u"
  by (auto simp: keeps_def intro: map_le_trans)

lemma keeps_same: "keeps ps s t \<Longrightarrow> keeps ps t u \<Longrightarrow> keeps ps s u"
  using keeps_trans[of ps s t ps u] by simp

lemma keeps_mono: "keeps ps s t \<Longrightarrow> ps \<subseteq> qs \<Longrightarrow> keeps qs s t"
  by (auto simp: keeps_def)

lemma keeps_file: "keeps ps s t \<Longrightarrow> q \<notin> ps \<Longrightarrow> fs_files t q = fs_files s q"
  unfolding keeps_def by blast

lemma keeps_fault: "keeps ps s t \<Longrightarrow> fs_fault t = fs_fault s"
  by (simp add: keeps_def)

lemma keeps_dir: "keeps ps s t \<Longrightarrow> fs_dirs s d = Some m \<Longrightarrow> fs_dirs t d = Some m"
  unfolding keeps_def map_le_def by (metis domI)

lemma keeps_quiet: "keeps ps s t \<Longrightarrow> fs_quiet s \<Longrightarrow> fs_quiet t"
  unfolding keeps_def fs_quiet_def by metis

lemma keeps_calls [intro]:
  "keeps {} s (snd (os_MkdirAll d m s))"
  "snd (os_ReadFile p s) = s"
  "snd (os_Stat p s) = s"
  "keeps {p} s (snd (os_OpenFile p x m s))"
  "keeps {p} s (snd (file_Write p b s))"
  "keeps {p} s (snd (file_Chmod p m s))"
  "snd (file_Close p s) = s"
  by (auto simp: os_defs keeps_def map_le_def Let_def split: option.splits)

lemma keeps_then:
  assumes "keeps ps s (snd (m s))" "\<And>x. keeps ps (snd (m s)) (snd (f x (snd (m s))))"
  shows "keeps ps s (snd (io_then m f s))"
  using assms keeps_same by (fastforce simp: io_then_def split: prod.splits sum.splits)

lemma keeps_err: "keeps ps s (snd (m s)) \<Longrightarrow> keeps ps s (snd (io_err w m s))"
  by (cases "m s") (simp add: io_err_def)

lemma keeps_WriteFile: "keeps {p} s (snd (os_WriteFile p d m s))"
  unfolding os_WriteFile_def by (intro keeps_then) (auto simp: keeps_calls(7))

section \<open>The interface of a file writer\<close>

text \<open>
  Two parts of the program store small files: \<^verbatim>\<open>pki.writeFile\<close> and the node id writer of
  \<^verbatim>\<open>internal/identity\<close>. Their clients rely on this: a successful store holds exactly the bytes
  given, and no store, successful or not, touches any other file.
\<close>

locale file_writer =
  fixes put :: "string \<Rightarrow> string \<Rightarrow> bytes \<Rightarrow> (fs, unit) io"
  assumes put_content: "put d n b s = (Inr u, t) \<Longrightarrow> \<exists>m. fs_files t (d, n) = Some (b, m)"
    and put_keeps: "keeps {(d, n)} s (snd (put d n b s))"
begin

lemma put_read:
  assumes "put d n b s = (Inr u, t)" "fs_fault s OpRead (d, n) = None"
  shows "os_ReadFile (d, n) t = (Inr b, t)"
proof -
  have "fs_fault t = fs_fault s" using put_keeps[of d n s b] assms(1) keeps_fault by fastforce
  with put_content[OF assms(1)] assms(2) show ?thesis by (auto simp: os_defs)
qed

lemma put_other: "put d n b s = (r, t) \<Longrightarrow> q \<noteq> (d, n) \<Longrightarrow> fs_files t q = fs_files s q"
  using put_keeps[of d n s b] keeps_file[of "{(d, n)}" s t q] by simp

lemma put_put_content:
  assumes "put d n b s = (Inr u, t)" "put d n' b' t = (Inr u', t')" "n \<noteq> n'"
  shows "(\<exists>m. fs_files t' (d, n) = Some (b, m)) \<and> (\<exists>m. fs_files t' (d, n') = Some (b', m))"
  using put_content[OF assms(1)] put_content[OF assms(2)] put_other[OF assms(2)] assms(3) by simp

end

end
