(* ===== verification/Pem.thy ===== *)
theory Pem
  imports CA FileSystem
begin

text \<open>
  \<^verbatim>\<open>internal/pki/pem.go\<close>: PEM encoding of certificates and keys, and the files that hold them
  under the data directory.
\<close>

unbundle bit_operations_syntax

section \<open>File names and modes\<close>

definition CACertFile :: string where "CACertFile = ''ca.crt''"
definition CAKeyFile :: string where "CAKeyFile = ''ca.key''"
definition NodeCertFile :: string where "NodeCertFile = ''node.crt''"
definition NodeKeyFile :: string where "NodeKeyFile = ''node.key''"
definition AdminCertFile :: string where "AdminCertFile = ''admin.crt''"
definition AdminKeyFile :: string where "AdminKeyFile = ''admin.key''"

lemmas pki_files = CACertFile_def CAKeyFile_def NodeCertFile_def NodeKeyFile_def AdminCertFile_def AdminKeyFile_def

abbreviation perm_0700 :: perm where "perm_0700 \<equiv> 448"
abbreviation perm_0644 :: perm where "perm_0644 \<equiv> 420"
abbreviation perm_0600 :: perm where "perm_0600 \<equiv> 384"

section \<open>Encoding\<close>

definition EncodeCertPEM :: "crypto \<Rightarrow> certificate \<Rightarrow> bytes" where
  "EncodeCertPEM C cert = pem_EncodeToMemory C ''CERTIFICATE'' (Raw cert)"

definition EncodeKeyPEM :: "crypto \<Rightarrow> privkey \<Rightarrow> err + bytes" where
  "EncodeKeyPEM C key =
     (case pkcs8_der C key of
        None \<Rightarrow> Inl (Wrap ''pki: marshal key'' (Msg ''x509: unknown key type''))
      | Some der \<Rightarrow> Inr (pem_EncodeToMemory C ''PRIVATE KEY'' der))"

definition ParseCertPEM :: "crypto \<Rightarrow> bytes \<Rightarrow> err + certificate" where
  "ParseCertPEM C b =
     (case pem_Decode C b of
        None \<Rightarrow> Inl (Msg ''pki: no CERTIFICATE block'')
      | Some (typ, body) \<Rightarrow>
          if typ \<noteq> ''CERTIFICATE'' then Inl (Msg ''pki: no CERTIFICATE block'') else ParseCertificate C body)"

definition ParseKeyPEM :: "crypto \<Rightarrow> bytes \<Rightarrow> err + privkey" where
  "ParseKeyPEM C b =
     (case pem_Decode C b of
        None \<Rightarrow> Inl (Msg ''pki: no PEM block'')
      | Some (typ, body) \<Rightarrow>
          if typ = ''PRIVATE KEY'' then
            (case pkcs8_parse C body of
               None \<Rightarrow> Inl (Msg ''x509: failed to parse PKCS#8'')
             | Some (EcKey k) \<Rightarrow> Inr k
             | Some NonEcKey \<Rightarrow> Inl (Msg ''pki: key is not ECDSA''))
          else if typ = ''EC PRIVATE KEY'' then
            of_option (Msg ''x509: failed to parse EC private key'') (sec1_parse C body)
          else Inl (Msg ''pki: unexpected PEM type''))"

section \<open>Files\<close>

definition writeFile :: "string \<Rightarrow> string \<Rightarrow> bytes \<Rightarrow> perm \<Rightarrow> bool \<Rightarrow> (fs, unit) io" where
  "writeFile dir name data m overwrite =
     io_then (io_err (Wrap ''pki: create'') (os_MkdirAll dir perm_0700)) (\<lambda>_.
     io_then (io_err (\<lambda>e. if errors_Is e OsErrExist then Wrap ''path'' ErrExists else Wrap ''pki: open'' e)
               (os_OpenFile (dir, name) (\<not> overwrite) m)) (\<lambda>_.
     io_then (io_err (Wrap ''pki: write'') (file_Write (dir, name) data)) (\<lambda>_.
     io_then (file_Chmod (dir, name) m) (\<lambda>_.
     file_Close (dir, name)))))"

definition WriteCert :: "crypto \<Rightarrow> string \<Rightarrow> string \<Rightarrow> certificate \<Rightarrow> bool \<Rightarrow> (fs, unit) io" where
  "WriteCert C dir name cert overwrite = writeFile dir name (EncodeCertPEM C cert) perm_0644 overwrite"

definition WriteKey :: "crypto \<Rightarrow> string \<Rightarrow> string \<Rightarrow> privkey \<Rightarrow> bool \<Rightarrow> (fs, unit) io" where
  "WriteKey C dir name key overwrite =
     io_then (io_of (EncodeKeyPEM C key)) (\<lambda>b. writeFile dir name b perm_0600 overwrite)"

definition ReadCert :: "crypto \<Rightarrow> string \<Rightarrow> string \<Rightarrow> (fs, certificate) io" where
  "ReadCert C dir name = io_then (os_ReadFile (dir, name)) (\<lambda>b. io_of (ParseCertPEM C b))"

definition ReadKey :: "crypto \<Rightarrow> string \<Rightarrow> string \<Rightarrow> (fs, privkey) io" where
  "ReadKey C dir name = io_then (os_ReadFile (dir, name)) (\<lambda>b. io_of (ParseKeyPEM C b))"

definition ReadCA :: "crypto \<Rightarrow> string \<Rightarrow> (fs, CA) io" where
  "ReadCA C dir =
     io_then (ReadCert C dir CACertFile) (\<lambda>cert.
     io_then (ReadKey C dir CAKeyFile) (\<lambda>key. io_of (LoadCA C cert key)))"

section \<open>What \<open>writeFile\<close> does\<close>

lemma errors_Is_Msg [simp]: "errors_Is (Msg x) OsErrExist \<longleftrightarrow> False"
  by simp

lemma writeFile_keeps: "keeps {(dir, name)} s (snd (writeFile dir name data m ow s))"
proof -
  have mkdir: "keeps {(dir, name)} s (snd (os_MkdirAll dir perm_0700 s))" for s
    by (rule keeps_mono[OF keeps_calls(1)]) simp
  show ?thesis unfolding writeFile_def
    by (intro keeps_then keeps_err mkdir) (auto simp: keeps_calls(7))
qed

lemma writeFile_ok:
  "writeFile dir name data m ow s = (Inr u, t) \<Longrightarrow> fs_files t (dir, name) = Some (data, m)"
  by (auto simp: writeFile_def io_then_ok io_err_ok os_defs Let_def split: option.splits if_splits)

lemma writeFile_exists:
  assumes "fs_files s (dir, name) = Some f"
  shows "\<exists>e t. writeFile dir name data m False s = (Inl e, t) \<and> fs_files t (dir, name) = Some f"
  using assms by (auto simp: writeFile_def io_then_def io_err_def os_defs split: option.splits if_splits)

lemma perm_bits: "(p AND NOT u) AND NOT p = (0 :: perm)" "p AND NOT p = (0 :: perm)"
  by (simp_all add: bit_eq_iff bit_simps)

lemma writeFile_new_mode:
  assumes "fs_files s (dir, name) = None" "fs_files (snd (writeFile dir name data m ow s)) (dir, name) = Some (b, m')"
  shows "m' AND NOT m = 0"
  using assms
  by (auto simp: writeFile_def io_then_def io_err_def os_defs Let_def perm_bits split: option.splits if_splits)

lemma writeFile_quiet:
  assumes "fs_quiet s"
  shows "writeFile dir name data m ow s =
    (let d = (case fs_dirs s dir of Some _ \<Rightarrow> s
              | None \<Rightarrow> s\<lparr>fs_dirs := (fs_dirs s)(dir \<mapsto> perm_0700 AND NOT (fs_umask s))\<rparr>)
     in if fs_files s (dir, name) \<noteq> None \<and> \<not> ow then (Inl (Wrap ''path'' ErrExists), d)
        else (Inr (), d\<lparr>fs_files := (fs_files s)((dir, name) \<mapsto> (data, m))\<rparr>))"
proof -
  have quiet: "fs_fault s c p = None" for c p using assms by simp
  show ?thesis
    by (cases "fs_dirs s dir"; cases "fs_files s (dir, name)"; cases ow)
      (auto simp: writeFile_def io_then_def io_err_def os_defs Let_def quiet split: prod.splits)
qed

interpretation pki_file: file_writer "\<lambda>d n b. writeFile d n b m ow" for m ow
  by unfold_locales (auto dest: writeFile_ok intro: writeFile_keeps)

lemma EncodeCertPEM_parse:
  assumes "crypto_ok C" "ParseCertificate C (Raw cert) = Inr cert"
  shows "ParseCertPEM C (EncodeCertPEM C cert) = Inr cert"
  using assms by (simp add: ParseCertPEM_def EncodeCertPEM_def crypto_ok_pem)

lemma EncodeKeyPEM_parse:
  assumes "crypto_ok C"
  obtains b where "EncodeKeyPEM C key = Inr b" "ParseKeyPEM C b = Inr key"
  by (rule crypto_ok_pkcs8[OF assms, of key], rule that)
    (auto simp: EncodeKeyPEM_def ParseKeyPEM_def crypto_ok_pem[OF assms])

lemma WriteCert_read:
  assumes "crypto_ok C" "ParseCertificate C (Raw cert) = Inr cert" "WriteCert C dir name cert ow s = (Inr u, t)"
    "fs_files t' (dir, name) = fs_files t (dir, name)" "fs_fault t' OpRead (dir, name) = None"
  shows "ReadCert C dir name t' = (Inr cert, t')"
  using assms writeFile_ok[of dir name "EncodeCertPEM C cert" perm_0644 ow s u t] EncodeCertPEM_parse[OF assms(1,2)]
  by (auto simp: WriteCert_def ReadCert_def io_then_def os_defs)

lemma WriteKey_ok:
  "WriteKey C dir name key ow s = (Inr u, t) \<Longrightarrow>
     \<exists>b. EncodeKeyPEM C key = Inr b \<and> writeFile dir name b perm_0600 ow s = (Inr u, t)"
  by (auto simp: WriteKey_def io_then_ok)

lemma WriteKey_read:
  assumes "crypto_ok C" "WriteKey C dir name key ow s = (Inr u, t)"
    "fs_files t' (dir, name) = fs_files t (dir, name)" "fs_fault t' OpRead (dir, name) = None"
  shows "ReadKey C dir name t' = (Inr key, t')"
proof -
  obtain b where b: "EncodeKeyPEM C key = Inr b" "ParseKeyPEM C b = Inr key" using EncodeKeyPEM_parse[OF assms(1)] by blast
  then have "fs_files t (dir, name) = Some (b, perm_0600)" using WriteKey_ok[OF assms(2)] writeFile_ok by fastforce
  then show ?thesis using assms(3,4) b by (auto simp: ReadKey_def io_then_def os_defs)
qed

lemma WriteCert_keeps: "keeps {(dir, name)} s (snd (WriteCert C dir name cert ow s))"
  unfolding WriteCert_def by (rule writeFile_keeps)

lemma WriteKey_keeps: "keeps {(dir, name)} s (snd (WriteKey C dir name key ow s))"
  unfolding WriteKey_def by (intro keeps_then) (auto intro: writeFile_keeps)

text \<open>On a file system without faults a store succeeds unless it may not replace an existing file.\<close>

lemma writeFile_succeeds:
  assumes "fs_quiet s" "fs_files s (dir, name) = None \<or> ow"
  obtains t where "writeFile dir name data m ow s = (Inr (), t)" "keeps {(dir, name)} s t" "fs_quiet t"
    "fs_files t (dir, name) = Some (data, m)"
proof -
  obtain t where t: "writeFile dir name data m ow s = (Inr (), t)"
    using assms by (auto simp: writeFile_quiet Let_def)
  moreover have "keeps {(dir, name)} s t" using writeFile_keeps[of dir name s data m ow] t by simp
  ultimately show thesis using that writeFile_ok[OF t] keeps_quiet assms(1) by blast
qed

lemma WriteCert_succeeds:
  assumes "fs_quiet s" "fs_files s (dir, name) = None \<or> ow"
  obtains t where "WriteCert C dir name cert ow s = (Inr (), t)" "keeps {(dir, name)} s t" "fs_quiet t"
    "fs_files t (dir, name) = Some (EncodeCertPEM C cert, perm_0644)"
  using writeFile_succeeds[OF assms] that unfolding WriteCert_def by metis

lemma WriteKey_succeeds:
  assumes "crypto_ok C" "fs_quiet s" "fs_files s (dir, name) = None \<or> ow"
  obtains b t where "WriteKey C dir name key ow s = (Inr (), t)" "keeps {(dir, name)} s t" "fs_quiet t"
    "fs_files t (dir, name) = Some (b, perm_0600)" "ParseKeyPEM C b = Inr key"
proof -
  obtain b where b: "EncodeKeyPEM C key = Inr b" "ParseKeyPEM C b = Inr key" using EncodeKeyPEM_parse[OF assms(1)] by blast
  then have "WriteKey C dir name key ow s = writeFile dir name b perm_0600 ow s"
    by (simp add: WriteKey_def io_then_def)
  then show thesis using writeFile_succeeds[OF assms(2,3), of b perm_0600] b(2) that by metis
qed

section \<open>Properties\<close>

text \<open>
  C33. Storing a PKI file, whatever system calls fail. No other file changes; success means the file
  holds exactly the data with exactly the mode asked for, whatever the umask; without
  \<^verbatim>\<open>overwrite\<close> an existing file makes the call fail and stays as it was; and a file that did
  not exist before never has a permission bit beyond the mode asked for, even when the call fails
  half way.
\<close>

theorem writeFile_safe:
  "case writeFile dir name data m ow s of (r, t) \<Rightarrow>
     (\<forall>q. q \<noteq> (dir, name) \<longrightarrow> fs_files t q = fs_files s q) \<and>
     (is_ok r \<longrightarrow> fs_files t (dir, name) = Some (data, m)) \<and>
     (fs_files s (dir, name) \<noteq> None \<and> \<not> ow \<longrightarrow>
        \<not> is_ok r \<and> fs_files t (dir, name) = fs_files s (dir, name)) \<and>
     (fs_files s (dir, name) = None \<longrightarrow> (\<forall>b m'. fs_files t (dir, name) = Some (b, m') \<longrightarrow> m' AND NOT m = 0))"
proof -
  obtain r t where w: "writeFile dir name data m ow s = (r, t)" by fastforce
  have "\<forall>q. q \<noteq> (dir, name) \<longrightarrow> fs_files t q = fs_files s q"
    using pki_file.put_other[OF w] by blast
  moreover have "is_ok r \<longrightarrow> fs_files t (dir, name) = Some (data, m)"
    using w writeFile_ok by (auto simp: is_ok_iff)
  moreover have "fs_files s (dir, name) \<noteq> None \<and> \<not> ow \<longrightarrow>
      \<not> is_ok r \<and> fs_files t (dir, name) = fs_files s (dir, name)"
    using w writeFile_exists[of s dir name _ data m] by fastforce
  moreover have "fs_files s (dir, name) = None \<longrightarrow>
      (\<forall>b m'. fs_files t (dir, name) = Some (b, m') \<longrightarrow> m' AND NOT m = 0)"
    using w writeFile_new_mode[of s dir name data m ow] by fastforce
  ultimately show ?thesis by (simp add: w)
qed

text \<open>A file system without faults that holds one key file and has the usual umask.\<close>

definition demo_fs :: fs where
  "demo_fs = \<lparr>fs_dirs = [''d'' \<mapsto> perm_0700], fs_files = [(''d'', ''ca.key'') \<mapsto> ([1], perm_0600)], fs_umask = 18,
     fs_fault = (\<lambda>_ _. None), fs_partial = (\<lambda>_. 0)\<rparr>"

lemma demo_fs_quiet [simp]: "fs_quiet demo_fs"
  by (simp add: demo_fs_def fs_quiet_def)

theorem writeFile_safe_witness:
  "fs_files (snd (writeFile ''d'' ''ca.key'' [2] perm_0600 False demo_fs)) (''d'', ''ca.key'') = Some ([1], perm_0600)"
  using writeFile_safe[where dir = "''d''" and name = "''ca.key''" and data = "[2]" and m = perm_0600 and ow = False
      and s = demo_fs]
  by (auto simp: demo_fs_def split: prod.splits)

text \<open>
  C38. Certificates and keys on disk. A CA whose certificate and key were written without error to a
  data directory is what \<^verbatim>\<open>ReadCA\<close> reads back from it, and the key file has mode 0600.
\<close>

theorem ReadCA_roundtrip:
  assumes "crypto_ok C" "ca_wf C ca" "ParseCertificate C (Raw (ca_Cert ca)) = Inr (ca_Cert ca)"
    and c: "WriteCert C dir CACertFile (ca_Cert ca) ow s = (Inr u, t)"
    and k: "WriteKey C dir CAKeyFile (ca_Key ca) ow' t = (Inr u', t')"
    and q: "fs_quiet s"
  shows "ReadCA C dir t' = (Inr ca, t') \<and> (\<exists>b. fs_files t' (dir, CAKeyFile) = Some (b, perm_0600))"
proof -
  have k1: "keeps {(dir, CACertFile)} s t" using WriteCert_keeps[of dir CACertFile s C "ca_Cert ca" ow] c by simp
  have k2: "keeps {(dir, CAKeyFile)} t t'" using WriteKey_keeps[of dir CAKeyFile t C "ca_Key ca" ow'] k by simp
  have quiet: "fs_quiet t'" using q k1 k2 keeps_quiet by blast
  have "fs_files t' (dir, CACertFile) = fs_files t (dir, CACertFile)"
    by (rule keeps_file[OF k2]) (simp add: pki_files)
  then have "ReadCert C dir CACertFile t' = (Inr (ca_Cert ca), t')"
    using WriteCert_read[OF assms(1,3) c] quiet by simp
  moreover have "ReadKey C dir CAKeyFile t' = (Inr (ca_Key ca), t')"
    using WriteKey_read[OF assms(1) k] quiet by simp
  moreover have "LoadCA C (ca_Cert ca) (ca_Key ca) = Inr ca"
    using assms(2) crypto_ok_key[OF assms(1), of "ca_Key ca"] by (auto simp: LoadCA_def ca_wf_def may_sign_def)
  moreover have "\<exists>b. fs_files t' (dir, CAKeyFile) = Some (b, perm_0600)"
    using WriteKey_ok[OF k] writeFile_ok by fastforce
  ultimately show ?thesis by (simp add: ReadCA_def io_then_def)
qed

theorem ReadCA_roundtrip_witness:
  "\<exists>ca t t'. WriteCert demo_crypto ''e'' CACertFile (ca_Cert ca) False demo_fs = (Inr (), t) \<and>
     WriteKey demo_crypto ''e'' CAKeyFile (ca_Key ca) False t = (Inr (), t') \<and>
     ReadCA demo_crypto ''e'' t' = (Inr ca, t')"
proof -
  have "is_ok (validateLabel ''home'')" by (simp add: validateLabel_iff label_char_ord)
  then obtain ca where ca: "ca_wf demo_crypto ca" "ParseCertificate demo_crypto (Raw (ca_Cert ca)) = Inr (ca_Cert ca)"
    using NewCA_ok[OF demo_crypto_ok _ demo_clock] NewCA_parse by metis
  have fresh: "fs_files demo_fs (''e'', n) = None" for n by (simp add: demo_fs_def)
  obtain t where t: "WriteCert demo_crypto ''e'' CACertFile (ca_Cert ca) False demo_fs = (Inr (), t)" "fs_quiet t"
    "keeps {(''e'', CACertFile)} demo_fs t"
    using WriteCert_succeeds[OF demo_fs_quiet] fresh by metis
  have "fs_files t (''e'', CAKeyFile) = None" using keeps_file[OF t(3)] fresh by (simp add: pki_files)
  then obtain t' where t': "WriteKey demo_crypto ''e'' CAKeyFile (ca_Key ca) False t = (Inr (), t')"
    using WriteKey_succeeds[OF demo_crypto_ok t(2)] by metis
  show ?thesis
    using ReadCA_roundtrip[OF demo_crypto_ok ca t(1) t' demo_fs_quiet] t(1) t' by blast
qed

end
