(* ===== verification/Identity.thy ===== *)
theory Identity
  imports Pem
begin

text \<open>
  \<^verbatim>\<open>internal/identity/nodeid.go\<close>: checking, generating, loading and setting the node id. The
  three random bytes (\<open>None\<close> when the random source fails) and the host name are arguments. The
  host name is the list of its runes: an invalid UTF-8 byte is U+FFFD, as \<^verbatim>\<open>range\<close> and
  \<^verbatim>\<open>strings.ToLower\<close> read it.
\<close>

unbundle bit_operations_syntax

section \<open>Operations\<close>

definition nodeIDFile :: string where "nodeIDFile = ''node_id''"

text \<open>The expression \<^verbatim>\<open>^[a-z0-9][a-z0-9-]{0,62}$\<close>.\<close>

definition validNodeID :: "string \<Rightarrow> bool" where
  "validNodeID s =
     (case s of [] \<Rightarrow> False
      | c # cs \<Rightarrow> (is_lower_char c \<or> is_digit_char c) \<and> list_all label_char cs \<and> length cs \<le> 62)"

definition Validate :: "string \<Rightarrow> err + unit" where
  "Validate s = (if \<not> validNodeID s then Inl (Wrap ''id'' IdErrInvalidNodeID) else Inr ())"

text \<open>
  \<^verbatim>\<open>unicode.ToLower\<close>, as far as the host name needs it: two letters outside ASCII have a lower
  case inside it (U+0130 and U+212A); that of every other letter outside ASCII is outside too, and the
  loop of \<open>sanitizeHost\<close> drops it, so here it stays as it is.
\<close>

definition lower_rune :: "nat \<Rightarrow> nat" where
  "lower_rune r = (if 65 \<le> r \<and> r \<le> 90 then r + 32 else if r = 0x130 then 0x69 else if r = 0x212A then 0x6B else r)"

definition kept_rune :: "nat \<Rightarrow> bool" where
  "kept_rune r \<longleftrightarrow> (97 \<le> r \<and> r \<le> 122) \<or> (48 \<le> r \<and> r \<le> 57) \<or> r = 45"

definition maxHost :: nat where "maxHost = 63 - length ''-abcdef''"

definition sanitizeHost :: "nat list \<Rightarrow> string" where
  "sanitizeHost h =
     (let h1 = takeWhile (\<lambda>r. r \<noteq> 46) (map lower_rune h);
          sb = map char_of (filter kept_rune h1);
          out1 = Trim CHR ''-'' sb;
          out2 = (if maxHost < length out1 then TrimRight CHR ''-'' (take maxHost out1) else out1)
      in if out2 = [] then ''node'' else out2)"

definition Generate :: "bytes option \<Rightarrow> nat list \<Rightarrow> err + string" where
  "Generate rnd host =
     (case rnd of None \<Rightarrow> Inl (Wrap ''identity: random'' (Msg ''random''))
      | Some buf \<Rightarrow> Inr (sanitizeHost host @ ''-'' @ hex_EncodeToString buf))"

definition string_of :: "bytes \<Rightarrow> string" where
  "string_of b = map (\<lambda>w. char_of (unat w)) b"

definition write_id :: "string \<Rightarrow> string \<Rightarrow> bytes \<Rightarrow> (fs, unit) io" where
  "write_id dir name data =
     io_then (io_err (Wrap ''identity: create'') (os_MkdirAll dir perm_0700)) (\<lambda>_.
       io_err (Wrap ''identity: write'') (os_WriteFile (dir, name) data perm_0600))"

definition LoadOrCreate :: "string \<Rightarrow> bytes option \<Rightarrow> nat list \<Rightarrow> (fs, string) io" where
  "LoadOrCreate dir rnd host s =
     (case os_ReadFile (dir, nodeIDFile) s of
        (Inr b, t) \<Rightarrow>
          (let ident = TrimSpace (string_of b)
           in (and_then (map_err (Wrap ''path'') (Validate ident)) (\<lambda>_. Inr ident), t))
      | (Inl e, t) \<Rightarrow>
          if \<not> errors_Is e OsErrNotExist then (Inl (Wrap ''identity: read'' e), t)
          else io_then (io_of (Generate rnd host)) (\<lambda>ident.
                 io_then (write_id dir nodeIDFile (bytes_of (ident @ [CHR 0x0A]))) (\<lambda>_. io_ret ident)) t)"

definition identity_Set :: "string \<Rightarrow> string \<Rightarrow> bool \<Rightarrow> bytes option \<Rightarrow> nat list \<Rightarrow> (fs, unit) io" where
  "identity_Set dir ident overwrite rnd host =
     io_then (io_of (Validate ident)) (\<lambda>_ s.
       case os_Stat (dir, nodeIDFile) s of (r, t) \<Rightarrow>
         if is_ok r \<and> \<not> overwrite then
           (case LoadOrCreate dir rnd host t of (ex, u) \<Rightarrow>
              if (case ex of Inr x \<Rightarrow> x | Inl _ \<Rightarrow> []) = ident then (Inr (), u)
              else (Inl (Msg ''identity: already holds node_id; certs are bound to it''), u))
         else write_id dir nodeIDFile (bytes_of (ident @ [CHR 0x0A])) t)"

section \<open>Names\<close>

lemma Validate_ok: "is_ok (Validate s) \<longleftrightarrow> validNodeID s"
  by (simp add: Validate_def)

lemma validNodeID_iff:
  "validNodeID s \<longleftrightarrow> list_all label_char s \<and> s \<noteq> [] \<and> length s \<le> 63 \<and> hd s \<noteq> CHR ''-''"
  by (cases s) (auto simp: validNodeID_def label_char_def char_class_defs)

interpretation id_label: node_name "\<lambda>s. is_ok (Validate s)"
  by unfold_locales (simp_all add: Validate_ok validNodeID_iff)

lemma kept_rune_label: "kept_rune r \<Longrightarrow> label_char (char_of r)"
  by (auto simp: kept_rune_def label_char_ord)

lemma sanitizeHost_valid: "is_ok (Validate (sanitizeHost h)) \<and> length (sanitizeHost h) \<le> maxHost"
proof -
  define sb where "sb = map (char_of :: nat \<Rightarrow> char) (filter kept_rune (takeWhile (\<lambda>r. r \<noteq> 46) (map lower_rune h)))"
  define out1 where "out1 = Trim CHR ''-'' sb"
  define out2 where "out2 = (if maxHost < length out1 then TrimRight CHR ''-'' (take maxHost out1) else out1)"
  have san: "sanitizeHost h = (if out2 = [] then ''node'' else out2)"
    by (simp add: sanitizeHost_def Let_def out2_def out1_def sb_def)
  have sb: "list_all label_char sb" by (auto simp: sb_def list_all_iff kept_rune_label)
  then have l1: "list_all label_char out1" using set_Trim[of "CHR ''-''" sb] by (auto simp: out1_def list_all_iff)
  have h1: "hd out1 \<noteq> CHR ''-''" if "out1 \<noteq> []" using that Trim_hd[of "CHR ''-''" sb] by (cases out1) (auto simp: out1_def)
  have "set out2 \<subseteq> set out1" using set_TrimRight[of "CHR ''-''" "take maxHost out1"]
    set_take_subset[of maxHost out1] by (auto simp: out2_def)
  then have l2: "list_all label_char out2" using l1 by (auto simp: list_all_iff)
  have len: "length out2 \<le> maxHost"
    using length_TrimRight[of "CHR ''-''" "take maxHost out1"] by (auto simp: out2_def)
  have h2: "hd out2 \<noteq> CHR ''-''" if "out2 \<noteq> []"
  proof (cases "maxHost < length out1")
    case True
    then have "take maxHost out1 \<noteq> []" "hd (take maxHost out1) = hd out1" "out1 \<noteq> []" by (auto simp: maxHost_def)
    then show ?thesis using True h1 TrimRight_hd[of "take maxHost out1" "CHR ''-''"] by (simp add: out2_def)
  next
    case False
    then show ?thesis using that h1 by (simp add: out2_def)
  qed
  have "is_ok (Validate (sanitizeHost h))"
    using l2 h2 len by (auto simp: san Validate_ok validNodeID_iff maxHost_def label_char_ord)
  moreover have "length (sanitizeHost h) \<le> maxHost" using len by (simp add: san maxHost_def)
  ultimately show ?thesis by simp
qed

lemma Generate_ok:
  assumes "length buf = 3"
  obtains ident where "Generate (Some buf) host = Inr ident" "is_ok (Validate ident)"
proof -
  have "is_ok (Validate (sanitizeHost host @ ''-'' @ hex_EncodeToString buf))"
    using sanitizeHost_valid[of host] hex_all_label[of buf] assms
    by (intro id_label.valid_with_suffix) (simp_all add: maxHost_def label_char_ord)
  then show thesis using that by (simp add: Generate_def)
qed

lemma string_of_bytes_of [simp]: "string_of (bytes_of s) = s"
proof -
  have "char_of (unat (of_nat (ord_of c) :: byte)) = c" for c
    using nat_of_char_less_256[of c] by (simp add: unat_of_nat)
  then show ?thesis by (simp add: string_of_def bytes_of_def map_idI)
qed

section \<open>The id file\<close>

lemma write_id_keeps: "keeps {(dir, name)} s (snd (write_id dir name data s))"
proof -
  have "keeps {(dir, name)} s (snd (os_MkdirAll dir perm_0700 s))" for s
    by (rule keeps_mono[OF keeps_calls(1)]) simp
  then show ?thesis unfolding write_id_def by (intro keeps_then keeps_err keeps_WriteFile)
qed

lemma write_id_content: "write_id dir name data s = (Inr u, t) \<Longrightarrow> \<exists>m. fs_files t (dir, name) = Some (data, m)"
  by (auto simp: write_id_def os_WriteFile_def io_then_ok io_err_ok os_defs Let_def split: option.splits if_splits)

interpretation id_file: file_writer write_id
  by unfold_locales (auto dest: write_id_content intro: write_id_keeps)

lemma write_id_succeeds: "fs_quiet s \<Longrightarrow> \<exists>t. write_id dir name data s = (Inr (), t)"
proof -
  assume "fs_quiet s"
  then have quiet: "fs_fault s c p = None" for c p by simp
  show ?thesis
    by (cases "fs_dirs s dir"; cases "fs_files s (dir, name)")
      (auto simp: write_id_def os_WriteFile_def io_then_def io_err_def os_defs Let_def quiet)
qed

definition stores_id :: "string \<Rightarrow> string \<Rightarrow> fs \<Rightarrow> bool" where
  "stores_id dir ident s \<longleftrightarrow> is_ok (Validate ident) \<and> fs_fault s OpRead (dir, nodeIDFile) = None \<and>
     (\<exists>m. fs_files s (dir, nodeIDFile) = Some (bytes_of (ident @ [CHR 0x0A]), m))"

lemma LoadOrCreate_stored: "stores_id dir ident s \<Longrightarrow> LoadOrCreate dir rnd host s = (Inr ident, s)"
  using id_label.valid_line[of ident]
  by (auto simp: stores_id_def LoadOrCreate_def os_ReadFile_def os_fault_def Let_def Validate_def simp del: bytes_of_append
      split: if_splits)

lemma write_id_stores:
  assumes "write_id dir nodeIDFile (bytes_of (ident @ [CHR 0x0A])) s = (Inr u, t)" "is_ok (Validate ident)"
    "fs_fault s OpRead (dir, nodeIDFile) = None"
  shows "stores_id dir ident t"
proof -
  have "keeps {(dir, nodeIDFile)} s t" using id_file.put_keeps[of dir nodeIDFile s] assms(1) by (metis snd_conv)
  then have "fs_fault t OpRead (dir, nodeIDFile) = None" using assms(3) by (simp add: keeps_fault)
  then show ?thesis using write_id_content[OF assms(1)] assms(2) by (simp add: stores_id_def del: bytes_of_append)
qed

lemma LoadOrCreate_existing:
  assumes "fs_files s (dir, nodeIDFile) = Some (b, m)" "fs_fault s OpRead (dir, nodeIDFile) = None"
  shows "LoadOrCreate dir rnd host s =
    (let ident = TrimSpace (string_of b)
     in (if validNodeID ident then Inr ident else Inl (Wrap ''path'' (Wrap ''id'' IdErrInvalidNodeID)), s))"
  using assms by (auto simp: LoadOrCreate_def os_ReadFile_def os_fault_def Let_def Validate_def)

lemma LoadOrCreate_missing:
  assumes "fs_files s (dir, nodeIDFile) = None"
  shows "LoadOrCreate dir rnd host s =
    io_then (io_of (Generate rnd host)) (\<lambda>ident.
      io_then (write_id dir nodeIDFile (bytes_of (ident @ [CHR 0x0A]))) (\<lambda>_. io_ret ident)) s"
  using assms by (simp add: LoadOrCreate_def os_ReadFile_def)

section \<open>Properties\<close>

text \<open>
  C39. The node id check of package identity (a regular expression) and the label check of package pki
  (a loop) accept the same names, so an id that can be stored can be certified.
\<close>

theorem Validate_validateLabel: "is_ok (Validate s) \<longleftrightarrow> is_ok (validateLabel s)"
  by (simp add: id_label.valid_iff pki_label.valid_iff)

text \<open>
  C40. A generated id is a valid node id for every host name, also one with no usable character, with
  characters outside ASCII or longer than 63 characters.
\<close>

theorem Generate_valid:
  assumes "length buf = 3"
  shows "\<exists>ident. Generate (Some buf) host = Inr ident \<and> is_ok (Validate ident)"
  using Generate_ok[OF assms] by metis

theorem Generate_valid_witness:
  "length [0xAB, 0, 1 :: byte] = 3 \<and>
     (\<exists>ident. Generate (Some [0xAB, 0, 1]) [77, 121, 0x212A, 46, 108] = Inr ident \<and> is_ok (Validate ident))"
  using Generate_valid[of "[0xAB, 0, 1]" "[77, 121, 0x212A, 46, 108]"] by simp

text \<open>
  The node id is stable. When the id file can be read or does not exist yet, an id that
  \<^verbatim>\<open>LoadOrCreate\<close> returns is valid, and every later call returns the same id and changes nothing,
  whatever random bytes and host name it would see.
\<close>

lemma LoadOrCreate_stable:
  assumes load: "LoadOrCreate dir rnd host s = (Inr ident, t)"
    and read: "fs_fault s OpRead (dir, nodeIDFile) = None" and rnd: "rnd = Some buf" "length buf = 3"
  shows "is_ok (Validate ident) \<and> LoadOrCreate dir rnd' host' t = (Inr ident, t)"
proof (cases "fs_files s (dir, nodeIDFile)")
  case (Some f)
  obtain b m where f: "f = (b, m)" by fastforce
  with Some load read have "t = s" "validNodeID ident" "ident = TrimSpace (string_of b)"
    by (simp_all add: LoadOrCreate_existing Let_def split: if_splits)
  then show ?thesis using Some f read by (simp add: LoadOrCreate_existing Let_def Validate_ok)
next
  case None
  obtain i where i: "Generate rnd host = Inr i" "is_ok (Validate i)" using Generate_ok[OF rnd(2)] rnd(1) by metis
  have "ident = i" "write_id dir nodeIDFile (bytes_of (i @ [CHR 0x0A])) s = (Inr (), t)"
    using load i(1) by (auto simp: LoadOrCreate_missing[OF None] io_then_ok simp del: bytes_of_append)
  then show ?thesis using i(2) write_id_stores read LoadOrCreate_stored by blast
qed

text \<open>
  When \<^verbatim>\<open>os.Stat\<close> fails, for whatever reason, \<^verbatim>\<open>Set\<close> writes the id as if \<^verbatim>\<open>overwrite\<close> had
  been given. This is why the next property asks that \<^verbatim>\<open>os.Stat\<close> itself works.
\<close>

lemma identity_Set_stat_fails:
  assumes "fs_fault s OpStat (dir, nodeIDFile) = Some e" and "is_ok (Validate ident)"
  shows "identity_Set dir ident False rnd host s = write_id dir nodeIDFile (bytes_of (ident @ [CHR 0x0A])) s"
  using assms by (auto simp: identity_Set_def io_then_def os_Stat_def os_fault_def is_ok_iff)

text \<open>
  Choosing the node id. After a successful \<^verbatim>\<open>Set\<close> the stored id is the chosen one; without
  \<^verbatim>\<open>overwrite\<close> an existing id file is never changed, and the call succeeds exactly when it
  already holds the chosen id.
\<close>

lemma identity_Set_spec:
  assumes read: "fs_fault s OpRead (dir, nodeIDFile) = None" and stat: "fs_fault s OpStat (dir, nodeIDFile) = None"
  shows "case identity_Set dir ident ow rnd host s of (r, t) \<Rightarrow>
    (is_ok r \<longrightarrow> fst (LoadOrCreate dir rnd' host' t) = Inr ident) \<and>
    (fs_files s (dir, nodeIDFile) \<noteq> None \<and> \<not> ow \<longrightarrow> t = s \<and>
       (is_ok r \<longleftrightarrow> is_ok (Validate ident) \<and> fst (LoadOrCreate dir rnd host s) = Inr ident))"
proof (cases "is_ok (Validate ident)")
  case False
  then obtain e where "Validate ident = Inl e" by (cases "Validate ident") auto
  then show ?thesis by (simp add: identity_Set_def io_then_def)
next
  case valid: True
  then have v: "Validate ident = Inr ()" by (auto simp: is_ok_iff)
  show ?thesis
  proof (cases "fs_files s (dir, nodeIDFile) \<noteq> None \<and> \<not> ow")
    case True
    then obtain b m where f: "fs_files s (dir, nodeIDFile) = Some (b, m)" by auto
    have "ident \<noteq> []" using valid by (simp add: id_label.valid_nonempty)
    then show ?thesis using True f read stat v
      by (auto simp: identity_Set_def io_then_def os_Stat_def os_fault_def LoadOrCreate_existing[OF f] Let_def)
  next
    case False
    then have set: "identity_Set dir ident ow rnd host s = write_id dir nodeIDFile (bytes_of (ident @ [CHR 0x0A])) s"
      using v stat by (auto simp: identity_Set_def io_then_def os_Stat_def os_fault_def)
    obtain r t where w: "write_id dir nodeIDFile (bytes_of (ident @ [CHR 0x0A])) s = (r, t)" by fastforce
    have "is_ok r \<longrightarrow> fst (LoadOrCreate dir rnd' host' t) = Inr ident"
      using w write_id_stores[OF _ valid read] LoadOrCreate_stored by (auto simp: is_ok_iff)
    then show ?thesis unfolding set w using False by auto
  qed
qed

end
