(* ===== verification/Pairing_Crypto.thy ===== *)
theory Pairing_Crypto
  imports X509
begin

text \<open>
  The codes and message authentication of \<^verbatim>\<open>internal/pki/pairing.go\<close>: generating and checking a
  pairing code, deriving the MAC key from it, and the two MACs of the handshake. The number drawn by
  \<^verbatim>\<open>rand.Int\<close> is an argument (\<open>None\<close> when the random source fails).
\<close>

section \<open>Constants\<close>

definition CodeDigits :: nat where "CodeDigits = 8"
definition codeSpace :: nat where "codeSpace = 100000000"
definition SessionIDLen :: nat where "SessionIDLen = 16"
definition SaltLen :: nat where "SaltLen = 16"
definition DefaultCodeTTL :: duration where "DefaultCodeTTL = 60 * Second"
definition DefaultSessionTTL :: duration where "DefaultSessionTTL = 60 * Second"
definition argonTime :: nat where "argonTime = 2"
definition argonMemory :: nat where "argonMemory = 32 * 1024"
definition argonThreads :: nat where "argonThreads = 2"
definition argonKeyLen :: nat where "argonKeyLen = 32"
definition labelClient :: string where "labelClient = ''lcm-pair-v1/client''"
definition labelServer :: string where "labelServer = ''lcm-pair-v1/server''"
definition maxSessions :: nat where "maxSessions = 32"
definition maxFailuresPerMin :: nat where "maxFailuresPerMin = 5"
definition failureWindowReset :: duration where "failureWindowReset = Minute"

lemmas pairing_ttl_defs [go_time] = DefaultCodeTTL_def DefaultSessionTTL_def failureWindowReset_def

section \<open>Codes\<close>

definition GenerateCode :: "nat option \<Rightarrow> err + string" where
  "GenerateCode n =
     (case n of None \<Rightarrow> Inl (Wrap ''pairing: random'' (Msg ''random'')) | Some k \<Rightarrow> Inr (pad_decimal CodeDigits k))"

fun code_loop :: "string \<Rightarrow> err + unit" where
  "code_loop [] = Inr ()"
| "code_loop (r # rs) =
     (if ord_of r < 48 \<or> 57 < ord_of r then Inl (PairErr ErrBadCodeFormat) else code_loop rs)"

definition ValidateCodeFormat :: "string \<Rightarrow> err + unit" where
  "ValidateCodeFormat code =
     (if length code \<noteq> CodeDigits then Inl (PairErr ErrBadCodeFormat) else code_loop code)"

section \<open>Keys and MACs\<close>

definition DeriveKey :: "crypto \<Rightarrow> string \<Rightarrow> bytes \<Rightarrow> bytes" where
  "DeriveKey C code salt = argon2_IDKey C (bytes_of code) salt argonTime argonMemory argonThreads argonKeyLen"

definition client_message :: "bytes \<Rightarrow> bytes \<Rightarrow> bytes \<Rightarrow> bytes" where
  "client_message sessionID serverCertHash csrDER = bytes_of labelClient @ sessionID @ serverCertHash @ csrDER"

definition ClientMAC :: "bytes \<Rightarrow> bytes \<Rightarrow> bytes \<Rightarrow> bytes \<Rightarrow> bytes" where
  "ClientMAC key sessionID serverCertHash csrDER = HMAC_SHA256 key (client_message sessionID serverCertHash csrDER)"

definition server_message :: "bytes \<Rightarrow> bytes \<Rightarrow> bytes \<Rightarrow> bytes" where
  "server_message sessionID caDER nodeDER = bytes_of labelServer @ sessionID @ caDER @ nodeDER"

definition ServerMAC :: "bytes \<Rightarrow> bytes \<Rightarrow> bytes \<Rightarrow> bytes \<Rightarrow> bytes" where
  "ServerMAC key sessionID caDER nodeDER = HMAC_SHA256 key (server_message sessionID caDER nodeDER)"

definition CertHash :: "certificate \<Rightarrow> bytes" where
  "CertHash cert = Sum256 (Raw cert)"

section \<open>Lemmas\<close>

lemma code_loop_ok: "is_ok (code_loop s) \<longleftrightarrow> list_all is_digit_char s"
  by (induction s) (auto simp: is_digit_char_def)

lemma ValidateCodeFormat_ok: "is_ok (ValidateCodeFormat c) \<longleftrightarrow> length c = CodeDigits \<and> list_all is_digit_char c"
  by (simp add: ValidateCodeFormat_def code_loop_ok)

lemma ValidateCodeFormat_Inr: "ValidateCodeFormat c = Inr u \<longleftrightarrow> is_ok (ValidateCodeFormat c)"
  by (cases "ValidateCodeFormat c") auto

lemma GenerateCode_format: "n < codeSpace \<Longrightarrow> is_ok (ValidateCodeFormat (pad_decimal CodeDigits n))"
  by (simp add: ValidateCodeFormat_ok length_pad_decimal pad_decimal_all_digits CodeDigits_def codeSpace_def)

lemma ClientMAC_length [simp]: "length (ClientMAC k i h d) = 32"
  by (simp add: ClientMAC_def)

lemma ServerMAC_length [simp]: "length (ServerMAC k i h d) = 32"
  by (simp add: ServerMAC_def)

lemma CertHash_length [simp]: "length (CertHash c) = 32"
  by (simp add: CertHash_def)

lemma digits_val_bound: "list_all is_digit_char s \<Longrightarrow> digits_val s < 10 ^ length s"
proof (induction s rule: rev_induct)
  case (snoc c s)
  then have "digits_val s < 10 ^ length s" "ord_of c - 48 \<le> 9" by (auto simp: is_digit_char_def)
  then show ?case by (simp add: digits_val_snoc)
qed (simp add: digits_val_def)

lemma digits_val_inj:
  "length s = length t \<Longrightarrow> list_all is_digit_char s \<Longrightarrow> list_all is_digit_char t \<Longrightarrow> digits_val s = digits_val t \<Longrightarrow> s = t"
proof (induction s arbitrary: t rule: rev_induct)
  case (snoc c s)
  obtain t' d where t: "t = t' @ [d]" using snoc.prems(1) by (cases t rule: rev_cases) auto
  have c: "48 \<le> ord_of c" "ord_of c \<le> 57" and d: "48 \<le> ord_of d" "ord_of d \<le> 57"
    using snoc.prems t by (auto simp: is_digit_char_def)
  have eq: "10 * digits_val s + (ord_of c - 48) = 10 * digits_val t' + (ord_of d - 48)"
    using snoc.prems(4) by (simp add: t digits_val_snoc)
  then have "digits_val s = digits_val t'" "ord_of c - 48 = ord_of d - 48" using c d by presburger+
  moreover have "s = t'" using snoc.IH[of t'] snoc.prems t \<open>digits_val s = digits_val t'\<close> by simp
  moreover have "ord_of c = ord_of d" using calculation(2) c d by linarith
  ultimately show ?case using t by simp
qed simp

section \<open>Properties\<close>

text \<open>
  C32. Pairing codes. The generated codes are exactly the strings of the format that
  \<^verbatim>\<open>ValidateCodeFormat\<close> accepts, each for one drawn number: a uniform number below
  \<^verbatim>\<open>codeSpace\<close> is a uniform code, and no code the coordinator shows is refused for its format.
\<close>

theorem GenerateCode_bij:
  "bij_betw (\<lambda>n. GenerateCode (Some n)) {0..<codeSpace} {Inr c |c. is_ok (ValidateCodeFormat c)}"
proof (rule bij_betwI')
  fix n m
  have "n = m" if "pad_decimal CodeDigits n = pad_decimal CodeDigits m"
    using that digits_val_pad by metis
  then show "GenerateCode (Some n) = GenerateCode (Some m) \<longleftrightarrow> n = m" by (auto simp: GenerateCode_def)
next
  fix n assume "n \<in> {0..<codeSpace}"
  then show "GenerateCode (Some n) \<in> {Inr c |c. is_ok (ValidateCodeFormat c)}"
    using GenerateCode_format by (simp add: GenerateCode_def)
next
  fix y :: "err + string" assume "y \<in> {Inr c |c. is_ok (ValidateCodeFormat c)}"
  then obtain c where y: "y = Inr c" and c: "length c = CodeDigits" "list_all is_digit_char c"
    by (auto simp: ValidateCodeFormat_ok)
  let ?n = "digits_val c"
  have "?n < codeSpace" using digits_val_bound[OF c(2)] c(1) by (simp add: CodeDigits_def codeSpace_def)
  moreover have "pad_decimal CodeDigits ?n = c"
    using c calculation GenerateCode_format[of ?n] by (intro digits_val_inj) (auto simp: ValidateCodeFormat_ok)
  ultimately show "\<exists>n\<in>{0..<codeSpace}. y = GenerateCode (Some n)"
    using y by (intro bexI[of _ ?n]) (simp_all add: GenerateCode_def)
qed

text \<open>
  What the MACs authenticate: for session ids and certificate hashes of the protocol's lengths the
  message under the client MAC determines the session, the server certificate and the request; the
  message under the server MAC determines the session and the two certificates as one string of bytes (they
  are not separated, so their encoding has to be self-delimiting, as DER is); and no client message
  is a server message, so neither MAC can be reflected as the other.
\<close>

lemma mac_messages_distinct:
  assumes "length sid = SessionIDLen" "length sid' = SessionIDLen" "length h = 32" "length h' = 32"
  shows "(client_message sid h d = client_message sid' h' d' \<longleftrightarrow> sid = sid' \<and> h = h' \<and> d = d') \<and>
    (server_message sid a b = server_message sid' a' b' \<longleftrightarrow> sid = sid' \<and> a @ b = a' @ b') \<and>
    client_message sid h d \<noteq> server_message sid' a b"
proof -
  have "bytes_of labelClient \<noteq> bytes_of labelServer" by (simp add: labelClient_def labelServer_def)
  moreover have "length (bytes_of labelClient) = length (bytes_of labelServer)"
    by (simp add: labelClient_def labelServer_def)
  ultimately show ?thesis using assms
    by (auto simp: client_message_def server_message_def append_eq_append_conv)
qed

end
