(* ===== verification/Ledger.thy ===== *)
theory Ledger
  imports Prelude
begin

text \<open>
  Runs of a labelled step relation, and the contract of a component that hands out single-use tokens:
  whatever the order of the steps, a token is used at most as often as it was minted.
\<close>

section \<open>Runs\<close>

inductive run :: "('s \<Rightarrow> 'e \<Rightarrow> 's \<Rightarrow> bool) \<Rightarrow> 's \<Rightarrow> 'e list \<Rightarrow> 's \<Rightarrow> bool" for step where
  run_Nil [intro!]: "run step s [] s"
| run_Cons [intro]: "step s e t \<Longrightarrow> run step t es u \<Longrightarrow> run step s (e # es) u"

inductive_cases run_NilE [elim!]: "run step s [] t"
inductive_cases run_ConsE [elim!]: "run step s (e # es) u"

lemma run_append: "run step s es t \<Longrightarrow> run step t fs u \<Longrightarrow> run step s (es @ fs) u"
  by (induction rule: run.induct) auto

lemma run_split: "run step s (es @ fs) u \<Longrightarrow> \<exists>t. run step s es t \<and> run step t fs u"
proof (induction es arbitrary: s)
  case (Cons e es)
  then obtain t where "step s e t" "run step t (es @ fs) u" by auto
  with Cons.IH[of t] show ?case by blast
qed auto

lemma run_single: "step s e t \<Longrightarrow> run step s [e] t"
  by auto

lemma run_invariant:
  assumes "run step s es t" "I s" "\<And>s e t. I s \<Longrightarrow> step s e t \<Longrightarrow> I t"
  shows "I t"
  using assms by (induction rule: run.induct) auto

section \<open>Single-use tokens\<close>

locale single_use =
  fixes step :: "'s \<Rightarrow> 'e \<Rightarrow> 's \<Rightarrow> bool"
    and live :: "'s \<Rightarrow> 'c \<Rightarrow> bool"
    and mints :: "'e \<Rightarrow> 'c \<Rightarrow> bool"
    and uses :: "'e \<Rightarrow> 'c \<Rightarrow> bool"
  assumes use_consumes: "step s e t \<Longrightarrow> uses e c \<Longrightarrow> live s c \<and> \<not> live t c"
    and only_minted: "step s e t \<Longrightarrow> live t c \<Longrightarrow> live s c \<or> mints e c"
begin

lemma uses_bounded:
  "run step s es t \<Longrightarrow>
     length (filter (\<lambda>e. uses e c) es) + (if live t c then 1 else 0)
       \<le> length (filter (\<lambda>e. mints e c) es) + (if live s c then 1 else 0)"
proof (induction rule: run.induct)
  case (run_Cons s e t es u)
  then show ?case
    using use_consumes[OF run_Cons.hyps(1), of c] only_minted[OF run_Cons.hyps(1), of c]
    by (cases "live t c") (auto split: if_splits)
qed simp

lemma use_after_use_needs_mint:
  assumes "run step s (e # es @ [e']) t" "uses e c" "uses e' c"
  shows "\<exists>m \<in> set es. mints m c"
proof -
  obtain t1 where s1: "step s e t1" and r: "run step t1 (es @ [e']) t" using assms(1) by auto
  have dead: "\<not> live t1 c" using use_consumes[OF s1 assms(2)] by simp
  show ?thesis
  proof (rule ccontr)
    assume none: "\<not> (\<exists>m \<in> set es. mints m c)"
    obtain t2 where r2: "run step t1 es t2" and s2: "step t2 e' t"
      using run_split[OF r] by auto
    have "filter (\<lambda>e. mints e c) es = []" using none by (simp add: filter_empty_conv)
    then have "\<not> live t2 c" using uses_bounded[OF r2, of c] dead by (cases "live t2 c") simp_all
    then show False using use_consumes[OF s2 assms(3)] by simp
  qed
qed

end

section \<open>Metered services\<close>

text \<open>
  A service that spends from a stock only what was paid in: in every run from a state with the
  invariant the number of spending steps is bounded by the stock and the number of earning steps.
\<close>

locale metered =
  fixes step :: "'s \<Rightarrow> 'e \<Rightarrow> 's \<Rightarrow> bool"
    and inv :: "'s \<Rightarrow> bool"
    and stock :: "'s \<Rightarrow> nat"
    and earns :: "'e \<Rightarrow> bool"
    and spends :: "'e \<Rightarrow> bool"
  assumes step_keeps: "inv s \<Longrightarrow> step s e t \<Longrightarrow> inv t"
    and step_meter: "inv s \<Longrightarrow> step s e t \<Longrightarrow>
      (if spends e then 1 else 0) + stock t \<le> stock s + (if earns e then 1 else 0)"
begin

lemma run_keeps: "run step s es t \<Longrightarrow> inv s \<Longrightarrow> inv t"
  using run_invariant[of step s es t inv] step_keeps by blast

lemma spending_bounded:
  "run step s es t \<Longrightarrow> inv s \<Longrightarrow> length (filter spends es) + stock t \<le> stock s + length (filter earns es)"
proof (induction rule: run.induct)
  case (run_Cons s e t es u)
  then show ?case
    using step_keeps[OF run_Cons.prems run_Cons.hyps(1)] step_meter[OF run_Cons.prems run_Cons.hyps(1)]
    by (auto split: if_splits)
qed simp

end

end
