(* ===== verification/Pairer.thy ===== *)
theory Pairer
  imports CA Pairing_Crypto Ledger
begin

text \<open>
  The coordinator side of pairing, \<^verbatim>\<open>internal/pki/pairing.go\<close>: the \<^verbatim>\<open>Pairer\<close> with its
  active codes, open sessions and failure times, and the joiner's check of the response. Each critical
  section under \<^verbatim>\<open>mu\<close> is one definition; \<open>Complete\<close> has two of them with the Argon2 work in
  between, and composing them in a row is a run without interleaving (\<open>Pairer_Concurrent\<close> has the
  interleavings). Clock readings, random values and the order in which Go iterates a map are
  arguments.
\<close>

section \<open>State\<close>

record issued =
  is_Code :: string
  is_ExpiresAt :: time

record pair_session =
  ss_ID :: bytes
  ss_Salt :: bytes
  ss_ExpiresAt :: time

record pair_bundle =
  bd_CACert :: certificate
  bd_NodeCert :: certificate
  bd_MeshID :: string
  bd_ServerMAC :: bytes

record pairer =
  pa_ca :: CA
  pa_serverCert :: certificate
  pa_nodeTTL :: duration
  pa_codes :: "(string \<times> time) list"
  pa_sessions :: "(bytes \<times> pair_session) list"
  pa_failures :: "time list"

record pairer_config =
  pc_CA :: "CA option"
  pc_ServerCert :: "certificate option"
  pc_NodeTTL :: duration

definition NewPairer :: "pairer_config \<Rightarrow> err + pairer" where
  "NewPairer cfg =
     (case (pc_CA cfg, pc_ServerCert cfg) of
        (Some ca, Some sc) \<Rightarrow>
          Inr \<lparr>pa_ca = ca, pa_serverCert = sc,
               pa_nodeTTL = (if pc_NodeTTL cfg \<le> 0 then DefaultNodeCertTTL else pc_NodeTTL cfg),
               pa_codes = [], pa_sessions = [], pa_failures = []\<rparr>
      | _ \<Rightarrow> Inl (Msg ''pairing: CA and ServerCert are required''))"

section \<open>Operations\<close>

definition gcLocked :: "time \<Rightarrow> pairer \<Rightarrow> pairer" where
  "gcLocked now p =
     p\<lparr>pa_codes := filter (\<lambda>(c, exp). \<not> time_After now exp) (pa_codes p),
       pa_sessions := filter (\<lambda>(i, s). \<not> time_After now (ss_ExpiresAt s)) (pa_sessions p),
       pa_failures := filter (\<lambda>t. time_Sub now t < failureWindowReset) (pa_failures p)\<rparr>"

text \<open>\<open>now_exp\<close> is read before the lock is taken, \<open>now_gc\<close> inside \<^verbatim>\<open>gcLocked\<close>.\<close>

definition Issue :: "pairer \<Rightarrow> duration \<Rightarrow> nat option \<Rightarrow> time \<Rightarrow> time \<Rightarrow> (err + issued) \<times> pairer" where
  "Issue p ttl n now_exp now_gc =
     (let ttl' = (if ttl \<le> 0 then DefaultCodeTTL else ttl) in
      case GenerateCode n of
        Inl e \<Rightarrow> (Inl e, p)
      | Inr code \<Rightarrow>
          let exp = time_Add now_exp ttl'; p1 = gcLocked now_gc p
          in (Inr \<lparr>is_Code = code, is_ExpiresAt = exp\<rparr>, p1\<lparr>pa_codes := AList.update code exp (pa_codes p1)\<rparr>))"

definition ActiveCodes :: "pairer \<Rightarrow> time \<Rightarrow> nat \<times> pairer" where
  "ActiveCodes p now = (let p1 = gcLocked now p in (length (pa_codes p1), p1))"

text \<open>\<open>rid\<close> and \<open>rsalt\<close> are the results of the two \<^verbatim>\<open>rand.Read\<close> calls.\<close>

definition Begin :: "pairer \<Rightarrow> time \<Rightarrow> bytes option \<Rightarrow> bytes option \<Rightarrow> time \<Rightarrow> (err + pair_session) \<times> pairer" where
  "Begin p now_gc rid rsalt now_exp =
     (let p1 = gcLocked now_gc p in
      if length (pa_codes p1) = 0 then (Inl (PairErr ErrNoActiveCode), p1)
      else if maxFailuresPerMin \<le> length (pa_failures p1) then (Inl (PairErr ErrTooManyAttempts), p1)
      else if maxSessions \<le> length (pa_sessions p1) then (Inl (PairErr ErrBusy), p1)
      else (case (rid, rsalt) of
              (Some i, Some salt) \<Rightarrow>
                let s = \<lparr>ss_ID = i, ss_Salt = salt, ss_ExpiresAt = time_Add now_exp DefaultSessionTTL\<rparr>
                in (Inr s, p1\<lparr>pa_sessions := AList.update i s (pa_sessions p1)\<rparr>)
            | _ \<Rightarrow> (Inl (Msg ''random''), p1)))"

text \<open>
  The first critical section of \<^verbatim>\<open>Complete\<close>: garbage collection, taking the session out, the rate
  limit, and a copy of the active codes in the iteration order \<open>order\<close>.
\<close>

definition complete_lock1 ::
  "pairer \<Rightarrow> bytes \<Rightarrow> (string list \<Rightarrow> string list) \<Rightarrow> time \<Rightarrow> (err + pair_session \<times> string list) \<times> pairer" where
  "complete_lock1 p sessionID order now_gc =
     (let p1 = gcLocked now_gc p; so = map_of (pa_sessions p1) sessionID;
          p2 = p1\<lparr>pa_sessions := AList.delete sessionID (pa_sessions p1)\<rparr>
      in case so of
           None \<Rightarrow> (Inl (PairErr ErrUnknownSession), p2)
         | Some s \<Rightarrow>
             if maxFailuresPerMin \<le> length (pa_failures p2) then (Inl (PairErr ErrTooManyAttempts), p2)
             else (Inr (s, order (map fst (pa_codes p2))), p2))"

text \<open>The loop over the candidates: the code that matched and its key, or the empty code.\<close>

fun match_loop :: "crypto \<Rightarrow> bytes \<Rightarrow> pair_session \<Rightarrow> bytes \<Rightarrow> bytes \<Rightarrow> string list \<Rightarrow> string \<times> bytes" where
  "match_loop C serverHash s csrDER clientMAC [] = ([], [])"
| "match_loop C serverHash s csrDER clientMAC (c # cs) =
     (let k = DeriveKey C c (ss_Salt s)
      in if ClientMAC k (ss_ID s) serverHash csrDER = clientMAC then (c, k)
         else match_loop C serverHash s csrDER clientMAC cs)"

text \<open>The second critical section: count a failure, or consume the matched code if it is still there.\<close>

definition complete_lock2 :: "pairer \<Rightarrow> string \<Rightarrow> time \<Rightarrow> (err + unit) \<times> pairer" where
  "complete_lock2 p matched now_fail =
     (if matched = [] then (Inl (PairErr ErrBadCode), p\<lparr>pa_failures := pa_failures p @ [now_fail]\<rparr>)
      else if map_of (pa_codes p) matched = None then (Inl (PairErr ErrBadCode), p)
      else (Inr (), p\<lparr>pa_codes := AList.delete matched (pa_codes p)\<rparr>))"

text \<open>What follows the second critical section: the certificate and the response MAC.\<close>

definition complete_issue ::
  "crypto \<Rightarrow> CA \<Rightarrow> duration \<Rightarrow> pair_session \<Rightarrow> bytes \<Rightarrow> bytes \<Rightarrow> nat option \<Rightarrow> time \<Rightarrow> bytes \<Rightarrow> err + pair_bundle" where
  "complete_issue C ca nodeTTL s key csrDER serial now ent =
     and_then (map_err (\<lambda>_. Wrap ''parse'' (CaErr ErrBadCSR)) (ParseCertificateRequest C csrDER)) (\<lambda>csr.
     and_then (SignCSR C ca csrDER \<lparr>pr_MeshID = MeshID ca, pr_Role = RoleNode, pr_Name = csr_CommonName csr\<rparr>
                 nodeTTL serial now ent) (\<lambda>nodeCert.
       Inr \<lparr>bd_CACert = ca_Cert ca, bd_NodeCert = nodeCert, bd_MeshID = MeshID ca,
            bd_ServerMAC = ServerMAC key (ss_ID s) (Raw (ca_Cert ca)) (Raw nodeCert)\<rparr>))"

record complete_env =
  ce_order :: "string list \<Rightarrow> string list"
  ce_now_gc :: time
  ce_now_fail :: time
  ce_serial :: "nat option"
  ce_now_sign :: time
  ce_entropy :: bytes

text \<open>The locked part of \<^verbatim>\<open>Complete\<close>: the session, the accepted code and its key.\<close>

definition complete_claim ::
  "crypto \<Rightarrow> pairer \<Rightarrow> bytes \<Rightarrow> bytes \<Rightarrow> bytes \<Rightarrow> complete_env \<Rightarrow> (err + pair_session \<times> string \<times> bytes) \<times> pairer" where
  "complete_claim C p sessionID csrDER clientMAC env =
     (case complete_lock1 p sessionID (ce_order env) (ce_now_gc env) of
        (Inl e, p1) \<Rightarrow> (Inl e, p1)
      | (Inr (s, candidates), p1) \<Rightarrow>
          let (matched, key) = match_loop C (CertHash (pa_serverCert p1)) s csrDER clientMAC candidates
          in (case complete_lock2 p1 matched (ce_now_fail env) of
                (Inl e, p2) \<Rightarrow> (Inl e, p2)
              | (Inr _, p2) \<Rightarrow> (Inr (s, matched, key), p2)))"

definition Complete ::
  "crypto \<Rightarrow> pairer \<Rightarrow> bytes \<Rightarrow> bytes \<Rightarrow> bytes \<Rightarrow> complete_env \<Rightarrow> (err + pair_bundle) \<times> pairer" where
  "Complete C p sessionID csrDER clientMAC env =
     (case complete_claim C p sessionID csrDER clientMAC env of
        (Inl e, p2) \<Rightarrow> (Inl e, p2)
      | (Inr (s, matched, key), p2) \<Rightarrow>
          (complete_issue C (pa_ca p2) (pa_nodeTTL p2) s key csrDER (ce_serial env) (ce_now_sign env) (ce_entropy env),
           p2))"

definition VerifyBundle :: "crypto \<Rightarrow> bytes \<Rightarrow> bytes \<Rightarrow> pair_bundle \<Rightarrow> string \<Rightarrow> time \<Rightarrow> err + unit" where
  "VerifyBundle C key sessionID b nodeID now =
     (if ServerMAC key sessionID (Raw (bd_CACert b)) (Raw (bd_NodeCert b)) \<noteq> bd_ServerMAC b then
        Inl (PairErr ErrBadMAC)
      else and_then (VerifyAgainst C (bd_CACert b) (bd_NodeCert b) now) (\<lambda>p.
        if pr_Role p \<noteq> RoleNode \<or> pr_Name p \<noteq> nodeID then Inl (Msg ''pairing: issued cert is for another principal'')
        else if bd_MeshID b \<noteq> pr_MeshID p then Inl (Wrap ''bundle and cert'' (CaErr ErrMeshMismatch))
        else Inr ()))"

section \<open>The invariant\<close>

text \<open>
  \<open>pairer_inv\<close> holds under every interleaving; the bound on the failures (\<open>pairer_wf\<close>) only without
  interleaving.
\<close>

definition session_ok :: "bytes \<times> pair_session \<Rightarrow> bool" where
  "session_ok e \<longleftrightarrow> ss_ID (snd e) = fst e \<and> length (fst e) = SessionIDLen \<and> length (ss_Salt (snd e)) = SaltLen"

definition code_ok :: "string \<times> time \<Rightarrow> bool" where
  "code_ok e \<longleftrightarrow> is_ok (ValidateCodeFormat (fst e))"

definition pairer_inv :: "pairer \<Rightarrow> bool" where
  "pairer_inv p \<longleftrightarrow> distinct_keys (pa_codes p) \<and> distinct_keys (pa_sessions p) \<and>
     list_all code_ok (pa_codes p) \<and> list_all session_ok (pa_sessions p) \<and>
     length (pa_sessions p) \<le> maxSessions \<and> 0 < pa_nodeTTL p"

definition pairer_wf :: "pairer \<Rightarrow> bool" where
  "pairer_wf p \<longleftrightarrow> pairer_inv p \<and> length (pa_failures p) \<le> maxFailuresPerMin"

lemma gcLocked_sel [simp]:
  "pa_ca (gcLocked now p) = pa_ca p" "pa_serverCert (gcLocked now p) = pa_serverCert p"
  "pa_nodeTTL (gcLocked now p) = pa_nodeTTL p"
  "pa_codes (gcLocked now p) = filter (\<lambda>(c, exp). \<not> time_After now exp) (pa_codes p)"
  "pa_sessions (gcLocked now p) = filter (\<lambda>(i, s). \<not> time_After now (ss_ExpiresAt s)) (pa_sessions p)"
  "pa_failures (gcLocked now p) = filter (\<lambda>t. time_Sub now t < failureWindowReset) (pa_failures p)"
  by (simp_all add: gcLocked_def)

lemma list_all_update: "list_all P m \<Longrightarrow> P (k, v) \<Longrightarrow> list_all P (AList.update k v m)"
  using set_update_subset[of k v m] by (auto simp: list_all_iff)

lemma list_all_delete: "list_all P m \<Longrightarrow> list_all P (AList.delete k m)"
  using set_delete_subset[of k m] by (auto simp: list_all_iff)

lemma list_all_filter_mono: "list_all P m \<Longrightarrow> list_all P (filter Q m)"
  by (auto simp: list_all_iff)

lemmas go_map_keep = distinct_keys_update distinct_keys_delete distinct_keys_filter
  list_all_update list_all_delete list_all_filter_mono

lemma gcLocked_inv: "pairer_inv p \<Longrightarrow> pairer_inv (gcLocked now p)"
  using le_trans[OF length_filter_le, of "pa_sessions p" maxSessions]
  by (simp add: pairer_inv_def go_map_keep)

lemma gcLocked_wf: "pairer_wf p \<Longrightarrow> pairer_wf (gcLocked now p)"
  using gcLocked_inv[of p now] le_trans[OF length_filter_le, of "pa_failures p" maxFailuresPerMin]
  by (simp add: pairer_wf_def)

lemma NewPairer_wf: "NewPairer cfg = Inr p \<Longrightarrow> pairer_wf p"
  by (auto simp: NewPairer_def pairer_wf_def pairer_inv_def go_time split: option.splits if_splits)

lemma NewPairer_sel:
  assumes "NewPairer cfg = Inr p"
  shows "pc_CA cfg = Some (pa_ca p)" "pc_ServerCert cfg = Some (pa_serverCert p)"
    "pa_nodeTTL p = (if pc_NodeTTL cfg \<le> 0 then DefaultNodeCertTTL else pc_NodeTTL cfg)"
    "pa_codes p = []" "pa_sessions p = []" "pa_failures p = []"
  using assms by (auto simp: NewPairer_def split: option.splits)

lemma Issue_cases:
  assumes "Issue p ttl n now_exp now_gc = (r, p')"
  obtains (fail) e where "n = None" "r = Inl e" "p' = p"
  | (ok) k i where "n = Some k" "r = Inr i" "is_Code i = pad_decimal CodeDigits k"
      "is_ExpiresAt i = now_exp + (if ttl \<le> 0 then DefaultCodeTTL else ttl)"
      "p' = (gcLocked now_gc p)\<lparr>pa_codes := AList.update (is_Code i) (is_ExpiresAt i) (pa_codes (gcLocked now_gc p))\<rparr>"
proof (cases n)
  case None
  then show thesis using assms fail by (auto simp: Issue_def GenerateCode_def Let_def)
next
  case (Some k)
  let ?i = "\<lparr>is_Code = pad_decimal CodeDigits k, is_ExpiresAt = now_exp + (if ttl \<le> 0 then DefaultCodeTTL else ttl)\<rparr>"
  show thesis
    by (rule ok[of k ?i]) (use Some assms in \<open>auto simp: Issue_def GenerateCode_def Let_def time_Add_def\<close>)
qed

lemma Issue_inv:
  assumes "pairer_inv p" "\<forall>k. n = Some k \<longrightarrow> k < codeSpace" "Issue p ttl n now_exp now_gc = (r, p')"
  shows "pairer_inv p'"
  using assms(3)
proof (cases rule: Issue_cases)
  case (ok k i)
  then have "code_ok (is_Code i, is_ExpiresAt i)" using assms(2) GenerateCode_format by (simp add: code_ok_def)
  with gcLocked_inv[OF assms(1), of now_gc] ok show ?thesis by (simp add: pairer_inv_def go_map_keep)
qed (use assms(1) in simp)

lemma Issue_failures: "Issue p ttl n ne ng = (r, p') \<Longrightarrow> length (pa_failures p') \<le> length (pa_failures p)"
  by (cases n) (auto simp: Issue_def GenerateCode_def Let_def)

definition begin_state :: "pairer \<Rightarrow> time \<Rightarrow> bytes \<Rightarrow> pair_session \<Rightarrow> pairer" where
  "begin_state p now i s = (gcLocked now p)\<lparr>pa_sessions := AList.update i s (pa_sessions (gcLocked now p))\<rparr>"

lemma Begin_cases:
  assumes "Begin p now_gc rid rsalt now_exp = (r, p')"
  obtains (fail) e where "r = Inl e" "p' = gcLocked now_gc p"
  | (ok) i salt s where "rid = Some i" "rsalt = Some salt" "r = Inr s"
      "s = \<lparr>ss_ID = i, ss_Salt = salt, ss_ExpiresAt = now_exp + DefaultSessionTTL\<rparr>"
      "p' = begin_state p now_gc i s" "pa_codes (gcLocked now_gc p) \<noteq> []"
      "length (pa_failures (gcLocked now_gc p)) < maxFailuresPerMin"
      "length (pa_sessions (gcLocked now_gc p)) < maxSessions"
  using assms
  by (cases rid; cases rsalt) (auto simp: Begin_def Let_def time_Add_def begin_state_def simp del: gcLocked_sel split: if_splits)

lemma Begin_inv:
  assumes "pairer_inv p" "\<forall>i. rid = Some i \<longrightarrow> length i = SessionIDLen" "\<forall>t. rsalt = Some t \<longrightarrow> length t = SaltLen"
    "Begin p now_gc rid rsalt now_exp = (r, p')"
  shows "pairer_inv p'"
  using assms(4)
proof (cases rule: Begin_cases)
  case fail
  then show ?thesis using gcLocked_inv[OF assms(1)] by simp
next
  case (ok i salt s)
  have "length (AList.update i s (pa_sessions (gcLocked now_gc p))) \<le> maxSessions"
    using length_update_le[of i s "pa_sessions (gcLocked now_gc p)"] ok(8) by simp
  moreover have "session_ok (i, s)" using ok assms(2,3) by (simp add: session_ok_def)
  ultimately show ?thesis using gcLocked_inv[OF assms(1), of now_gc] ok(5)
    by (simp add: pairer_inv_def begin_state_def go_map_keep)
qed

lemma Begin_failures: "Begin p ng rid rsalt ne = (r, p') \<Longrightarrow> length (pa_failures p') \<le> length (pa_failures p)"
  by (erule Begin_cases) (simp_all add: begin_state_def)

lemma lock1_cases:
  assumes "complete_lock1 p sid order now = (r, p')"
  obtains "p' = (gcLocked now p)\<lparr>pa_sessions := AList.delete sid (pa_sessions (gcLocked now p))\<rparr>"
    "case map_of (pa_sessions (gcLocked now p)) sid of
       None \<Rightarrow> r = Inl (PairErr ErrUnknownSession)
     | Some s \<Rightarrow> if maxFailuresPerMin \<le> length (pa_failures p') then r = Inl (PairErr ErrTooManyAttempts)
         else r = Inr (s, order (map fst (pa_codes p')))"
  using assms by (auto simp: complete_lock1_def Let_def split: option.splits if_splits)

lemma lock1_inv: "pairer_inv p \<Longrightarrow> complete_lock1 p sid order now = (r, p') \<Longrightarrow> pairer_inv p'"
  using gcLocked_inv[of p now] le_trans[OF length_delete_le[of sid "pa_sessions (gcLocked now p)"], of maxSessions]
  by (auto simp: pairer_inv_def go_map_keep elim!: lock1_cases)

lemma lock2_inv: "pairer_inv p \<Longrightarrow> complete_lock2 p c now = (r, p') \<Longrightarrow> pairer_inv p'"
  by (auto simp: complete_lock2_def pairer_inv_def go_map_keep split: if_splits)

lemma complete_claim_inv:
  assumes "pairer_inv p" "complete_claim C p sid csr mac env = (r, p')"
  shows "pairer_inv p'"
proof -
  obtain r1 p1 where l1: "complete_lock1 p sid (ce_order env) (ce_now_gc env) = (r1, p1)" by fastforce
  have i1: "pairer_inv p1" using lock1_inv[OF assms(1) l1] .
  show ?thesis using assms(2) l1 i1 lock2_inv
    by (auto simp: complete_claim_def Let_def split: sum.splits prod.splits)
qed

lemma complete_claim_failures:
  assumes "complete_claim C p sid csr mac env = (r, p')" "length (pa_failures p) \<le> maxFailuresPerMin"
  shows "length (pa_failures p') \<le> maxFailuresPerMin"
proof -
  obtain r1 p1 where l1: "complete_lock1 p sid (ce_order env) (ce_now_gc env) = (r1, p1)" by fastforce
  then have "length (pa_failures p1) \<le> maxFailuresPerMin" "is_ok r1 \<Longrightarrow> length (pa_failures p1) < maxFailuresPerMin"
    using le_trans[OF length_filter_le assms(2)]
    by (auto elim!: lock1_cases split: option.splits if_splits)
  then show ?thesis using assms(1) l1
    by (auto simp: complete_claim_def complete_lock2_def Let_def split: sum.splits prod.splits if_splits)
qed

lemma Complete_state: "snd (Complete C p sid csr mac env) = snd (complete_claim C p sid csr mac env)"
  by (simp add: Complete_def split: sum.splits prod.splits)

section \<open>What completing a pairing may return\<close>

text \<open>
  The contract of the locked part of \<^verbatim>\<open>Complete\<close>, with the state before the call and without the
  garbage collection, the copy of the codes and the loop: which sessions and codes count at time
  \<open>now\<close>, and the set of allowed outcomes.
\<close>

definition session_at :: "time \<Rightarrow> pairer \<Rightarrow> bytes \<Rightarrow> pair_session option" where
  "session_at now p sid =
     (case map_of (pa_sessions p) sid of None \<Rightarrow> None | Some s \<Rightarrow> if ss_ExpiresAt s < now then None else Some s)"

definition code_at :: "time \<Rightarrow> pairer \<Rightarrow> string \<Rightarrow> bool" where
  "code_at now p c \<longleftrightarrow> (case map_of (pa_codes p) c of None \<Rightarrow> False | Some exp \<Rightarrow> now \<le> exp)"

definition recent_failures :: "time \<Rightarrow> pairer \<Rightarrow> nat" where
  "recent_failures now p = length (filter (\<lambda>t. now - t < failureWindowReset) (pa_failures p))"

definition proves_code :: "crypto \<Rightarrow> pairer \<Rightarrow> pair_session \<Rightarrow> bytes \<Rightarrow> bytes \<Rightarrow> string \<Rightarrow> bool" where
  "proves_code C p s csr mac c \<longleftrightarrow>
     mac = ClientMAC (DeriveKey C c (ss_Salt s)) (ss_ID s) (CertHash (pa_serverCert p)) csr"

definition complete_outcomes ::
  "crypto \<Rightarrow> time \<Rightarrow> pairer \<Rightarrow> bytes \<Rightarrow> bytes \<Rightarrow> bytes \<Rightarrow> (err + pair_session \<times> string \<times> bytes) set" where
  "complete_outcomes C now p sid csr mac =
     (case session_at now p sid of
        None \<Rightarrow> {Inl (PairErr ErrUnknownSession)}
      | Some s \<Rightarrow>
          if maxFailuresPerMin \<le> recent_failures now p then {Inl (PairErr ErrTooManyAttempts)}
          else let good = {c. code_at now p c \<and> proves_code C p s csr mac c}
               in if good = {} then {Inl (PairErr ErrBadCode)}
                  else (\<lambda>c. Inr (s, c, DeriveKey C c (ss_Salt s))) ` good)"

lemma gc_session: "pairer_inv p \<Longrightarrow> map_of (pa_sessions (gcLocked now p)) sid = session_at now p sid"
  by (simp add: pairer_inv_def session_at_def map_of_filter_snd time_ops split: option.splits)

lemma gc_code: "pairer_inv p \<Longrightarrow> map_of (pa_codes (gcLocked now p)) c \<noteq> None \<longleftrightarrow> code_at now p c"
  by (auto simp: pairer_inv_def code_at_def map_of_filter_snd time_ops split: option.splits)

lemma gc_failures: "length (pa_failures (gcLocked now p)) = recent_failures now p"
  by (simp add: recent_failures_def time_Sub_less_iff go_time min_int64_def max_int64_def)

lemma code_at_nonempty: "pairer_inv p \<Longrightarrow> code_at now p c \<Longrightarrow> c \<noteq> []"
  by (auto simp: code_at_def pairer_inv_def list_all_iff code_ok_def ValidateCodeFormat_ok CodeDigits_def
      split: option.splits dest!: map_of_SomeD)

lemma match_loop_spec:
  "match_loop C h s csr mac cs = (c, k) \<Longrightarrow>
     if \<exists>d \<in> set cs. ClientMAC (DeriveKey C d (ss_Salt s)) (ss_ID s) h csr = mac
     then c \<in> set cs \<and> ClientMAC (DeriveKey C c (ss_Salt s)) (ss_ID s) h csr = mac \<and> k = DeriveKey C c (ss_Salt s)
     else c = [] \<and> k = []"
  by (induction cs) (auto simp: Let_def split: if_splits)

lemma lock1_inv_state:
  assumes "complete_lock1 p sid order now = (r, p1)"
  shows "pa_codes p1 = pa_codes (gcLocked now p)" "pa_failures p1 = pa_failures (gcLocked now p)"
    "pa_serverCert p1 = pa_serverCert p" "pa_ca p1 = pa_ca p" "pa_nodeTTL p1 = pa_nodeTTL p"
    "pa_sessions p1 = AList.delete sid (pa_sessions (gcLocked now p))"
  using assms by (auto elim!: lock1_cases)

lemma lock1_result:
  assumes inv: "pairer_inv p" and l1: "complete_lock1 p sid order now = (r, p1)"
  shows "case session_at now p sid of
       None \<Rightarrow> r = Inl (PairErr ErrUnknownSession)
     | Some s \<Rightarrow> if maxFailuresPerMin \<le> recent_failures now p then r = Inl (PairErr ErrTooManyAttempts)
         else r = Inr (s, order (map fst (pa_codes p1)))"
  using lock1_cases[OF l1] gc_session[OF inv] gc_failures lock1_inv_state(2)[OF l1] by metis

text \<open>What comes of the candidates that the first section hands over.\<close>

lemma claim_of_candidates:
  fixes C csr mac
  assumes inv: "pairer_inv p" and order: "\<And>xs. set (ce_order env xs) = set xs"
    and l1: "complete_lock1 p sid (ce_order env) (ce_now_gc env) = (Inr (s, ce_order env (map fst (pa_codes p1))), p1)"
  defines "good \<equiv> {d. code_at (ce_now_gc env) p d \<and> proves_code C p s csr mac d}"
  shows "fst (complete_claim C p sid csr mac env) \<in>
    (if good = {} then {Inl (PairErr ErrBadCode)} else (\<lambda>c. Inr (s, c, DeriveKey C c (ss_Salt s))) ` good)"
proof -
  let ?now = "ce_now_gc env" and ?cs = "ce_order env (map fst (pa_codes p1))"
  note st = lock1_inv_state[OF l1]
  obtain c k where m: "match_loop C (CertHash (pa_serverCert p1)) s csr mac ?cs = (c, k)" by fastforce
  have cand: "d \<in> set ?cs \<longleftrightarrow> code_at ?now p d" for d
    using gc_code[OF inv, of ?now d] by (simp add: order st(1) map_of_eq_None_iff)
  have found: "if good = {} then c = [] else c \<in> good \<and> k = DeriveKey C c (ss_Salt s)"
    using match_loop_spec[OF m] cand st(3) by (auto simp: good_def proves_code_def split: if_splits)
  show ?thesis
  proof (cases "good = {}")
    case True
    then have "c = []" using found by simp
    then show ?thesis using l1 m True by (simp add: complete_claim_def complete_lock2_def)
  next
    case False
    then have c: "c \<in> good" "k = DeriveKey C c (ss_Salt s)" using found unfolding if_not_P[OF False] by blast+
    then have "c \<noteq> []" "map_of (pa_codes p1) c \<noteq> None"
      using code_at_nonempty[OF inv] gc_code[OF inv, of ?now c] st(1) by (auto simp: good_def)
    then have "fst (complete_claim C p sid csr mac env) = Inr (s, c, k)"
      using l1 m by (simp add: complete_claim_def complete_lock2_def)
    then show ?thesis using False c by simp
  qed
qed

lemma complete_claim_outcome:
  assumes inv: "pairer_inv p" and order: "\<And>xs. set (ce_order env xs) = set xs"
  shows "fst (complete_claim C p sid csr mac env) \<in> complete_outcomes C (ce_now_gc env) p sid csr mac"
proof -
  let ?now = "ce_now_gc env"
  obtain r p1 where l1: "complete_lock1 p sid (ce_order env) ?now = (r, p1)" by fastforce
  note res = lock1_result[OF inv l1]
  show ?thesis
  proof (cases r)
    case (Inl e)
    then show ?thesis using l1 res
      by (auto simp: complete_claim_def complete_outcomes_def split: option.splits if_splits)
  next
    case (Inr sc)
    then obtain s where s: "session_at ?now p sid = Some s" and rf: "\<not> maxFailuresPerMin \<le> recent_failures ?now p"
      and sc: "sc = (s, ce_order env (map fst (pa_codes p1)))"
      using res by (auto split: option.splits if_splits)
    show ?thesis using claim_of_candidates[OF inv order l1[unfolded Inr sc], of C csr mac] s rf
      by (simp only: complete_outcomes_def Let_def option.case if_False)
  qed
qed

text \<open>What the locked part leaves of the state.\<close>

lemma complete_claim_state:
  assumes "complete_claim C p sid csr mac env = (r, p')"
  shows "pa_sessions p' = AList.delete sid (pa_sessions (gcLocked (ce_now_gc env) p)) \<and>
    pa_codes p' = (case r of Inl _ \<Rightarrow> pa_codes (gcLocked (ce_now_gc env) p)
      | Inr (s, c, k) \<Rightarrow> AList.delete c (pa_codes (gcLocked (ce_now_gc env) p))) \<and>
    pa_ca p' = pa_ca p \<and> pa_serverCert p' = pa_serverCert p \<and> pa_nodeTTL p' = pa_nodeTTL p"
proof -
  obtain r1 p1 where l1: "complete_lock1 p sid (ce_order env) (ce_now_gc env) = (r1, p1)" by fastforce
  show ?thesis using assms l1 lock1_inv_state[OF l1]
    by (auto simp: complete_claim_def complete_lock2_def Let_def simp del: gcLocked_sel
        split: sum.splits prod.splits if_splits)
qed

section \<open>Runs of the pairer\<close>

datatype pairer_event = EvIssue string | EvActive | EvBegin | EvAccept string | EvReject err

inductive pairer_step :: "crypto \<Rightarrow> pairer \<Rightarrow> pairer_event \<Rightarrow> pairer \<Rightarrow> bool" for C where
  step_issue: "Issue p ttl n ne ng = (Inr i, p') \<Longrightarrow> n = Some k \<Longrightarrow> k < codeSpace \<Longrightarrow>
    pairer_step C p (EvIssue (is_Code i)) p'"
| step_active: "ActiveCodes p now = (n, p') \<Longrightarrow> pairer_step C p EvActive p'"
| step_begin: "Begin p ng rid rsalt ne = (r, p') \<Longrightarrow> (\<forall>i. rid = Some i \<longrightarrow> length i = SessionIDLen) \<Longrightarrow>
    (\<forall>t. rsalt = Some t \<longrightarrow> length t = SaltLen) \<Longrightarrow> pairer_step C p EvBegin p'"
| step_accept: "complete_claim C p sid csr mac env = (Inr (s, c, k), p') \<Longrightarrow> pairer_step C p (EvAccept c) p'"
| step_reject: "complete_claim C p sid csr mac env = (Inl e, p') \<Longrightarrow> pairer_step C p (EvReject e) p'"

inductive_cases step_acceptE: "pairer_step C p (EvAccept c) p'"

lemma pairer_step_wf:
  assumes "pairer_step C p e p'" "pairer_wf p"
  shows "pairer_wf p'"
  using assms
proof (cases rule: pairer_step.cases)
  case (step_issue ttl n ne ng i k)
  then show ?thesis using assms(2) Issue_inv[of p n ttl ne ng "Inr i" p'] Issue_failures[of p ttl n ne ng "Inr i" p']
    by (simp add: pairer_wf_def)
next
  case (step_active now n)
  then show ?thesis using assms(2) gcLocked_wf by (auto simp: ActiveCodes_def Let_def)
next
  case (step_begin ng rid rsalt ne r)
  then show ?thesis using assms(2) Begin_inv[of p rid rsalt ng ne r p'] Begin_failures[of p ng rid rsalt ne r p']
    by (simp add: pairer_wf_def)
next
  case (step_accept sid csr mac env s c k)
  then show ?thesis using assms(2) complete_claim_inv complete_claim_failures unfolding pairer_wf_def by blast
next
  case (step_reject sid csr mac env e)
  then show ?thesis using assms(2) complete_claim_inv complete_claim_failures unfolding pairer_wf_def by blast
qed

lemma gc_code_subset: "map_of (pa_codes (gcLocked now p)) c \<noteq> None \<Longrightarrow> map_of (pa_codes p) c \<noteq> None"
  by (auto simp: map_of_eq_None_iff intro: rev_image_eqI)

lemma claim_accepts_live:
  assumes "complete_claim C p sid csr mac env = (Inr (s, c, k), p')"
  shows "map_of (pa_codes p) c \<noteq> None \<and> map_of (pa_codes p') c = None"
proof -
  obtain r1 p1 where l1: "complete_lock1 p sid (ce_order env) (ce_now_gc env) = (r1, p1)" by fastforce
  have "map_of (pa_codes p1) c \<noteq> None \<and> map_of (pa_codes p') c = None"
    using assms l1 by (auto simp: complete_claim_def complete_lock2_def Let_def split: sum.splits prod.splits if_splits)
  then show ?thesis using gc_code_subset lock1_inv_state(1)[OF l1] by metis
qed

lemma pairer_step_codes:
  assumes "pairer_step C p e p'" "map_of (pa_codes p') c \<noteq> None"
  shows "map_of (pa_codes p) c \<noteq> None \<or> e = EvIssue c"
  using assms
proof (cases rule: pairer_step.cases)
  case (step_issue ttl n ne ng i k)
  from step_issue(2) show ?thesis
  proof (cases rule: Issue_cases)
    case (ok k' i')
    then show ?thesis using assms(2) step_issue gc_code_subset[of ng p c]
      by (auto simp del: gcLocked_sel split: if_splits)
  qed simp
next
  case (step_active now n)
  then show ?thesis using assms(2) gc_code_subset[of now p c]
    by (auto simp: ActiveCodes_def Let_def simp del: gcLocked_sel)
next
  case (step_begin ng rid rsalt ne r)
  from step_begin(2) show ?thesis
    by (cases rule: Begin_cases) (use assms(2) gc_code_subset[of ng p c] in \<open>auto simp: begin_state_def simp del: gcLocked_sel\<close>)
next
  case (step_accept sid csr mac env s d k)
  then show ?thesis using complete_claim_state[of C p sid csr mac env] assms(2) gc_code_subset[of "ce_now_gc env" p c]
    by (auto simp del: gcLocked_sel split: if_splits)
next
  case (step_reject sid csr mac env e)
  then show ?thesis using complete_claim_state[of C p sid csr mac env] assms(2) gc_code_subset[of "ce_now_gc env" p c]
    by (auto simp del: gcLocked_sel)
qed

interpretation pairer_codes: single_use "pairer_step C" "\<lambda>p c. map_of (pa_codes p) c \<noteq> None"
  "\<lambda>e c. e = EvIssue c" "\<lambda>e c. e = EvAccept c" for C
proof
  fix s e t and c :: string
  assume "pairer_step C s e t" "e = EvAccept c"
  then show "map_of (pa_codes s) c \<noteq> None \<and> \<not> map_of (pa_codes t) c \<noteq> None"
    using claim_accepts_live by (auto elim!: step_acceptE)
next
  fix s e t and c :: string
  assume "pairer_step C s e t" "map_of (pa_codes t) c \<noteq> None"
  then show "map_of (pa_codes s) c \<noteq> None \<or> e = EvIssue c" by (rule pairer_step_codes)
qed

section \<open>Properties\<close>

text \<open>A pairer for the concrete instances, and a first code.\<close>

definition demo_cfg :: pairer_config where
  "demo_cfg = \<lparr>pc_CA = Some demo_ca, pc_ServerCert = Some (ca_Cert demo_ca), pc_NodeTTL = 0\<rparr>"

definition demo_pairer :: pairer where
  "demo_pairer = \<lparr>pa_ca = demo_ca, pa_serverCert = ca_Cert demo_ca, pa_nodeTTL = DefaultNodeCertTTL,
     pa_codes = [], pa_sessions = [], pa_failures = []\<rparr>"

definition demo_code :: string where "demo_code = pad_decimal CodeDigits 42"

lemma demo_NewPairer: "NewPairer demo_cfg = Inr demo_pairer"
  by (simp add: NewPairer_def demo_cfg_def demo_pairer_def)

lemma demo_issue:
  "Issue demo_pairer 0 (Some 42) demo_now demo_now =
     (Inr \<lparr>is_Code = demo_code, is_ExpiresAt = demo_now + DefaultCodeTTL\<rparr>,
      demo_pairer\<lparr>pa_codes := [(demo_code, demo_now + DefaultCodeTTL)]\<rparr>)"
  by (simp add: Issue_def GenerateCode_def demo_pairer_def demo_code_def gcLocked_def Let_def time_Add_def)

lemma demo_run: "run (pairer_step C) demo_pairer [EvIssue demo_code]
    (demo_pairer\<lparr>pa_codes := [(demo_code, demo_now + DefaultCodeTTL)]\<rparr>)"
  using pairer_step.step_issue[OF demo_issue, of 42 C] by (auto simp: codeSpace_def)

text \<open>
  C10. The invariant of the pairer. In every state that a new pairer reaches by calls that do not
  overlap, codes and sessions have distinct keys, every code has the format of a pairing code, every
  session is stored under its own id with id and salt of the right length, at most 32 sessions are open
  and at most 5 failures are remembered.
\<close>

theorem pairer_run_wf:
  assumes "NewPairer cfg = Inr p0" "run (pairer_step C) p0 es p"
  shows "pairer_wf p"
  using run_invariant[OF assms(2), of pairer_wf] NewPairer_wf[OF assms(1)] pairer_step_wf by blast

theorem pairer_run_wf_witness: "pairer_wf (demo_pairer\<lparr>pa_codes := [(demo_code, demo_now + DefaultCodeTTL)]\<rparr>)"
  by (rule pairer_run_wf[OF demo_NewPairer demo_run[of demo_crypto]])

text \<open>
  A code is single-use. In any run, a code is accepted at most as often as it was issued: a code
  handed out once lets one joiner in, whoever else knows it.
\<close>

lemma code_single_use:
  assumes "NewPairer cfg = Inr p0" "run (pairer_step C) p0 es p"
  shows "length (filter (\<lambda>e. e = EvAccept c) es) \<le> length (filter (\<lambda>e. e = EvIssue c) es)"
proof -
  have "map_of (pa_codes p0) c = None" using assms(1) by (auto simp: NewPairer_def split: option.splits)
  then show ?thesis using pairer_codes.uses_bounded[OF assms(2), of c] by simp
qed

lemma Complete_result:
  assumes inv: "pairer_inv p" and order: "\<And>xs. set (ce_order env xs) = set xs"
    and call: "Complete C p sid csr mac env = (r, p')"
  shows "map_of (pa_sessions p') sid = None \<and>
    (\<exists>out \<in> complete_outcomes C (ce_now_gc env) p sid csr mac.
       case out of
         Inl e \<Rightarrow> r = Inl e \<and> (\<forall>c. map_of (pa_codes p') c \<noteq> None \<longleftrightarrow> code_at (ce_now_gc env) p c)
       | Inr (s, d, k) \<Rightarrow>
           r = complete_issue C (pa_ca p) (pa_nodeTTL p) s k csr (ce_serial env) (ce_now_sign env) (ce_entropy env) \<and>
           (\<forall>c. map_of (pa_codes p') c \<noteq> None \<longleftrightarrow> code_at (ce_now_gc env) p c \<and> c \<noteq> d))"
proof -
  obtain out q where claim: "complete_claim C p sid csr mac env = (out, q)" by fastforce
  have q: "q = p'" using Complete_state[of C p sid csr mac env] call claim by simp
  note st = complete_claim_state[OF claim[unfolded q]]
  have mem: "out \<in> complete_outcomes C (ce_now_gc env) p sid csr mac"
    using complete_claim_outcome[OF inv order, of C sid csr mac] claim by simp
  have codes: "map_of (pa_codes (gcLocked (ce_now_gc env) p)) c \<noteq> None \<longleftrightarrow> code_at (ce_now_gc env) p c" for c
    by (rule gc_code[OF inv])
  have "map_of (pa_sessions p') sid = None" using st by simp
  moreover have "case out of
         Inl e \<Rightarrow> r = Inl e \<and> (\<forall>c. map_of (pa_codes p') c \<noteq> None \<longleftrightarrow> code_at (ce_now_gc env) p c)
       | Inr (s, d, k) \<Rightarrow>
           r = complete_issue C (pa_ca p) (pa_nodeTTL p) s k csr (ce_serial env) (ce_now_sign env) (ce_entropy env) \<and>
           (\<forall>c. map_of (pa_codes p') c \<noteq> None \<longleftrightarrow> code_at (ce_now_gc env) p c \<and> c \<noteq> d)"
    using call claim q st codes
    by (auto simp: Complete_def simp del: gcLocked_sel split: sum.splits prod.splits)
  ultimately show ?thesis using mem by blast
qed

text \<open>
  C4. Completing a pairing, without interleaving and for every order in which the codes are visited.
  The call accepts exactly when the session is open, fewer than five failures happened within the
  last minute, and the MAC proves one of the unexpired codes for this session, server certificate and
  request; the error says which of these fails. The session is gone afterwards in every case; an
  accepted code is gone too, and every other code is as it was.
\<close>

theorem Complete_spec:
  assumes inv: "pairer_inv p" and order: "\<And>xs. set (ce_order env xs) = set xs"
    and call: "Complete C p sid csr mac env = (r, p')"
  shows "map_of (pa_sessions p') sid = None \<and>
    (\<exists>out \<in> complete_outcomes C (ce_now_gc env) p sid csr mac.
       case out of
         Inl e \<Rightarrow> r = Inl e \<and> (\<forall>c. map_of (pa_codes p') c \<noteq> None \<longleftrightarrow> code_at (ce_now_gc env) p c)
       | Inr (s, d, k) \<Rightarrow>
           r = complete_issue C (pa_ca p) (pa_nodeTTL p) s k csr (ce_serial env) (ce_now_sign env) (ce_entropy env) \<and>
           (\<forall>c. map_of (pa_codes p') c \<noteq> None \<longleftrightarrow> code_at (ce_now_gc env) p c \<and> c \<noteq> d))"
  by (rule Complete_result[OF assms])

definition demo_env :: complete_env where
  "demo_env = \<lparr>ce_order = rev, ce_now_gc = demo_now, ce_now_fail = demo_now, ce_serial = Some 5,
     ce_now_sign = demo_now, ce_entropy = []\<rparr>"

theorem Complete_spec_witness:
  "fst (Complete demo_crypto demo_pairer [1] [] [] demo_env) = Inl (PairErr ErrUnknownSession)"
proof -
  have inv: "pairer_inv demo_pairer" using NewPairer_wf[OF demo_NewPairer] by (simp add: pairer_wf_def)
  obtain r p' where c: "Complete demo_crypto demo_pairer [1] [] [] demo_env = (r, p')" by fastforce
  have "complete_outcomes demo_crypto (ce_now_gc demo_env) demo_pairer [1] [] [] = {Inl (PairErr ErrUnknownSession)}"
    by (simp add: complete_outcomes_def session_at_def demo_pairer_def)
  then show ?thesis using Complete_spec[OF inv _ c] c by (simp add: demo_env_def)
qed

lemma Begin_result:
  assumes inv: "pairer_inv p"
  shows "Begin p now (Some i) (Some salt) ne =
    (let p1 = gcLocked now p;
         s = \<lparr>ss_ID = i, ss_Salt = salt, ss_ExpiresAt = ne + DefaultSessionTTL\<rparr>
     in if \<forall>c. \<not> code_at now p c then (Inl (PairErr ErrNoActiveCode), p1)
        else if maxFailuresPerMin \<le> recent_failures now p then (Inl (PairErr ErrTooManyAttempts), p1)
        else if maxSessions \<le> card {sid. session_at now p sid \<noteq> None} then (Inl (PairErr ErrBusy), p1)
        else (Inr s, p1\<lparr>pa_sessions := AList.update i s (pa_sessions p1)\<rparr>))"
proof -
  let ?p = "gcLocked now p"
  have "pairer_inv ?p" by (rule gcLocked_inv[OF inv])
  then have dist: "distinct (map fst (pa_sessions ?p))" by (simp add: pairer_inv_def)
  have "{sid. session_at now p sid \<noteq> None} = set (map fst (pa_sessions ?p))"
    unfolding gc_session[OF inv, symmetric] by (simp add: map_of_eq_None_iff del: gcLocked_sel)
  then have card: "card {sid. session_at now p sid \<noteq> None} = length (pa_sessions ?p)"
    using distinct_card[OF dist] by simp
  have "(length (pa_codes ?p) = 0) = (\<forall>c. map_of (pa_codes ?p) c = None)"
    by (cases "pa_codes ?p") (auto simp: map_of_eq_None_iff simp del: gcLocked_sel)
  then have codes: "(length (pa_codes ?p) = 0) = (\<forall>c. \<not> code_at now p c)"
    using gc_code[OF inv] by blast
  show ?thesis
    by (simp only: Begin_def Let_def codes gc_failures card option.case prod.case time_Add_def)
qed

text \<open>
  C23. Opening a session. \<^verbatim>\<open>Begin\<close> refuses exactly when no unexpired code exists, then when five
  failures happened within the last minute, then when 32 unexpired sessions are open; otherwise it
  opens a session under the fresh id that stays open for 60 seconds and does not touch any code.
\<close>

theorem Begin_spec:
  assumes inv: "pairer_inv p"
  shows "Begin p now (Some i) (Some salt) ne =
    (let p1 = gcLocked now p;
         s = \<lparr>ss_ID = i, ss_Salt = salt, ss_ExpiresAt = ne + DefaultSessionTTL\<rparr>
     in if \<forall>c. \<not> code_at now p c then (Inl (PairErr ErrNoActiveCode), p1)
        else if maxFailuresPerMin \<le> recent_failures now p then (Inl (PairErr ErrTooManyAttempts), p1)
        else if maxSessions \<le> card {sid. session_at now p sid \<noteq> None} then (Inl (PairErr ErrBusy), p1)
        else (Inr s, p1\<lparr>pa_sessions := AList.update i s (pa_sessions p1)\<rparr>))"
  by (rule Begin_result[OF assms])

theorem Begin_spec_witness:
  "fst (Begin demo_pairer demo_now (Some [1]) (Some [2]) demo_now) = Inl (PairErr ErrNoActiveCode)"
proof -
  have inv: "pairer_inv demo_pairer" using NewPairer_wf[OF demo_NewPairer] by (simp add: pairer_wf_def)
  have "\<forall>c. \<not> code_at demo_now demo_pairer c" by (simp add: code_at_def demo_pairer_def)
  then show ?thesis using Begin_spec[OF inv, of demo_now "[1]" "[2]" demo_now] by (simp add: Let_def)
qed

lemma VerifyBundle_Inr:
  "VerifyBundle C key sid b nodeID now = Inr () \<longleftrightarrow>
     bd_ServerMAC b = ServerMAC key sid (Raw (bd_CACert b)) (Raw (bd_NodeCert b)) \<and>
     VerifyAgainst C (bd_CACert b) (bd_NodeCert b) now =
       Inr \<lparr>pr_MeshID = bd_MeshID b, pr_Role = RoleNode, pr_Name = nodeID\<rparr>"
proof (cases "VerifyAgainst C (bd_CACert b) (bd_NodeCert b) now")
  case (Inr p)
  then show ?thesis by (cases p) (auto simp: VerifyBundle_def)
qed (simp add: VerifyBundle_def)

section \<open>Issuing on completion\<close>

lemma complete_issue_Inr:
  assumes "complete_issue C ca ttl s key csrDER serial now ent = Inr b"
  obtains csr where "ParseCertificateRequest C csrDER = Inr csr"
    "SignCSR C ca csrDER \<lparr>pr_MeshID = MeshID ca, pr_Role = RoleNode, pr_Name = csr_CommonName csr\<rparr> ttl serial now ent =
       Inr (bd_NodeCert b)"
    "bd_CACert b = ca_Cert ca" "bd_MeshID b = MeshID ca"
    "bd_ServerMAC b = ServerMAC key (ss_ID s) (Raw (ca_Cert ca)) (Raw (bd_NodeCert b))"
  using assms by (auto simp: complete_issue_def go_result)

text \<open>The errors of issuing are none of the pairing errors.\<close>

fun root_err :: "err \<Rightarrow> err" where
  "root_err (Wrap w e) = root_err e"
| "root_err e = e"

lemma errors_Is_root: "errors_Is e (PairErr x) \<longleftrightarrow> root_err e = PairErr x"
  by (induction e rule: root_err.induct) auto

lemma CreateCertificate_errors: "CreateCertificate C ent t i po k pr = Inl e \<Longrightarrow> root_err e \<noteq> PairErr x"
  by (auto simp: CreateCertificate_def Let_def split: if_splits option.splits)

lemma Sign_errors: "Sign C ca req r now ent = Inl e \<Longrightarrow> root_err e \<noteq> PairErr x"
  by (auto simp: Sign_def newSerial_def ParseCertificate_def go_result dest: CreateCertificate_errors
      split: if_splits option.splits)

lemma SignCSR_errors: "SignCSR C ca csrDER p ttl r now ent = Inl e \<Longrightarrow> root_err e \<noteq> PairErr x"
proof (cases "ParseCertificateRequest C csrDER")
  case (Inr csr)
  assume "SignCSR C ca csrDER p ttl r now ent = Inl e"
  with Inr show ?thesis
    by (cases "csr_PublicKey csr"; cases "the (csr_PublicKey csr)")
      (auto simp: SignCSR_def dest: Sign_errors split: if_splits)
qed (auto simp: SignCSR_def)

lemma complete_issue_errors:
  "complete_issue C ca ttl s k csr n now ent = Inl e \<Longrightarrow> \<not> errors_Is e (PairErr x)"
  unfolding errors_Is_root by (auto simp: complete_issue_def go_result dest: SignCSR_errors)

lemma complete_issue_ok:
  assumes C: "crypto_ok C" and wf: "ca_wf C ca" and now: "clock_ok now" and ttl: "0 < ttl" "ttl \<le> 20 * 365 * 24 * Hour"
    and name: "is_ok (validateLabel nodeID)" and curve: "key_curve nk = P256" and csr: "NewCSR C nodeID nk e1 = Inr csrDER"
  obtains b where "complete_issue C ca ttl s key csrDER (Some n) now ent = Inr b"
    "PublicKey (bd_NodeCert b) = Some (pub_of C nk)" "bd_CACert b = ca_Cert ca" "bd_MeshID b = MeshID ca"
    "ParseCertificate C (Raw (bd_NodeCert b)) = Inr (bd_NodeCert b)"
    "NotBefore (bd_NodeCert b) = trunc_sec (now - backdate)" "NotAfter (bd_NodeCert b) = trunc_sec (now + ttl)"
    "\<And>t. time_valid t (bd_NodeCert b) \<Longrightarrow> time_valid t (ca_Cert ca) \<Longrightarrow>
       VerifyBundle C key (ss_ID s) b nodeID t = Inr ()"
proof -
  obtain r where r: "ParseCertificateRequest C csrDER = Inr r" "csr_CommonName r = nodeID"
    "csr_PublicKey r = Some (pub_of C nk)" "csr_CheckSignature C r"
    using NewCSR_ok[OF C name, of nk e1] csr by (metis sum.inject(2))
  obtain x y where xy: "pub_of C nk = EcdsaPub P256 x y" using crypto_ok_key[OF C, of nk] curve by auto
  have req: "p256_request C csrDER (pub_of C nk)" using r xy by (auto simp: p256_request_def)
  let ?p = "\<lparr>pr_MeshID = MeshID ca, pr_Role = RoleNode, pr_Name = nodeID\<rparr>"
  let ?sr = "\<lparr>sr_Principal = ?p, sr_PublicKey = Some (pub_of C nk), sr_TTL = ttl\<rparr>"
  have allowed: "sign_allowed ca ?sr" using name ttl by (simp add: sign_allowed_def role_ok_def)
  obtain c where c: "Sign C ca ?sr (Some n) now ent = Inr c" "ParseCertificate C (Raw c) = Inr c"
    "PublicKey c = Some (pub_of C nk)" "NotBefore c = trunc_sec (now - backdate)" "NotAfter c = trunc_sec (now + ttl)"
    "\<forall>t. time_valid t c \<and> time_valid t (ca_Cert ca) \<longrightarrow> VerifyAgainst C (ca_Cert ca) c t = Inr ?p"
    using pki_ca.issue_ok[OF conjI[OF C wf] now allowed, of n ent] ttl(2) by auto
  have sign: "SignCSR C ca csrDER ?p ttl (Some n) now ent = Inr c" using req c(1) by (auto simp: SignCSR_Inr)
  let ?b = "\<lparr>bd_CACert = ca_Cert ca, bd_NodeCert = c, bd_MeshID = MeshID ca,
    bd_ServerMAC = ServerMAC key (ss_ID s) (Raw (ca_Cert ca)) (Raw c)\<rparr>"
  have vb: "VerifyBundle C key (ss_ID s) ?b nodeID t = Inr ()"
    if "time_valid t (bd_NodeCert ?b)" "time_valid t (ca_Cert ca)" for t
    using c(6) that by (simp add: VerifyBundle_def)
  have new: "complete_issue C ca ttl s key csrDER (Some n) now ent = Inr ?b"
    using r sign by (simp add: complete_issue_def)
  show thesis by (rule that[OF new _ _ _ _ _ _ vb]) (use c in simp_all)
qed

text \<open>
  A joiner that proves an active code gets its certificate. \<open>unique\<close> excludes a collision: another
  active code that yields the same MAC.
\<close>

lemma Complete_accepts:
  assumes inv: "pairer_inv p" and order: "\<And>xs. set (ce_order env xs) = set xs"
    and s: "session_at (ce_now_gc env) p sid = Some s" and rf: "recent_failures (ce_now_gc env) p < maxFailuresPerMin"
    and c: "code_at (ce_now_gc env) p c"
    and mac: "mac = ClientMAC (DeriveKey C c (ss_Salt s)) (ss_ID s) (CertHash (pa_serverCert p)) csr"
    and unique: "\<And>d. code_at (ce_now_gc env) p d \<Longrightarrow> proves_code C p s csr mac d \<Longrightarrow> d = c"
  obtains p' where "complete_claim C p sid csr mac env = (Inr (s, c, DeriveKey C c (ss_Salt s)), p')"
    "Complete C p sid csr mac env =
       (complete_issue C (pa_ca p) (pa_nodeTTL p) s (DeriveKey C c (ss_Salt s)) csr (ce_serial env) (ce_now_sign env)
          (ce_entropy env), p')"
proof -
  have "{d. code_at (ce_now_gc env) p d \<and> proves_code C p s csr mac d} = {c}"
    using c unique mac by (auto simp: proves_code_def)
  then have "complete_outcomes C (ce_now_gc env) p sid csr mac = {Inr (s, c, DeriveKey C c (ss_Salt s))}"
    using s rf by (simp add: complete_outcomes_def Let_def)
  then have "fst (complete_claim C p sid csr mac env) = Inr (s, c, DeriveKey C c (ss_Salt s))"
    using complete_claim_outcome[OF inv order, of C sid csr mac] by simp
  then obtain p' where claim: "complete_claim C p sid csr mac env = (Inr (s, c, DeriveKey C c (ss_Salt s)), p')"
    by (metis prod.collapse)
  with complete_claim_state[OF claim] that[OF claim] show thesis by (simp add: Complete_def)
qed

text \<open>
  C14. What a joiner can obtain. Whatever request and MAC it sends, a certificate that
  \<^verbatim>\<open>Complete\<close> returns is for the role node (never admin) in the CA's own mesh, under the common
  name that the request itself asks for, and binds the P-256 key that signed the request.
\<close>

theorem Complete_node_only:
  assumes "crypto_ok C" "ca_wf C (pa_ca p)" "clock_ok (ce_now_sign env)" "pa_nodeTTL p \<le> 20 * 365 * 24 * Hour"
    and ser: "ce_serial env = Some n" and call: "Complete C p sid csrDER mac env = (Inr b, p')"
  shows "\<exists>csr x y. ParseCertificateRequest C csrDER = Inr csr \<and> csr_CheckSignature C csr \<and>
    csr_PublicKey csr = Some (EcdsaPub P256 x y) \<and> PublicKey (bd_NodeCert b) = Some (EcdsaPub P256 x y) \<and>
    PrincipalFromCert (bd_NodeCert b) =
      Inr \<lparr>pr_MeshID = MeshID (pa_ca p), pr_Role = RoleNode, pr_Name = csr_CommonName csr\<rparr>"
proof -
  obtain s c k p2 where claim: "complete_claim C p sid csrDER mac env = (Inr (s, c, k), p2)"
    and iss: "complete_issue C (pa_ca p2) (pa_nodeTTL p2) s k csrDER (Some n) (ce_now_sign env) (ce_entropy env) = Inr b"
    using call ser by (auto simp: Complete_def split: sum.splits prod.splits)
  have same: "pa_ca p2 = pa_ca p" "pa_nodeTTL p2 = pa_nodeTTL p" using complete_claim_state[OF claim] by auto
  let ?p = "\<lambda>csr. \<lparr>pr_MeshID = MeshID (pa_ca p), pr_Role = RoleNode, pr_Name = csr_CommonName csr\<rparr>"
  obtain csr where csr: "ParseCertificateRequest C csrDER = Inr csr"
    and sign: "SignCSR C (pa_ca p) csrDER (?p csr) (pa_nodeTTL p) (Some n) (ce_now_sign env) (ce_entropy env) =
      Inr (bd_NodeCert b)"
    using complete_issue_Inr[OF iss] same by metis
  obtain pk where pk: "p256_request C csrDER pk" "PublicKey (bd_NodeCert b) = Some pk"
      "PrincipalFromCert (bd_NodeCert b) = Inr (?p csr)"
    using SignCSR_fields[OF assms(1-4) sign] by blast
  then show ?thesis using csr by (auto simp: p256_request_def)
qed

text \<open>A state with one code and one session, and the request of a joiner.\<close>

definition demo_sid :: bytes where "demo_sid = replicate 16 1"

definition demo_session :: pair_session where
  "demo_session = \<lparr>ss_ID = demo_sid, ss_Salt = replicate 16 2, ss_ExpiresAt = demo_now + DefaultSessionTTL\<rparr>"

definition demo_ready :: pairer where
  "demo_ready = demo_pairer\<lparr>pa_codes := [(demo_code, demo_now + DefaultCodeTTL)], pa_sessions := [(demo_sid, demo_session)]\<rparr>"

lemma demo_ready_inv: "pairer_inv demo_ready"
  using GenerateCode_format[of 42]
  by (simp add: pairer_inv_def demo_ready_def demo_pairer_def code_ok_def session_ok_def demo_code_def demo_session_def
      demo_sid_def SessionIDLen_def SaltLen_def maxSessions_def codeSpace_def go_time)

lemma demo_ready_session: "session_at demo_now demo_ready demo_sid = Some demo_session"
  by (simp add: session_at_def demo_ready_def demo_session_def go_time)

lemma demo_ready_code: "code_at demo_now demo_ready c \<longleftrightarrow> c = demo_code"
  by (simp add: code_at_def demo_ready_def go_time)

lemma demo_pairing:
  assumes "NewCSR demo_crypto ''laptop-1'' (PrivKey P256 9) [] = Inr d"
  shows "\<exists>b p'. Complete demo_crypto demo_ready demo_sid d
    (ClientMAC (DeriveKey demo_crypto demo_code (ss_Salt demo_session)) demo_sid (CertHash (ca_Cert demo_ca)) d) demo_env =
    (Inr b, p')"
proof -
  have ttl: "0 < DefaultNodeCertTTL" "DefaultNodeCertTTL \<le> 20 * 365 * 24 * Hour" by (simp_all add: go_time)
  let ?k = "DeriveKey demo_crypto demo_code (ss_Salt demo_session)"
  obtain b where b: "complete_issue demo_crypto demo_ca DefaultNodeCertTTL demo_session ?k d (Some 5) demo_now [] = Inr b"
    by (rule complete_issue_ok[OF demo_crypto_ok demo_ca_wf demo_clock ttl demo_label _ assms]) simp_all
  have env: "ce_now_gc demo_env = demo_now" "\<And>xs. set (ce_order demo_env xs) = set xs"
    "ce_serial demo_env = Some 5" "ce_now_sign demo_env = demo_now" "ce_entropy demo_env = []"
    by (simp_all add: demo_env_def)
  have pa: "pa_ca demo_ready = demo_ca" "pa_nodeTTL demo_ready = DefaultNodeCertTTL"
    "pa_serverCert demo_ready = ca_Cert demo_ca" "pa_failures demo_ready = []" "ss_ID demo_session = demo_sid"
    by (simp_all add: demo_ready_def demo_pairer_def demo_session_def)
  show ?thesis
    by (rule Complete_accepts[OF demo_ready_inv env(2), of demo_sid demo_session demo_code
          "ClientMAC ?k demo_sid (CertHash (ca_Cert demo_ca)) d" demo_crypto d])
      (use b in \<open>auto simp: env pa demo_ready_session demo_ready_code recent_failures_def maxFailuresPerMin_def\<close>)
qed

theorem Complete_node_only_witness:
  "\<exists>d b p'. Complete demo_crypto demo_ready demo_sid d
    (ClientMAC (DeriveKey demo_crypto demo_code (ss_Salt demo_session)) demo_sid (CertHash (ca_Cert demo_ca)) d) demo_env =
    (Inr b, p') \<and> (\<exists>p. PrincipalFromCert (bd_NodeCert b) = Inr p \<and> pr_Role p = RoleNode)"
proof -
  obtain d where d: "NewCSR demo_crypto ''laptop-1'' (PrivKey P256 9) [] = Inr d"
    using NewCSR_ok[OF demo_crypto_ok demo_label] by metis
  obtain b p' where c: "Complete demo_crypto demo_ready demo_sid d
    (ClientMAC (DeriveKey demo_crypto demo_code (ss_Salt demo_session)) demo_sid (CertHash (ca_Cert demo_ca)) d) demo_env =
    (Inr b, p')"
    using demo_pairing[OF d] by blast
  have pa: "pa_ca demo_ready = demo_ca" "pa_nodeTTL demo_ready \<le> 20 * 365 * 24 * Hour"
    "clock_ok (ce_now_sign demo_env)" "ce_serial demo_env = Some 5"
    using demo_clock by (simp_all add: demo_ready_def demo_pairer_def demo_env_def go_time)
  have wf: "ca_wf demo_crypto (pa_ca demo_ready)" using demo_ca_wf pa(1) by simp
  from Complete_node_only[OF demo_crypto_ok wf pa(3,2,4) c] c show ?thesis by fastforce
qed

end
