(* ===== verification/Pairer_Concurrent.thy ===== *)
theory Pairer_Concurrent
  imports Pairer
begin

text \<open>
  The pairer under concurrent calls. \<^verbatim>\<open>Issue\<close>, \<^verbatim>\<open>ActiveCodes\<close> and \<^verbatim>\<open>Begin\<close> have one
  critical section each; a \<^verbatim>\<open>Complete\<close> has two, and between them it is in flight with the
  session it took out, its copy of the codes, and its arguments. Any number of calls can be in flight,
  and they finish in any order.
\<close>

section \<open>Interleaved steps\<close>

record flight =
  fl_session :: pair_session
  fl_candidates :: "string list"
  fl_csr :: bytes
  fl_mac :: bytes

record cpairer =
  cp_pairer :: pairer
  cp_flight :: "flight list"

datatype cevent = CIssue string | CActive | CBegin | CTake | CTakeFail err | CAccept string | CReject err

definition flight_match :: "crypto \<Rightarrow> pairer \<Rightarrow> flight \<Rightarrow> string \<times> bytes" where
  "flight_match C p f = match_loop C (CertHash (pa_serverCert p)) (fl_session f) (fl_csr f) (fl_mac f) (fl_candidates f)"

inductive cstep :: "crypto \<Rightarrow> cpairer \<Rightarrow> cevent \<Rightarrow> cpairer \<Rightarrow> bool" for C where
  c_issue: "Issue (cp_pairer st) ttl (Some k) ne ng = (Inr i, p') \<Longrightarrow> k < codeSpace \<Longrightarrow>
    cstep C st (CIssue (is_Code i)) (st\<lparr>cp_pairer := p'\<rparr>)"
| c_active: "ActiveCodes (cp_pairer st) now = (n, p') \<Longrightarrow> cstep C st CActive (st\<lparr>cp_pairer := p'\<rparr>)"
| c_begin: "Begin (cp_pairer st) ng rid rsalt ne = (r, p') \<Longrightarrow> (\<forall>i. rid = Some i \<longrightarrow> length i = SessionIDLen) \<Longrightarrow>
    (\<forall>t. rsalt = Some t \<longrightarrow> length t = SaltLen) \<Longrightarrow> cstep C st CBegin (st\<lparr>cp_pairer := p'\<rparr>)"
| c_take: "complete_lock1 (cp_pairer st) sid order now = (Inr (s, cs), p') \<Longrightarrow>
    cstep C st CTake (st\<lparr>cp_pairer := p', cp_flight :=
      \<lparr>fl_session = s, fl_candidates = cs, fl_csr = csr, fl_mac = mac\<rparr> # cp_flight st\<rparr>)"
| c_take_fail: "complete_lock1 (cp_pairer st) sid order now = (Inl e, p') \<Longrightarrow>
    cstep C st (CTakeFail e) (st\<lparr>cp_pairer := p'\<rparr>)"
| c_accept: "cp_flight st = xs @ f # ys \<Longrightarrow> flight_match C (cp_pairer st) f = (c, k) \<Longrightarrow>
    complete_lock2 (cp_pairer st) c now = (Inr (), p') \<Longrightarrow>
    cstep C st (CAccept c) (st\<lparr>cp_pairer := p', cp_flight := xs @ ys\<rparr>)"
| c_reject: "cp_flight st = xs @ f # ys \<Longrightarrow> flight_match C (cp_pairer st) f = (c, k) \<Longrightarrow>
    complete_lock2 (cp_pairer st) c now = (Inl e, p') \<Longrightarrow>
    cstep C st (CReject e) (st\<lparr>cp_pairer := p', cp_flight := xs @ ys\<rparr>)"

inductive_cases c_acceptE: "cstep C st (CAccept c) st'"

definition idle :: "pairer \<Rightarrow> cpairer" where
  "idle p = \<lparr>cp_pairer = p, cp_flight = []\<rparr>"

text \<open>A call that does not overlap with others is its two critical sections in a row.\<close>

lemma claim_is_interleaving:
  assumes "complete_claim C p sid csr mac env = (Inr (s, c, k), p')"
  shows "run (cstep C) (idle p) [CTake, CAccept c] (idle p')"
proof -
  obtain cs p1 where l1: "complete_lock1 p sid (ce_order env) (ce_now_gc env) = (Inr (s, cs), p1)"
    and m: "match_loop C (CertHash (pa_serverCert p1)) s csr mac cs = (c, k)"
    and l2: "complete_lock2 p1 c (ce_now_fail env) = (Inr (), p')"
    using assms by (auto simp: complete_claim_def Let_def split: sum.splits prod.splits)
  let ?f = "\<lparr>fl_session = s, fl_candidates = cs, fl_csr = csr, fl_mac = mac\<rparr>"
  let ?st = "\<lparr>cp_pairer = p1, cp_flight = [?f]\<rparr>"
  have "cstep C (idle p) CTake ?st" using cstep.c_take[of "idle p" sid "ce_order env" "ce_now_gc env" s cs p1 C csr mac] l1
    by (simp add: idle_def)
  moreover have "cstep C ?st (CAccept c) (idle p')"
    using cstep.c_accept[of ?st "[]" ?f "[]" C c k "ce_now_fail env" p'] m l2 by (simp add: flight_match_def idle_def)
  ultimately show ?thesis by blast
qed

section \<open>Invariant and single use\<close>

lemma cstep_inv: "cstep C st e st' \<Longrightarrow> pairer_inv (cp_pairer st) \<Longrightarrow> pairer_inv (cp_pairer st')"
proof (induction rule: cstep.induct)
  case (c_issue st ttl k ne ng i p')
  then show ?case using Issue_inv[of "cp_pairer st" "Some k" ttl ne ng "Inr i" p'] by simp
next
  case (c_active st now n p')
  then show ?case using gcLocked_inv by (auto simp: ActiveCodes_def Let_def)
next
  case (c_begin st ng rid rsalt ne r p')
  then show ?case using Begin_inv[of "cp_pairer st" rid rsalt ng ne r p'] by simp
qed (auto dest: lock1_inv lock2_inv)

lemma lock2_accepts: "complete_lock2 p c now = (Inr u, p') \<Longrightarrow> map_of (pa_codes p) c \<noteq> None \<and> map_of (pa_codes p') c = None"
  by (auto simp: complete_lock2_def split: if_splits)

lemma lock2_codes: "complete_lock2 p d now = (r, p') \<Longrightarrow> map_of (pa_codes p') c \<noteq> None \<Longrightarrow> map_of (pa_codes p) c \<noteq> None"
  by (auto simp: complete_lock2_def split: if_splits)

lemma lock1_codes: "complete_lock1 p sid order now = (r, p') \<Longrightarrow> map_of (pa_codes p') c \<noteq> None \<Longrightarrow> map_of (pa_codes p) c \<noteq> None"
  using gc_code_subset lock1_inv_state(1) by metis

lemma cstep_codes:
  "cstep C st e st' \<Longrightarrow> map_of (pa_codes (cp_pairer st')) c \<noteq> None \<Longrightarrow>
     map_of (pa_codes (cp_pairer st)) c \<noteq> None \<or> e = CIssue c"
proof (induction rule: cstep.induct)
  case (c_issue st ttl k ne ng i p')
  have "pairer_step C (cp_pairer st) (EvIssue (is_Code i)) p'"
    using pairer_step.step_issue[OF c_issue(1) refl c_issue(2)] .
  then show ?case using pairer_step_codes[of C "cp_pairer st" _ p' c] c_issue(3) by fastforce
next
  case (c_active st now n p')
  have "pairer_step C (cp_pairer st) EvActive p'" using pairer_step.step_active[OF c_active(1)] .
  then show ?case using pairer_step_codes[of C "cp_pairer st" _ p' c] c_active(2) by fastforce
next
  case (c_begin st ng rid rsalt ne r p')
  have "pairer_step C (cp_pairer st) EvBegin p'" using pairer_step.step_begin[OF c_begin(1-3)] .
  then show ?case using pairer_step_codes[of C "cp_pairer st" _ p' c] c_begin(4) by fastforce
qed (auto dest: lock1_codes lock2_codes)

interpretation cpairer_codes: single_use "cstep C" "\<lambda>st c. map_of (pa_codes (cp_pairer st)) c \<noteq> None"
  "\<lambda>e c. e = CIssue c" "\<lambda>e c. e = CAccept c" for C
proof
  fix s e t and c :: string
  assume "cstep C s e t" "e = CAccept c"
  then have "cstep C s (CAccept c) t" by simp
  then show "map_of (pa_codes (cp_pairer s)) c \<noteq> None \<and> \<not> map_of (pa_codes (cp_pairer t)) c \<noteq> None"
    by (rule c_acceptE) (use lock2_accepts in auto)
next
  fix s e t and c :: string
  assume "cstep C s e t" "map_of (pa_codes (cp_pairer t)) c \<noteq> None"
  then show "map_of (pa_codes (cp_pairer s)) c \<noteq> None \<or> e = CIssue c" by (rule cstep_codes)
qed

section \<open>Failures pile up\<close>

definition one_code :: "pairer \<Rightarrow> string \<Rightarrow> time \<Rightarrow> pairer" where
  "one_code p c exp = p\<lparr>pa_codes := [(c, exp)], pa_sessions := [], pa_failures := []\<rparr>"

definition bad_flight :: "string \<Rightarrow> time \<Rightarrow> flight" where
  "bad_flight c now =
     \<lparr>fl_session = \<lparr>ss_ID = replicate SessionIDLen 0, ss_Salt = replicate SaltLen 0, ss_ExpiresAt = now + DefaultSessionTTL\<rparr>,
      fl_candidates = [c], fl_csr = [], fl_mac = []\<rparr>"

lemma take_bad_flight:
  assumes "now \<le> exp"
  shows "\<exists>es. run (cstep C) \<lparr>cp_pairer = one_code p c exp, cp_flight = fs\<rparr> es
    \<lparr>cp_pairer = one_code p c exp, cp_flight = bad_flight c now # fs\<rparr>"
proof -
  let ?i = "replicate SessionIDLen (0 :: byte)" and ?salt = "replicate SaltLen (0 :: byte)"
  let ?s = "\<lparr>ss_ID = ?i, ss_Salt = ?salt, ss_ExpiresAt = now + DefaultSessionTTL\<rparr>"
  let ?p = "one_code p c exp" let ?q = "?p\<lparr>pa_sessions := [(?i, ?s)]\<rparr>"
  have "Begin ?p now (Some ?i) (Some ?salt) now = (Inr ?s, ?q)"
    using assms
    by (simp add: Begin_def Let_def one_code_def gcLocked_def maxFailuresPerMin_def maxSessions_def go_time)
  from cstep.c_begin[of "\<lparr>cp_pairer = ?p, cp_flight = fs\<rparr>", simplified, OF this, of C]
  have b: "cstep C \<lparr>cp_pairer = ?p, cp_flight = fs\<rparr> CBegin \<lparr>cp_pairer = ?q, cp_flight = fs\<rparr>"
    by simp
  have "complete_lock1 ?q ?i id now = (Inr (?s, [c]), ?p)"
    using assms by (simp add: complete_lock1_def Let_def one_code_def gcLocked_def maxFailuresPerMin_def go_time)
  from cstep.c_take[of "\<lparr>cp_pairer = ?q, cp_flight = fs\<rparr>", simplified, OF this, of C "[]" "[]"]
  have t: "cstep C \<lparr>cp_pairer = ?q, cp_flight = fs\<rparr> CTake
      \<lparr>cp_pairer = ?p, cp_flight = bad_flight c now # fs\<rparr>"
    by (simp add: bad_flight_def)
  from b t show ?thesis by blast
qed

lemma take_bad_flights:
  assumes "now \<le> exp"
  shows "\<exists>es. run (cstep C) (idle (one_code p c exp)) es
    \<lparr>cp_pairer = one_code p c exp, cp_flight = replicate n (bad_flight c now)\<rparr>"
proof (induction n)
  case 0
  then show ?case by (auto simp: idle_def)
next
  case (Suc n)
  then show ?case using take_bad_flight[OF assms, of C p c "replicate n (bad_flight c now)"] run_append
    by (metis replicate_Suc)
qed

lemma fail_flight:
  "\<exists>e. cstep C \<lparr>cp_pairer = p, cp_flight = bad_flight c now # fs\<rparr> (CReject e)
    \<lparr>cp_pairer = p\<lparr>pa_failures := pa_failures p @ [now]\<rparr>, cp_flight = fs\<rparr>"
proof -
  let ?st = "\<lparr>cp_pairer = p, cp_flight = bad_flight c now # fs\<rparr>"
  have "ClientMAC k i h d \<noteq> []" for k i h d
    by (metis ClientMAC_length list.size(3) zero_neq_numeral)
  then have "flight_match C p (bad_flight c now) = ([], [])" by (simp add: flight_match_def bad_flight_def Let_def)
  then have "cstep C ?st (CReject (PairErr ErrBadCode))
      (?st\<lparr>cp_pairer := p\<lparr>pa_failures := pa_failures p @ [now]\<rparr>, cp_flight := [] @ fs\<rparr>)"
    by (intro cstep.c_reject[where f = "bad_flight c now" and c = "[]" and k = "[]" and now = now])
      (simp_all add: complete_lock2_def)
  then show ?thesis by auto
qed

lemma fail_flights:
  "\<exists>es. run (cstep C) \<lparr>cp_pairer = p, cp_flight = replicate n (bad_flight c now)\<rparr> es
    (idle (p\<lparr>pa_failures := pa_failures p @ replicate n now\<rparr>))"
proof (induction n arbitrary: p)
  case 0
  then show ?case by (auto simp: idle_def)
next
  case (Suc n)
  then show ?case using fail_flight[of C p c now "replicate n (bad_flight c now)"]
      Suc[of "p\<lparr>pa_failures := pa_failures p @ [now]\<rparr>"]
    by (fastforce simp: replicate_append_same)
qed

section \<open>Properties\<close>

text \<open>
  C2. Single use under concurrency. However the calls interleave, a code is accepted at most as often
  as it was issued, and the invariant of the pairer (distinct keys, well-formed codes and sessions, at
  most 32 open sessions) holds in every state.
\<close>

theorem code_single_use_concurrent:
  assumes "NewPairer cfg = Inr p0" "run (cstep C) (idle p0) es st"
  shows "length (filter (\<lambda>e. e = CAccept c) es) \<le> length (filter (\<lambda>e. e = CIssue c) es) \<and> pairer_inv (cp_pairer st)"
proof -
  have "map_of (pa_codes p0) c = None" using assms(1) by (auto simp: NewPairer_def split: option.splits)
  then have "length (filter (\<lambda>e. e = CAccept c) es) \<le> length (filter (\<lambda>e. e = CIssue c) es)"
    using cpairer_codes.uses_bounded[OF assms(2), of c] by (simp add: idle_def)
  moreover have "pairer_inv (cp_pairer (idle p0))" using NewPairer_wf[OF assms(1)] by (simp add: idle_def pairer_wf_def)
  then have "pairer_inv (cp_pairer st)"
    using run_invariant[OF assms(2), of "\<lambda>st. pairer_inv (cp_pairer st)"] cstep_inv by blast
  ultimately show ?thesis by simp
qed

lemma demo_crun: "run (cstep C) (idle demo_pairer) [CIssue demo_code]
    (idle (demo_pairer\<lparr>pa_codes := [(demo_code, demo_now + DefaultCodeTTL)]\<rparr>))"
  using cstep.c_issue[of "idle demo_pairer" 0 42 demo_now demo_now _ _ C] demo_issue
  by (auto simp: idle_def codeSpace_def)

theorem code_single_use_concurrent_witness:
  "length (filter (\<lambda>e. e = CAccept demo_code) [CIssue demo_code]) \<le> 1"
  using code_single_use_concurrent[OF demo_NewPairer demo_crun[of demo_crypto], of demo_code] by simp

text \<open>
  C20. The failure limit does not hold under concurrency. A \<^verbatim>\<open>Complete\<close> checks the limit in its
  first critical section and counts its failure in the second, and a session that was taken out no
  longer counts as open. So for every number \<open>n\<close>, a new pairer reaches, at one instant and with a
  single code issued, a state that remembers \<open>n\<close> failures within the last minute: \<open>n\<close> wrong guesses
  were tried against that code although the limit is five a minute.
\<close>

theorem failures_unbounded:
  assumes "NewPairer cfg = Inr p0"
  shows "\<exists>es p. run (cstep C) (idle p0) es (idle p) \<and> recent_failures now p = n"
proof -
  let ?c = "pad_decimal CodeDigits 0" and ?exp = "now + DefaultCodeTTL"
  have p0: "pa_codes p0 = []" "pa_sessions p0 = []" "pa_failures p0 = []"
    using assms by (auto simp: NewPairer_def split: option.splits)
  have iss: "Issue p0 0 (Some 0) now now = (Inr \<lparr>is_Code = ?c, is_ExpiresAt = ?exp\<rparr>, one_code p0 ?c ?exp)"
    using p0 by (simp add: Issue_def GenerateCode_def Let_def gcLocked_def one_code_def time_Add_def)
  have "cstep C (idle p0) (CIssue ?c) (idle (one_code p0 ?c ?exp))"
    using cstep.c_issue[of "idle p0" 0 0 now now _ _ C] iss by (fastforce simp: idle_def codeSpace_def)
  moreover obtain es1 where "run (cstep C) (idle (one_code p0 ?c ?exp)) es1
      \<lparr>cp_pairer = one_code p0 ?c ?exp, cp_flight = replicate n (bad_flight ?c now)\<rparr>"
    using take_bad_flights[of now ?exp C p0 ?c n] by (auto simp: go_time)
  moreover obtain es2 where "run (cstep C)
      \<lparr>cp_pairer = one_code p0 ?c ?exp, cp_flight = replicate n (bad_flight ?c now)\<rparr> es2
      (idle ((one_code p0 ?c ?exp)\<lparr>pa_failures := replicate n now\<rparr>))"
    using fail_flights[of C "one_code p0 ?c ?exp" n ?c now] by (auto simp: one_code_def)
  ultimately have "run (cstep C) (idle p0) (CIssue ?c # es1 @ es2)
      (idle ((one_code p0 ?c ?exp)\<lparr>pa_failures := replicate n now\<rparr>))"
    by (blast intro: run_append)
  moreover have "recent_failures now ((one_code p0 ?c ?exp)\<lparr>pa_failures := replicate n now\<rparr>) = n"
    by (simp add: recent_failures_def go_time)
  ultimately show ?thesis by blast
qed

theorem failures_unbounded_witness:
  "\<exists>es p. run (cstep demo_crypto) (idle demo_pairer) es (idle p) \<and> recent_failures demo_now p = 1000"
  by (rule failures_unbounded[OF demo_NewPairer])

end
