(* ===== verification/Transport.thy ===== *)
theory Transport
  imports Pem
begin

text \<open>
  \<^verbatim>\<open>internal/transport/grpc_mtls.go\<close>: the identity of a process, the TLS configurations built
  from it, and the role check on incoming calls. What \<^verbatim>\<open>crypto/tls\<close> does with such a
  configuration when it checks the peer's certificates is written out as \<open>tls_check_client\<close> and
  \<open>tls_check_server\<close>. gRPC itself is third-party: a server or a connection is the record of the
  options it was created with, and whether gRPC accepts a target address is an argument.
\<close>

section \<open>Identities\<close>

record tls_certificate =
  tc_Certificate :: "bytes list"
  tc_PrivateKey :: privkey
  tc_Leaf :: certificate

record mesh_identity =
  id_Principal :: principal
  id_CACert :: certificate
  id_Cert :: certificate
  id_Key :: privkey
  id_tlsCert :: tls_certificate
  id_pool :: "certificate list"

definition NewIdentity :: "crypto \<Rightarrow> certificate \<Rightarrow> certificate \<Rightarrow> privkey \<Rightarrow> time \<Rightarrow> err + mesh_identity" where
  "NewIdentity C caCert cert key now =
     (if Some (pub_of C key) \<noteq> PublicKey cert then Inl (CaErr ErrKeyMismatch)
      else and_then (VerifyAgainst C caCert cert now) (\<lambda>p.
        Inr \<lparr>id_Principal = p, id_CACert = caCert, id_Cert = cert, id_Key = key,
             id_tlsCert = \<lparr>tc_Certificate = [Raw cert], tc_PrivateKey = key, tc_Leaf = cert\<rparr>,
             id_pool = [caCert]\<rparr>))"

definition LoadIdentity :: "crypto \<Rightarrow> string \<Rightarrow> string \<Rightarrow> string \<Rightarrow> time \<Rightarrow> (fs, mesh_identity) io" where
  "LoadIdentity C dir certFile keyFile now =
     io_then (io_err (Wrap ''transport: read CA'') (ReadCert C dir CACertFile)) (\<lambda>ca.
     io_then (io_err (Wrap ''transport: read cert'') (ReadCert C dir certFile)) (\<lambda>cert.
     io_then (io_err (Wrap ''transport: read key'') (ReadKey C dir keyFile)) (\<lambda>key.
       io_of (NewIdentity C ca cert key now))))"

definition LoadNodeIdentity :: "crypto \<Rightarrow> string \<Rightarrow> time \<Rightarrow> (fs, mesh_identity) io" where
  "LoadNodeIdentity C dir now = LoadIdentity C dir NodeCertFile NodeKeyFile now"

definition LoadAdminIdentity :: "crypto \<Rightarrow> string \<Rightarrow> time \<Rightarrow> (fs, mesh_identity) io" where
  "LoadAdminIdentity C dir now = LoadIdentity C dir AdminCertFile AdminKeyFile now"

definition id_MeshID :: "mesh_identity \<Rightarrow> string" where
  "id_MeshID ident = pr_MeshID (id_Principal ident)"

definition id_Fingerprint :: "mesh_identity \<Rightarrow> string" where
  "id_Fingerprint ident = Fingerprint (id_Cert ident)"

definition verifyPeer :: "mesh_identity \<Rightarrow> certificate list list \<Rightarrow> err + unit" where
  "verifyPeer ident chs =
     (case chs of
        (leaf # _) # _ \<Rightarrow>
          and_then (PrincipalFromCert leaf) (\<lambda>p.
            if pr_MeshID p \<noteq> id_MeshID ident then Inl (Wrap ''peer and we'' (CaErr ErrMeshMismatch)) else Inr ())
      | _ \<Rightarrow> Inl (TransErr ErrNoPeerCert))"

section \<open>TLS configurations\<close>

datatype client_auth = NoClientCert | RequireAndVerifyClientCert

record tls_config =
  tls_MinVersion :: nat
  tls_Certificates :: "tls_certificate list"
  tls_ClientAuth :: client_auth
  tls_ClientCAs :: "certificate list"
  tls_RootCAs :: "certificate list"
  tls_ServerName :: string
  tls_InsecureSkipVerify :: bool
  tls_VerifyPeerCertificate :: "(certificate list list \<Rightarrow> err + unit) option"

definition VersionTLS13 :: nat where "VersionTLS13 = 0x0304"

definition tls_zero :: tls_config where
  "tls_zero = \<lparr>tls_MinVersion = 0, tls_Certificates = [], tls_ClientAuth = NoClientCert, tls_ClientCAs = [],
     tls_RootCAs = [], tls_ServerName = [], tls_InsecureSkipVerify = False, tls_VerifyPeerCertificate = None\<rparr>"

definition ServerTLS :: "mesh_identity \<Rightarrow> tls_config" where
  "ServerTLS ident =
     tls_zero\<lparr>tls_MinVersion := VersionTLS13, tls_Certificates := [id_tlsCert ident],
       tls_ClientAuth := RequireAndVerifyClientCert, tls_ClientCAs := id_pool ident,
       tls_VerifyPeerCertificate := Some (verifyPeer ident)\<rparr>"

definition ClientTLS :: "mesh_identity \<Rightarrow> string \<Rightarrow> tls_config" where
  "ClientTLS ident serverNodeID =
     tls_zero\<lparr>tls_MinVersion := VersionTLS13, tls_Certificates := [id_tlsCert ident],
       tls_RootCAs := id_pool ident, tls_ServerName := serverNodeID,
       tls_VerifyPeerCertificate := Some (verifyPeer ident)\<rparr>"

text \<open>
  The check of the peer's certificates in a handshake. A pool of one root is verified as in
  \<open>x509_Verify\<close>; any other pool cannot occur here and verifies nothing. Further certificates that the
  peer sends do not matter: the mesh CA has path length zero, so no intermediate is accepted.
\<close>

definition pool_Verify ::
  "crypto \<Rightarrow> certificate list \<Rightarrow> certificate \<Rightarrow> time \<Rightarrow> ext_key_usage list \<Rightarrow> string option \<Rightarrow> err + certificate list list" where
  "pool_Verify C pool leaf now usages name =
     (case pool of [root] \<Rightarrow> x509_Verify C root leaf now usages name
      | _ \<Rightarrow> Inl (Msg ''x509: certificate signed by unknown authority''))"

definition run_hook :: "tls_config \<Rightarrow> certificate list list \<Rightarrow> err + unit" where
  "run_hook cfg chs = (case tls_VerifyPeerCertificate cfg of None \<Rightarrow> Inr () | Some h \<Rightarrow> h chs)"

definition tls_check_client :: "crypto \<Rightarrow> tls_config \<Rightarrow> certificate list \<Rightarrow> time \<Rightarrow> err + unit" where
  "tls_check_client C cfg certs now =
     (case tls_ClientAuth cfg of
        NoClientCert \<Rightarrow> Inr ()
      | RequireAndVerifyClientCert \<Rightarrow>
          (case certs of
             [] \<Rightarrow> Inl (Msg ''tls: client didn't provide a certificate'')
           | leaf # _ \<Rightarrow>
               and_then (pool_Verify C (tls_ClientCAs cfg) leaf now [ExtKeyUsageClientAuth] None) (run_hook cfg)))"

definition tls_check_server :: "crypto \<Rightarrow> tls_config \<Rightarrow> certificate list \<Rightarrow> time \<Rightarrow> err + unit" where
  "tls_check_server C cfg certs now =
     (case certs of
        [] \<Rightarrow> Inl (Msg ''tls: no certificates'')
      | leaf # _ \<Rightarrow>
          if tls_InsecureSkipVerify cfg then run_hook cfg []
          else and_then (pool_Verify C (tls_RootCAs cfg) leaf now [ExtKeyUsageServerAuth] (Some (tls_ServerName cfg)))
                 (run_hook cfg))"

section \<open>Servers and connections\<close>

datatype auth_info = TLSInfo "certificate list" | OtherAuth

text \<open>The context of a call: no peer, or a peer with its authentication.\<close>

type_synonym call_ctx = "auth_info option"

type_synonym interceptor = "call_ctx \<Rightarrow> string \<Rightarrow> err + unit"

record keepalive =
  ka_Time :: duration
  ka_Timeout :: duration
  ka_PermitWithoutStream :: bool

record grpc_server =
  gs_TLS :: tls_config
  gs_Keepalive :: keepalive
  gs_MinTime :: duration
  gs_Unary :: "interceptor list"
  gs_Stream :: "interceptor list"

record grpc_conn =
  gc_Addr :: string
  gc_TLS :: tls_config
  gc_Keepalive :: keepalive

definition transport_NewServer :: "mesh_identity \<Rightarrow> interceptor list \<Rightarrow> interceptor list \<Rightarrow> grpc_server" where
  "transport_NewServer ident unary stream =
     \<lparr>gs_TLS = ServerTLS ident,
      gs_Keepalive = \<lparr>ka_Time = 30 * Second, ka_Timeout = 10 * Second, ka_PermitWithoutStream = True\<rparr>,
      gs_MinTime = 10 * Second, gs_Unary = unary, gs_Stream = stream\<rparr>"

definition Dial :: "(string \<Rightarrow> err option) \<Rightarrow> mesh_identity \<Rightarrow> string \<Rightarrow> string \<Rightarrow> err + grpc_conn" where
  "Dial grpc_target ident addr serverNodeID =
     (case grpc_target addr of
        Some e \<Rightarrow> Inl e
      | None \<Rightarrow>
          Inr \<lparr>gc_Addr = addr, gc_TLS = ClientTLS ident serverNodeID,
               gc_Keepalive = \<lparr>ka_Time = 30 * Second, ka_Timeout = 10 * Second, ka_PermitWithoutStream = True\<rparr>\<rparr>)"

section \<open>Callers and roles\<close>

definition PeerPrincipal :: "call_ctx \<Rightarrow> principal option" where
  "PeerPrincipal ctx =
     (case ctx of
        Some (TLSInfo (c # _)) \<Rightarrow> (case PrincipalFromCert c of Inl _ \<Rightarrow> None | Inr p \<Rightarrow> Some p)
      | _ \<Rightarrow> None)"

definition role_check :: "string \<Rightarrow> string list \<Rightarrow> call_ctx \<Rightarrow> string \<Rightarrow> err + unit" where
  "role_check methodPrefix roles ctx meth =
     (if 0 < length methodPrefix \<and>
         (length meth < length methodPrefix \<or> take (length methodPrefix) meth \<noteq> methodPrefix) then Inr ()
      else (case PeerPrincipal ctx of
              None \<Rightarrow> Inl (Status Unauthenticated (TransErr ErrNoPeerCert))
            | Some p \<Rightarrow>
                if pr_Role p \<notin> set roles then Inl (Status PermissionDenied (Wrap meth (TransErr ErrNotAuthorized)))
                else Inr ()))"

text \<open>
  \<^verbatim>\<open>RequireRole\<close>: the unary and the stream interceptor, each around a handler \<open>h\<close> that may
  change the state of the server.
\<close>

definition RequireRole_unary ::
  "string \<Rightarrow> string list \<Rightarrow> call_ctx \<Rightarrow> 'req \<Rightarrow> string \<Rightarrow> (call_ctx \<Rightarrow> 'req \<Rightarrow> ('s, 'r) io) \<Rightarrow> ('s, 'r) io" where
  "RequireRole_unary methodPrefix roles ctx req fullMethod h =
     io_then (io_of (role_check methodPrefix roles ctx fullMethod)) (\<lambda>_. h ctx req)"

definition RequireRole_stream ::
  "string \<Rightarrow> string list \<Rightarrow> 'srv \<Rightarrow> call_ctx \<Rightarrow> string \<Rightarrow> ('srv \<Rightarrow> call_ctx \<Rightarrow> ('s, unit) io) \<Rightarrow> ('s, unit) io" where
  "RequireRole_stream methodPrefix roles srv ctx fullMethod h =
     io_then (io_of (role_check methodPrefix roles ctx fullMethod)) (\<lambda>_. h srv ctx)"

section \<open>Lemmas\<close>

definition mk_identity :: "principal \<Rightarrow> certificate \<Rightarrow> certificate \<Rightarrow> privkey \<Rightarrow> mesh_identity" where
  "mk_identity p caCert cert key =
     \<lparr>id_Principal = p, id_CACert = caCert, id_Cert = cert, id_Key = key,
      id_tlsCert = \<lparr>tc_Certificate = [Raw cert], tc_PrivateKey = key, tc_Leaf = cert\<rparr>, id_pool = [caCert]\<rparr>"

lemma NewIdentity_Inr:
  "NewIdentity C caCert cert key now = Inr i \<longleftrightarrow>
     PublicKey cert = Some (pub_of C key) \<and> (\<exists>p. VerifyAgainst C caCert cert now = Inr p \<and> i = mk_identity p caCert cert key)"
  by (auto simp: NewIdentity_def mk_identity_def go_result)

lemma ServerTLS_sel [simp]:
  "tls_ClientAuth (ServerTLS i) = RequireAndVerifyClientCert" "tls_ClientCAs (ServerTLS i) = id_pool i"
  "tls_VerifyPeerCertificate (ServerTLS i) = Some (verifyPeer i)"
  by (simp_all add: ServerTLS_def)

lemma ClientTLS_sel [simp]:
  "tls_RootCAs (ClientTLS i n) = id_pool i" "tls_ServerName (ClientTLS i n) = n"
  "tls_InsecureSkipVerify (ClientTLS i n) = False" "tls_VerifyPeerCertificate (ClientTLS i n) = Some (verifyPeer i)"
  by (simp_all add: ClientTLS_def tls_zero_def)

lemma verifyPeer_iff:
  "verifyPeer i [leaf # rest] = Inr () \<longleftrightarrow> (\<exists>p. PrincipalFromCert leaf = Inr p \<and> pr_MeshID p = id_MeshID i)"
  by (cases "PrincipalFromCert leaf") (auto simp: verifyPeer_def)

text \<open>Chain check and hook together are \<^verbatim>\<open>VerifyAgainst\<close> plus usage and name.\<close>

lemma chain_and_hook:
  assumes "id_pool i = [root]" "Subject_Organization root \<noteq> []" "id_MeshID i = hd (Subject_Organization root)"
    "tls_VerifyPeerCertificate cfg = Some (verifyPeer i)"
  shows "and_then (pool_Verify C (id_pool i) leaf t us h) (run_hook cfg) = Inr () \<longleftrightarrow>
    (\<exists>p. VerifyAgainst C root leaf t = Inr p) \<and> eku_ok us leaf \<and> (leaf = root \<or> eku_ok us root) \<and>
    (\<forall>n. h = Some n \<longrightarrow> n \<in> set (DNSNames leaf))"
proof -
  have hook: "run_hook cfg [l # rest] = Inr () \<longleftrightarrow>
      (\<exists>p. PrincipalFromCert l = Inr p \<and> pr_MeshID p = hd (Subject_Organization root))" for l rest
    by (simp add: run_hook_def assms(3,4) verifyPeer_iff)
  have v: "x509_Verify C root leaf t us h = Inr chs \<longleftrightarrow>
      time_valid t leaf \<and> (\<forall>n. h = Some n \<longrightarrow> n \<in> set (DNSNames leaf)) \<and> eku_ok us leaf \<and>
      (leaf = root \<and> chs = [[leaf]] \<or> leaf \<noteq> root \<and> chains_to C root leaf t \<and> eku_ok us root \<and> chs = [[leaf, root]])" for chs
    by (auto simp: x509_Verify_def split: if_splits option.splits)
  have "and_then (pool_Verify C (id_pool i) leaf t us h) (run_hook cfg) = Inr () \<longleftrightarrow>
      (\<exists>chs. x509_Verify C root leaf t us h = Inr chs \<and> run_hook cfg chs = Inr ())"
    by (simp add: pool_Verify_def assms(1) go_result)
  also have "\<dots> \<longleftrightarrow> (\<exists>p. VerifyAgainst C root leaf t = Inr p) \<and> eku_ok us leaf \<and> (leaf = root \<or> eku_ok us root) \<and>
      (\<forall>n. h = Some n \<longrightarrow> n \<in> set (DNSNames leaf))"
    unfolding v VerifyAgainst_Inr using assms(2) hook
    by (cases "leaf = root") (simp only: simp_thms; blast)+
  finally show ?thesis .
qed

lemma identity_pool:
  assumes "NewIdentity C caCert cert key now = Inr i"
  shows "id_pool i = [caCert]" "Subject_Organization caCert \<noteq> []" "id_MeshID i = hd (Subject_Organization caCert)"
  using assms pki_verify.verify_mesh by (auto simp: NewIdentity_Inr mk_identity_def id_MeshID_def)

lemma tls_check_client_iff:
  assumes "NewIdentity C caCert cert key now = Inr i"
  shows "tls_check_client C (ServerTLS i) certs t = Inr () \<longleftrightarrow>
    (\<exists>leaf rest p. certs = leaf # rest \<and> VerifyAgainst C caCert leaf t = Inr p \<and>
       eku_ok [ExtKeyUsageClientAuth] leaf \<and> (leaf = caCert \<or> eku_ok [ExtKeyUsageClientAuth] caCert))"
  using chain_and_hook[OF identity_pool[OF assms] ServerTLS_sel(3), of C _ t "[ExtKeyUsageClientAuth]" None]
  by (cases certs) (simp_all add: tls_check_client_def)

lemma tls_check_server_iff:
  assumes "NewIdentity C caCert cert key now = Inr i"
  shows "tls_check_server C (ClientTLS i n) certs t = Inr () \<longleftrightarrow>
    (\<exists>leaf rest p. certs = leaf # rest \<and> VerifyAgainst C caCert leaf t = Inr p \<and> n \<in> set (DNSNames leaf) \<and>
       eku_ok [ExtKeyUsageServerAuth] leaf \<and> (leaf = caCert \<or> eku_ok [ExtKeyUsageServerAuth] caCert))"
  using chain_and_hook[OF identity_pool[OF assms] ClientTLS_sel(4), of C _ t "[ExtKeyUsageServerAuth]" "Some n"]
  by (cases certs) (auto simp: tls_check_server_def)

lemma issued_leaf:
  assumes C: "crypto_ok C" and wf: "ca_wf C ca" and now: "clock_ok now" and ttl: "sr_TTL req \<le> 20 * 365 * 24 * Hour"
    and sign: "Sign C ca req (Some s) now ent = Inr c"
  shows "DNSNames c = (if pr_Role (sr_Principal req) = RoleNode then [pr_Name (sr_Principal req)] else []) \<and>
    ExtKeyUsage c = [ExtKeyUsageServerAuth, ExtKeyUsageClientAuth]"
proof -
  have a: "sign_allowed ca req" using sign Sign_rejects[of ca req C "Some s" now ent] by auto
  then obtain pk where pk: "sr_PublicKey req = Some pk" by (auto simp: sign_allowed_def)
  show ?thesis
    by (rule Sign_ok[OF C wf now a ttl pk, of s ent]) (use sign in \<open>auto simp: leaf_template_def\<close>)
qed

section \<open>The interface of a caller check\<close>

text \<open>
  A guard on a set of methods: calls to guarded methods reach the handler exactly when the caller is
  authenticated as an allowed principal; other calls always do.
\<close>

locale role_guard =
  fixes check :: "call_ctx \<Rightarrow> string \<Rightarrow> err + unit"
    and guarded :: "string \<Rightarrow> bool"
    and allowed :: "principal \<Rightarrow> bool"
  assumes check_guarded: "guarded m \<Longrightarrow> check ctx m = Inr () \<longleftrightarrow> (\<exists>p. PeerPrincipal ctx = Some p \<and> allowed p)"
    and check_open: "\<not> guarded m \<Longrightarrow> check ctx m = Inr ()"
begin

lemma guarded_runs:
  "guarded m \<Longrightarrow> PeerPrincipal ctx = Some p \<Longrightarrow> allowed p \<Longrightarrow> io_then (io_of (check ctx m)) (\<lambda>_. h) st = h st"
  using check_guarded[of m ctx] by (simp add: io_then_def)

lemma guarded_blocks:
  assumes "guarded m" "\<not> (\<exists>p. PeerPrincipal ctx = Some p \<and> allowed p)"
  shows "\<exists>e. io_then (io_of (check ctx m)) (\<lambda>_. h) st = (Inl e, st)"
proof (cases "check ctx m")
  case (Inl e)
  then show ?thesis by (simp add: io_then_def)
next
  case (Inr u)
  then show ?thesis using check_guarded[of m ctx] assms by simp
qed

lemma open_runs: "\<not> guarded m \<Longrightarrow> io_then (io_of (check ctx m)) (\<lambda>_. h) st = h st"
  using check_open[of m ctx] by (simp add: io_then_def)

end

interpretation role_checked: role_guard "role_check pfx roles" "prefix pfx" "\<lambda>p. pr_Role p \<in> set roles" for pfx roles
proof
  have pfx: "prefix pfx m \<longleftrightarrow> \<not> (0 < length pfx \<and> (length m < length pfx \<or> take (length pfx) m \<noteq> pfx))" for m
    by (auto simp: prefix_def) (metis append_take_drop_id)
  fix m ctx
  show "prefix pfx m \<Longrightarrow> role_check pfx roles ctx m = Inr () \<longleftrightarrow>
      (\<exists>p. PeerPrincipal ctx = Some p \<and> pr_Role p \<in> set roles)"
    by (auto simp: role_check_def pfx split: option.splits)
  show "\<not> prefix pfx m \<Longrightarrow> role_check pfx roles ctx m = Inr ()"
    by (simp add: role_check_def pfx)
qed

section \<open>Properties\<close>


text \<open>A node identity issued by the demo CA.\<close>

lemma demo_identity:
  obtains c i where "Sign demo_crypto demo_ca demo_req (Some 3) demo_now [] = Inr c"
    "NewIdentity demo_crypto (ca_Cert demo_ca) c (PrivKey P256 9) demo_now = Inr i"
    "time_valid demo_now c" "time_valid demo_now (ca_Cert demo_ca)"
proof -
  obtain c where c: "Sign demo_crypto demo_ca demo_req (Some 3) demo_now [] = Inr c" "PublicKey c = sr_PublicKey demo_req"
    "NotBefore c = trunc_sec (demo_now - backdate)" "NotAfter c = trunc_sec (demo_now + sr_TTL demo_req)"
    "\<forall>t. time_valid t c \<and> time_valid t (ca_Cert demo_ca) \<longrightarrow>
        VerifyAgainst demo_crypto (ca_Cert demo_ca) c t = Inr (sr_Principal demo_req)"
    using pki_ca.issue_ok[OF conjI[OF demo_crypto_ok demo_ca_wf] demo_clock demo_sign_allowed demo_ttl] by metis
  have t1: "time_valid demo_now c"
    by (simp add: time_valid_def c(3,4) time_ops demo_req_def demo_now_def trunc_sec_def go_time)
  have t2: "time_valid demo_now (ca_Cert demo_ca)"
    by (simp add: time_valid_def demo_ca_def ca_template_def time_ops demo_now_def trunc_sec_def go_time)
  have "PublicKey c = Some (pub_of demo_crypto (PrivKey P256 9))" using c(2) by (simp add: demo_req_def)
  then obtain i where "NewIdentity demo_crypto (ca_Cert demo_ca) c (PrivKey P256 9) demo_now = Inr i"
    using c(5) t1 t2 by (auto simp: NewIdentity_Inr)
  then show thesis using that c(1) t1 t2 by blast
qed




text \<open>
  The role check. A call under the method prefix reaches the handler exactly when the caller's
  certificate names a principal with one of the roles; otherwise it is refused as unauthenticated or
  as not permitted and the state does not change. Calls outside the prefix are not affected.
\<close>

lemma RequireRole_spec:
  "if prefix pfx m \<and> \<not> (\<exists>p. PeerPrincipal ctx = Some p \<and> pr_Role p \<in> set roles)
   then RequireRole_unary pfx roles ctx req m h st =
     (Inl (if PeerPrincipal ctx = None then Status Unauthenticated (TransErr ErrNoPeerCert)
           else Status PermissionDenied (Wrap m (TransErr ErrNotAuthorized))), st)
   else RequireRole_unary pfx roles ctx req m h st = h ctx req st"
proof (cases "prefix pfx m \<and> \<not> (\<exists>p. PeerPrincipal ctx = Some p \<and> pr_Role p \<in> set roles)")
  case True
  then have "\<not> (0 < length pfx \<and> (length m < length pfx \<or> take (length pfx) m \<noteq> pfx))" by (auto simp: prefix_def)
  then show ?thesis using True
    by (cases "PeerPrincipal ctx") (auto simp: RequireRole_unary_def role_check_def io_then_def)
next
  case False
  then have "RequireRole_unary pfx roles ctx req m h st = h ctx req st"
    unfolding RequireRole_unary_def
    using role_checked.guarded_runs[of pfx m ctx _ roles "h ctx req" st] role_checked.open_runs[of pfx m roles ctx "h ctx req" st]
    by blast
  then show ?thesis unfolding if_not_P[OF False] .
qed

end
