(* ===== verification/Pairing_Server.thy ===== *)
theory Pairing_Server
  imports Pairer_Concurrent Transport
begin

text \<open>
  \<^verbatim>\<open>internal/pairing/server.go\<close>: the gRPC service around the pairer, with the messages of
  \<^verbatim>\<open>pairing.proto\<close>. Logging is left out. A handler returns the response or the gRPC status,
  and the server with its pairer updated.
\<close>

section \<open>Messages\<close>

record begin_request =
  brq_NodeId :: string

record begin_response =
  brs_SessionId :: bytes
  brs_Salt :: bytes
  brs_MeshId :: string
  brs_ExpiresAt :: time

record complete_request =
  crq_SessionId :: bytes
  crq_CsrDer :: bytes
  crq_ClientMac :: bytes

record complete_response =
  crs_CaCertDer :: bytes
  crs_NodeCertDer :: bytes
  crs_MeshId :: string
  crs_CoordinatorNodeId :: string
  crs_CoordinatorGrpcAddr :: string
  crs_ServerMac :: bytes

section \<open>The service\<close>

record server_config =
  sc_Identity :: "mesh_identity option"
  sc_CA :: "CA option"
  sc_GRPCPort :: int
  sc_NodeTTL :: duration

record pairing_server =
  ps_Identity :: mesh_identity
  ps_CA :: CA
  ps_GRPCPort :: int
  ps_Pairer :: pairer
  ps_TLS :: tls_config

definition pairing_NewServer :: "server_config \<Rightarrow> err + pairing_server" where
  "pairing_NewServer cfg =
     (case (sc_Identity cfg, sc_CA cfg) of
        (Some ident, Some ca) \<Rightarrow>
          if id_MeshID ident \<noteq> MeshID ca then Inl (CaErr ErrMeshMismatch)
          else and_then (NewPairer \<lparr>pc_CA = Some ca, pc_ServerCert = Some (id_Cert ident), pc_NodeTTL = sc_NodeTTL cfg\<rparr>) (\<lambda>p.
            Inr \<lparr>ps_Identity = ident, ps_CA = ca, ps_GRPCPort = sc_GRPCPort cfg, ps_Pairer = p,
                 ps_TLS = tls_zero\<lparr>tls_MinVersion := VersionTLS13,
                   tls_Certificates := [\<lparr>tc_Certificate = [Raw (id_Cert ident)], tc_PrivateKey = id_Key ident,
                                         tc_Leaf = id_Cert ident\<rparr>],
                   tls_ClientAuth := NoClientCert\<rparr>\<rparr>)
      | _ \<Rightarrow> Inl (Msg ''pairing: Identity and CA are required''))"

definition server_Pairer :: "pairing_server \<Rightarrow> pairer" where
  "server_Pairer s = ps_Pairer s"

definition toStatus :: "err \<Rightarrow> err" where
  "toStatus e =
     (if errors_Is e (PairErr ErrNoActiveCode) then Status FailedPrecondition e
      else if errors_Is e (PairErr ErrTooManyAttempts) \<or> errors_Is e (PairErr ErrBusy) then Status ResourceExhausted e
      else if errors_Is e (PairErr ErrUnknownSession) then Status NotFound e
      else if errors_Is e (PairErr ErrBadCode) then Status PermissionDenied e
      else if errors_Is e (CaErr ErrBadCSR) \<or> errors_Is e (CaErr ErrInvalidNodeID) then Status InvalidArgument e
      else Status Internal e)"

definition server_Begin ::
  "begin_request \<Rightarrow> time \<Rightarrow> bytes option \<Rightarrow> bytes option \<Rightarrow> time \<Rightarrow> (pairing_server, begin_response) io" where
  "server_Begin req now_gc rid rsalt now_exp s =
     (case Begin (ps_Pairer s) now_gc rid rsalt now_exp of
        (Inl e, p) \<Rightarrow> (Inl (toStatus e), s\<lparr>ps_Pairer := p\<rparr>)
      | (Inr sess, p) \<Rightarrow>
          (Inr \<lparr>brs_SessionId = ss_ID sess, brs_Salt = ss_Salt sess, brs_MeshId = MeshID (ps_CA s),
                brs_ExpiresAt = ss_ExpiresAt sess\<rparr>, s\<lparr>ps_Pairer := p\<rparr>))"

definition server_Complete :: "crypto \<Rightarrow> complete_request \<Rightarrow> complete_env \<Rightarrow> (pairing_server, complete_response) io" where
  "server_Complete C req env s =
     (case Complete C (ps_Pairer s) (crq_SessionId req) (crq_CsrDer req) (crq_ClientMac req) env of
        (Inl e, p) \<Rightarrow> (Inl (toStatus e), s\<lparr>ps_Pairer := p\<rparr>)
      | (Inr b, p) \<Rightarrow>
          (Inr \<lparr>crs_CaCertDer = Raw (bd_CACert b), crs_NodeCertDer = Raw (bd_NodeCert b), crs_MeshId = bd_MeshID b,
                crs_CoordinatorNodeId = pr_Name (id_Principal (ps_Identity s)),
                crs_CoordinatorGrpcAddr = '':'' @ Itoa (ps_GRPCPort s), crs_ServerMac = bd_ServerMAC b\<rparr>,
           s\<lparr>ps_Pairer := p\<rparr>))"

section \<open>Lemmas\<close>

lemma pairing_NewServer_ok:
  assumes "pairing_NewServer cfg = Inr s"
  shows "sc_Identity cfg = Some (ps_Identity s) \<and> sc_CA cfg = Some (ps_CA s) \<and> id_MeshID (ps_Identity s) = MeshID (ps_CA s) \<and>
    ps_GRPCPort s = sc_GRPCPort cfg \<and> pa_ca (ps_Pairer s) = ps_CA s \<and> pa_serverCert (ps_Pairer s) = id_Cert (ps_Identity s) \<and>
    pairer_wf (ps_Pairer s) \<and> tls_ClientAuth (ps_TLS s) = NoClientCert"
proof -
  obtain ident ca where c: "sc_Identity cfg = Some ident" "sc_CA cfg = Some ca"
    using assms by (auto simp: pairing_NewServer_def split: option.splits)
  then obtain p where p: "NewPairer \<lparr>pc_CA = Some ca, pc_ServerCert = Some (id_Cert ident), pc_NodeTTL = sc_NodeTTL cfg\<rparr> = Inr p"
    using assms by (auto simp: pairing_NewServer_def go_result split: if_splits)
  show ?thesis using assms c p NewPairer_wf[OF p] NewPairer_sel[OF p]
    by (auto simp: pairing_NewServer_def tls_zero_def split: if_splits)
qed

definition status_of :: "err + 'a \<Rightarrow> status_code option" where
  "status_of r = (case r of Inl (Status c e) \<Rightarrow> Some c | _ \<Rightarrow> None)"

lemma status_toStatus [simp]: "status_of (Inl (toStatus e) :: err + 'a) =
    Some (if errors_Is e (PairErr ErrNoActiveCode) then FailedPrecondition
      else if errors_Is e (PairErr ErrTooManyAttempts) \<or> errors_Is e (PairErr ErrBusy) then ResourceExhausted
      else if errors_Is e (PairErr ErrUnknownSession) then NotFound
      else if errors_Is e (PairErr ErrBadCode) then PermissionDenied
      else if errors_Is e (CaErr ErrBadCSR) \<or> errors_Is e (CaErr ErrInvalidNodeID) then InvalidArgument
      else Internal)"
  by (simp add: status_of_def toStatus_def)

lemma status_Inr [simp]: "status_of (Inr x) = None"
  by (simp add: status_of_def)

section \<open>Properties\<close>

text \<open>
  C24. What a joiner learns from a failed \<^verbatim>\<open>Complete\<close>. The status is NotFound exactly for an unknown or
  expired session, ResourceExhausted exactly above the failure limit, and PermissionDenied exactly for
  a MAC that proves no active code; every other answer, success or not, is given only to a caller who
  proved an active code, and that code is then spent, even when the answer is an error about the
  request.
\<close>

theorem server_Complete_status:
  assumes inv: "pairer_inv (ps_Pairer s)" and order: "\<And>xs. set (ce_order env xs) = set xs"
    and call: "server_Complete C req env s = (r, s')"
  shows "let p = ps_Pairer s; now = ce_now_gc env; so = session_at now p (crq_SessionId req);
      proved = (\<lambda>c. code_at now p c \<and> (\<exists>ss. so = Some ss \<and> proves_code C p ss (crq_CsrDer req) (crq_ClientMac req) c))
    in (status_of r = Some NotFound \<longleftrightarrow> so = None) \<and>
       (status_of r = Some ResourceExhausted \<longleftrightarrow> so \<noteq> None \<and> maxFailuresPerMin \<le> recent_failures now p) \<and>
       (status_of r = Some PermissionDenied \<longleftrightarrow>
          so \<noteq> None \<and> recent_failures now p < maxFailuresPerMin \<and> (\<forall>c. \<not> proved c)) \<and>
       (status_of r \<notin> {Some NotFound, Some ResourceExhausted, Some PermissionDenied} \<longrightarrow>
          (\<exists>c. proved c \<and> map_of (pa_codes (ps_Pairer s')) c = None))"
proof -
  let ?p = "ps_Pairer s" and ?now = "ce_now_gc env"
  obtain r1 p1 where c: "Complete C ?p (crq_SessionId req) (crq_CsrDer req) (crq_ClientMac req) env = (r1, p1)" by fastforce
  have s': "ps_Pairer s' = p1" and st: "status_of r = (case r1 of Inl e \<Rightarrow> status_of (Inl (toStatus e) :: err + unit) | Inr b \<Rightarrow> None)"
    using call c by (auto simp: server_Complete_def split: sum.splits)
  obtain out where out: "out \<in> complete_outcomes C ?now ?p (crq_SessionId req) (crq_CsrDer req) (crq_ClientMac req)"
    and res: "case out of Inl e \<Rightarrow> r1 = Inl e \<and> (\<forall>c. map_of (pa_codes p1) c \<noteq> None \<longleftrightarrow> code_at ?now ?p c)
       | Inr (ss, d, k) \<Rightarrow> r1 = complete_issue C (pa_ca ?p) (pa_nodeTTL ?p) ss k (crq_CsrDer req) (ce_serial env)
             (ce_now_sign env) (ce_entropy env) \<and>
           (\<forall>c. map_of (pa_codes p1) c \<noteq> None \<longleftrightarrow> code_at ?now ?p c \<and> c \<noteq> d)"
    using Complete_result[OF inv order c] by blast
  show ?thesis
  proof (cases out)
    case (Inl e)
    then show ?thesis using out res st s'
      by (auto simp: complete_outcomes_def Let_def split: option.splits if_splits)
  next
    case (Inr x)
    obtain ss d k where x: "x = (ss, d, k)" by (cases x)
    have ok: "session_at ?now ?p (crq_SessionId req) = Some ss" "recent_failures ?now ?p < maxFailuresPerMin"
      "code_at ?now ?p d" "proves_code C ?p ss (crq_CsrDer req) (crq_ClientMac req) d"
      using out Inr x by (auto simp: complete_outcomes_def Let_def split: option.splits if_splits)
    have "status_of r \<notin> {Some NotFound, Some ResourceExhausted, Some PermissionDenied}"
      using res Inr x st complete_issue_errors[of C "pa_ca ?p" "pa_nodeTTL ?p" ss k] by (auto split: sum.splits)
    then show ?thesis using ok res Inr x s' by (auto simp: Let_def)
  qed
qed

definition demo_server :: pairing_server where
  "demo_server = \<lparr>ps_Identity = mk_identity (sr_Principal demo_req) (ca_Cert demo_ca) (ca_Cert demo_ca) (PrivKey P256 7),
     ps_CA = demo_ca, ps_GRPCPort = 7443, ps_Pairer = demo_ready, ps_TLS = tls_zero\<rparr>"

theorem server_Complete_status_witness:
  "status_of (fst (server_Complete demo_crypto \<lparr>crq_SessionId = demo_sid, crq_CsrDer = [], crq_ClientMac = []\<rparr> demo_env
     demo_server)) = Some PermissionDenied"
proof -
  let ?req = "\<lparr>crq_SessionId = demo_sid, crq_CsrDer = [], crq_ClientMac = []\<rparr>"
  have inv: "pairer_inv (ps_Pairer demo_server)" using demo_ready_inv by (simp add: demo_server_def)
  have order: "\<And>xs. set (ce_order demo_env xs) = set xs" by (simp add: demo_env_def)
  obtain r s' where c: "server_Complete demo_crypto ?req demo_env demo_server = (r, s')" by fastforce
  have "\<not> proves_code demo_crypto demo_ready ss d [] c" for ss d c
    unfolding proves_code_def by (metis ClientMAC_length list.size(3) zero_neq_numeral)
  moreover have "session_at (ce_now_gc demo_env) (ps_Pairer demo_server) demo_sid = Some demo_session"
    using demo_ready_session by (simp add: demo_env_def demo_server_def)
  moreover have "recent_failures (ce_now_gc demo_env) (ps_Pairer demo_server) < maxFailuresPerMin"
    by (simp add: recent_failures_def demo_server_def demo_ready_def demo_pairer_def maxFailuresPerMin_def)
  ultimately show ?thesis using server_Complete_status[OF inv order c] c by (simp add: Let_def demo_server_def)
qed

end
