(* ===== verification/Pairing_Client.thy ===== *)
theory Pairing_Client
  imports Pairing_Server
begin

text \<open>
  \<^verbatim>\<open>internal/pairing/client.go\<close>: the joiner. The two remote calls are arguments (\<open>rpc\<close>): functions
  from the request to the answer and what the connection says of the peer, so the theorems hold for
  any server and any network. A connection carries a certificate when its \<open>auth_info\<close> is \<open>TLSInfo\<close>.
\<close>

section \<open>Operations\<close>

type_synonym rpc_peer = "auth_info option"

record rpc =
  rpc_NewClient :: "string \<Rightarrow> err option"
  rpc_Begin :: "begin_request \<Rightarrow> err + begin_response \<times> rpc_peer"
  rpc_Complete :: "complete_request \<Rightarrow> err + complete_response \<times> rpc_peer"

record join_result =
  jr_Key :: privkey
  jr_Bundle :: pair_bundle
  jr_CoordinatorNodeID :: string
  jr_CoordinatorGRPCAddr :: string

definition certFromPeer :: "rpc_peer \<Rightarrow> err + certificate" where
  "certFromPeer p =
     (case p of Some (TLSInfo (c # _)) \<Rightarrow> Inr c | _ \<Rightarrow> Inl (Msg ''pairing: no server certificate on connection''))"

text \<open>
  \<open>d\<close> and \<open>ent\<close> are the randomness of the key and of the request's signature; \<open>t1\<close> and \<open>t2\<close> the two
  readings of the clock.
\<close>

definition Join ::
  "crypto \<Rightarrow> rpc \<Rightarrow> string \<Rightarrow> string \<Rightarrow> string \<Rightarrow> nat option \<Rightarrow> bytes \<Rightarrow> time \<Rightarrow> time \<Rightarrow> err + join_result" where
  "Join C net addr code nodeID d ent t1 t2 =
     and_then (ValidateCodeFormat code) (\<lambda>_.
     and_then (NewKey d) (\<lambda>key.
     and_then (NewCSR C nodeID key ent) (\<lambda>csr.
     and_then (case rpc_NewClient net addr of Some e \<Rightarrow> Inl (Wrap ''pairing: dial'' e) | None \<Rightarrow> Inr ()) (\<lambda>_.
     and_then (map_err (Wrap ''pairing: begin'') (rpc_Begin net \<lparr>brq_NodeId = nodeID\<rparr>)) (\<lambda>(begin_resp, beginPeer).
     and_then (certFromPeer beginPeer) (\<lambda>serverCert.
       let k = DeriveKey C code (brs_Salt begin_resp);
           mac = ClientMAC k (brs_SessionId begin_resp) (CertHash serverCert) csr
       in
     and_then (map_err (Wrap ''pairing: complete'')
                (rpc_Complete net \<lparr>crq_SessionId = brs_SessionId begin_resp, crq_CsrDer = csr, crq_ClientMac = mac\<rparr>))
       (\<lambda>(resp, completePeer).
     and_then (case certFromPeer completePeer of
                 Inl _ \<Rightarrow> Inl ErrServerCertChanged
               | Inr c2 \<Rightarrow> if Raw c2 \<noteq> Raw serverCert then Inl ErrServerCertChanged else Inr ()) (\<lambda>_.
     and_then (map_err (Wrap ''pairing: bad CA cert in response'') (ParseCertificate C (crs_CaCertDer resp))) (\<lambda>caCert.
     and_then (map_err (Wrap ''pairing: bad node cert in response'') (ParseCertificate C (crs_NodeCertDer resp))) (\<lambda>nodeCert.
       let bundle = \<lparr>bd_CACert = caCert, bd_NodeCert = nodeCert, bd_MeshID = crs_MeshId resp, bd_ServerMAC = crs_ServerMac resp\<rparr>
       in
     and_then (VerifyBundle C k (brs_SessionId begin_resp) bundle nodeID t1) (\<lambda>_.
     and_then (if Some (pub_of C key) \<noteq> PublicKey nodeCert then Inl (Msg ''pairing: issued cert does not match our key'')
               else Inr ()) (\<lambda>_.
     and_then (map_err (Wrap ''pairing: server cert does not chain to issued CA'') (VerifyAgainst C caCert serverCert t2)) (\<lambda>sp.
     and_then (if pr_Role sp \<noteq> RoleNode \<or> pr_Name sp \<noteq> crs_CoordinatorNodeId resp then
                 Inl (Msg ''pairing: server cert and response name different coordinators'') else Inr ()) (\<lambda>_.
     and_then (map_err (\<lambda>r. Wrap ''pairing: bad addr'' (Msg r)) (SplitHostPort addr)) (\<lambda>(host, _).
     and_then (map_err (\<lambda>r. Wrap ''pairing: bad coordinator addr'' (Msg r)) (SplitHostPort (crs_CoordinatorGrpcAddr resp))) (\<lambda>(_, port).
       Inr \<lparr>jr_Key = key, jr_Bundle = bundle, jr_CoordinatorNodeID = crs_CoordinatorNodeId resp,
            jr_CoordinatorGRPCAddr = JoinHostPort host port\<rparr>))))))))))))))))"

definition Persist :: "crypto \<Rightarrow> join_result \<Rightarrow> string \<Rightarrow> bool \<Rightarrow> (fs, unit) io" where
  "Persist C r dir overwrite =
     io_then (WriteCert C dir CACertFile (bd_CACert (jr_Bundle r)) overwrite) (\<lambda>_.
     io_then (WriteCert C dir NodeCertFile (bd_NodeCert (jr_Bundle r)) overwrite) (\<lambda>_.
       WriteKey C dir NodeKeyFile (jr_Key r) overwrite))"

section \<open>What a successful join establishes\<close>

text \<open>The certificates a peer with certificate \<open>c\<close> first in its list presented.\<close>

lemma certFromPeer_Inr: "certFromPeer p = Inr c \<longleftrightarrow> (\<exists>rest. p = Some (TLSInfo (c # rest)))"
  by (auto simp: certFromPeer_def split: option.splits auth_info.splits list.splits)

lemma Join_Inr:
  assumes "Join C net addr code nodeID d ent t1 t2 = Inr res"
  obtains x begin_resp serverCert rest csr resp c2 rest2 host hport chost port where
    "is_ok (ValidateCodeFormat code)" "d = Some x" "jr_Key res = PrivKey P256 x"
    "NewCSR C nodeID (PrivKey P256 x) ent = Inr csr"
    "rpc_Begin net \<lparr>brq_NodeId = nodeID\<rparr> = Inr (begin_resp, Some (TLSInfo (serverCert # rest)))"
    "rpc_Complete net \<lparr>crq_SessionId = brs_SessionId begin_resp, crq_CsrDer = csr,
       crq_ClientMac = ClientMAC (DeriveKey C code (brs_Salt begin_resp)) (brs_SessionId begin_resp) (CertHash serverCert) csr\<rparr> =
       Inr (resp, Some (TLSInfo (c2 # rest2)))"
    "Raw c2 = Raw serverCert"
    "ParseCertificate C (crs_CaCertDer resp) = Inr (bd_CACert (jr_Bundle res))"
    "ParseCertificate C (crs_NodeCertDer resp) = Inr (bd_NodeCert (jr_Bundle res))"
    "VerifyBundle C (DeriveKey C code (brs_Salt begin_resp)) (brs_SessionId begin_resp) (jr_Bundle res) nodeID t1 = Inr ()"
    "PublicKey (bd_NodeCert (jr_Bundle res)) = Some (pub_of C (jr_Key res))"
    "\<exists>sp. VerifyAgainst C (bd_CACert (jr_Bundle res)) serverCert t2 = Inr sp \<and> pr_Role sp = RoleNode \<and>
       pr_Name sp = jr_CoordinatorNodeID res"
    "SplitHostPort addr = Inr (host, hport)" "SplitHostPort (crs_CoordinatorGrpcAddr resp) = Inr (chost, port)"
    "jr_CoordinatorGRPCAddr res = JoinHostPort host port" "jr_CoordinatorNodeID res = crs_CoordinatorNodeId resp" "bd_ServerMAC (jr_Bundle res) = crs_ServerMac resp"
  using assms
  by (auto simp: Join_def NewKey_def Let_def go_result certFromPeer_Inr ValidateCodeFormat_Inr
      split: option.splits if_splits sum.splits)

section \<open>The network of an honest coordinator\<close>

text \<open>
  The two calls answered by the coordinator's own service over connections on which it presents its own
  certificate, with nothing else happening in between.
\<close>

record server_inputs =
  si_now_gc :: time
  si_id :: bytes
  si_salt :: bytes
  si_now_exp :: time
  si_env :: complete_env

definition honest_peer :: "pairing_server \<Rightarrow> rpc_peer" where
  "honest_peer s = Some (TLSInfo [id_Cert (ps_Identity s)])"

definition honest_begin :: "server_inputs \<Rightarrow> begin_request \<Rightarrow> (pairing_server, begin_response) io" where
  "honest_begin inp req = server_Begin req (si_now_gc inp) (Some (si_id inp)) (Some (si_salt inp)) (si_now_exp inp)"

definition honest_rpc :: "crypto \<Rightarrow> server_inputs \<Rightarrow> string \<Rightarrow> pairing_server \<Rightarrow> rpc" where
  "honest_rpc C inp nodeID s =
     \<lparr>rpc_NewClient = (\<lambda>_. None),
      rpc_Begin = (\<lambda>req. and_then (fst (honest_begin inp req s)) (\<lambda>b. Inr (b, honest_peer s))),
      rpc_Complete = (\<lambda>req. and_then (fst (server_Complete C req (si_env inp) (snd (honest_begin inp \<lparr>brq_NodeId = nodeID\<rparr> s))))
        (\<lambda>b. Inr (b, honest_peer s)))\<rparr>"

lemma begin_state_sel:
  "pa_ca (begin_state p n i s) = pa_ca p" "pa_serverCert (begin_state p n i s) = pa_serverCert p"
  "pa_nodeTTL (begin_state p n i s) = pa_nodeTTL p"
  by (simp_all add: begin_state_def)

lemma begin_state_code:
  assumes "pairer_inv p"
  shows "code_at t (begin_state p n i s) c \<longleftrightarrow> code_at n p c \<and> code_at t p c"
  using assms
  by (auto simp: begin_state_def code_at_def pairer_inv_def map_of_filter_snd time_ops split: option.splits)

lemma begin_state_session: "t \<le> ss_ExpiresAt s \<Longrightarrow> session_at t (begin_state p n i s) i = Some s"
  by (simp add: begin_state_def session_at_def)

lemma begin_state_failures: "recent_failures t (begin_state p n i s) \<le> recent_failures n p"
proof -
  have "recent_failures t (begin_state p n i s) \<le> length (pa_failures (gcLocked n p))"
    unfolding recent_failures_def by (simp add: begin_state_def del: gcLocked_sel)
  then show ?thesis by (simp only: gc_failures)
qed

definition honest_ready :: "crypto \<Rightarrow> server_inputs \<Rightarrow> pairing_server \<Rightarrow> string \<Rightarrow> bool" where
  "honest_ready C inp s code \<longleftrightarrow>
     crypto_ok C \<and> ca_wf C (ps_CA s) \<and> ParseCertificate C (Raw (ca_Cert (ps_CA s))) = Inr (ca_Cert (ps_CA s)) \<and>
     pairer_inv (ps_Pairer s) \<and> pa_ca (ps_Pairer s) = ps_CA s \<and>
     pa_serverCert (ps_Pairer s) = id_Cert (ps_Identity s) \<and> pa_nodeTTL (ps_Pairer s) \<le> 20 * 365 * 24 * Hour \<and>
     Second \<le> pa_nodeTTL (ps_Pairer s) \<and>
     length (si_id inp) = SessionIDLen \<and> length (si_salt inp) = SaltLen \<and>
     code_at (si_now_gc inp) (ps_Pairer s) code \<and> code_at (ce_now_gc (si_env inp)) (ps_Pairer s) code \<and>
     recent_failures (si_now_gc inp) (ps_Pairer s) < maxFailuresPerMin \<and>
     card {sid. session_at (si_now_gc inp) (ps_Pairer s) sid \<noteq> None} < maxSessions \<and>
     ce_now_gc (si_env inp) \<le> si_now_exp inp + DefaultSessionTTL \<and>
     (\<forall>xs. set (ce_order (si_env inp) xs) = set xs) \<and> clock_ok (ce_now_sign (si_env inp)) \<and>
     (\<exists>n. ce_serial (si_env inp) = Some n)"

definition honest_session :: "server_inputs \<Rightarrow> pair_session" where
  "honest_session inp = \<lparr>ss_ID = si_id inp, ss_Salt = si_salt inp, ss_ExpiresAt = si_now_exp inp + DefaultSessionTTL\<rparr>"

lemma honest_Begin:
  assumes "honest_ready C inp s code"
  shows "Begin (ps_Pairer s) (si_now_gc inp) (Some (si_id inp)) (Some (si_salt inp)) (si_now_exp inp) =
      (Inr (honest_session inp), begin_state (ps_Pairer s) (si_now_gc inp) (si_id inp) (honest_session inp))"
proof -
  have inv: "pairer_inv (ps_Pairer s)" and code: "code_at (si_now_gc inp) (ps_Pairer s) code"
    and rf: "recent_failures (si_now_gc inp) (ps_Pairer s) < maxFailuresPerMin"
    and ns: "card {sid. session_at (si_now_gc inp) (ps_Pairer s) sid \<noteq> None} < maxSessions"
    using assms by (auto simp: honest_ready_def)
  have "\<not> (\<forall>c. \<not> code_at (si_now_gc inp) (ps_Pairer s) c)" using code by blast
  then show ?thesis
    using rf ns by (simp only: Begin_result[OF inv] Let_def if_False not_le[symmetric] honest_session_def begin_state_def)
qed

lemma honest_begin_ok:
  assumes "honest_ready C inp s code"
  shows "honest_begin inp req s =
    (Inr \<lparr>brs_SessionId = si_id inp, brs_Salt = si_salt inp, brs_MeshId = MeshID (ps_CA s),
          brs_ExpiresAt = si_now_exp inp + DefaultSessionTTL\<rparr>,
     s\<lparr>ps_Pairer := begin_state (ps_Pairer s) (si_now_gc inp) (si_id inp) (honest_session inp)\<rparr>)"
  by (simp add: honest_begin_def server_Begin_def honest_Begin[OF assms]) (simp add: honest_session_def)

definition no_collision :: "crypto \<Rightarrow> server_inputs \<Rightarrow> pairing_server \<Rightarrow> string \<Rightarrow> bool" where
  "no_collision C inp s code \<longleftrightarrow>
     (\<forall>c csr h. code_at (si_now_gc inp) (ps_Pairer s) c \<and>
        ClientMAC (DeriveKey C c (si_salt inp)) (si_id inp) h csr = ClientMAC (DeriveKey C code (si_salt inp)) (si_id inp) h csr
        \<longrightarrow> c = code)"

lemma honest_claim:
  fixes csrDER :: bytes
  assumes ready: "honest_ready C inp s code" and unique: "no_collision C inp s code"
  defines "k \<equiv> DeriveKey C code (si_salt inp)"
  defines "q \<equiv> begin_state (ps_Pairer s) (si_now_gc inp) (si_id inp) (honest_session inp)"
  defines "mac \<equiv> ClientMAC k (si_id inp) (CertHash (id_Cert (ps_Identity s))) csrDER"
  obtains q' where "complete_claim C q (si_id inp) csrDER mac (si_env inp) = (Inr (honest_session inp, code, k), q')"
    "Complete C q (si_id inp) csrDER mac (si_env inp) =
       (complete_issue C (ps_CA s) (pa_nodeTTL (ps_Pairer s)) (honest_session inp) k csrDER (ce_serial (si_env inp))
          (ce_now_sign (si_env inp)) (ce_entropy (si_env inp)), q')"
    "pairer_inv q"
proof -
  let ?p = "ps_Pairer s" and ?ss = "honest_session inp" and ?env = "si_env inp"
  have inv: "pairer_inv ?p" and ca: "pa_ca ?p = ps_CA s" and cert: "pa_serverCert ?p = id_Cert (ps_Identity s)"
    and code: "code_at (si_now_gc inp) ?p code" "code_at (ce_now_gc ?env) ?p code"
    and rf: "recent_failures (si_now_gc inp) ?p < maxFailuresPerMin" and exp: "ce_now_gc ?env \<le> si_now_exp inp + DefaultSessionTTL"
    and order: "\<And>xs. set (ce_order ?env xs) = set xs"
    and len: "length (si_id inp) = SessionIDLen" "length (si_salt inp) = SaltLen"
    using ready by (auto simp: honest_ready_def)
  have sel: "pa_ca q = ps_CA s" "pa_serverCert q = id_Cert (ps_Identity s)" "pa_nodeTTL q = pa_nodeTTL ?p"
    by (simp_all add: q_def begin_state_sel ca cert)
  have invq: "pairer_inv q" using Begin_inv[OF inv _ _ honest_Begin[OF ready]] len by (simp add: q_def)
  have ss: "ss_ID ?ss = si_id inp" "ss_Salt ?ss = si_salt inp" by (simp_all add: honest_session_def)
  have sess: "session_at (ce_now_gc ?env) q (si_id inp) = Some ?ss"
    unfolding q_def using exp by (intro begin_state_session) (simp add: honest_session_def)
  have rfq: "recent_failures (ce_now_gc ?env) q < maxFailuresPerMin"
    using begin_state_failures[of "ce_now_gc ?env" ?p "si_now_gc inp" "si_id inp" ?ss] rf by (simp add: q_def)
  have codeq: "code_at (ce_now_gc ?env) q code" using code by (simp add: q_def begin_state_code[OF inv])
  have mac: "mac = ClientMAC (DeriveKey C code (ss_Salt ?ss)) (ss_ID ?ss) (CertHash (pa_serverCert q)) csrDER"
    by (simp add: ss sel mac_def k_def)
  have uniq: "d = code" if "code_at (ce_now_gc ?env) q d" "proves_code C q ?ss csrDER mac d" for d
  proof -
    have "code_at (si_now_gc inp) ?p d" using that(1) by (simp add: q_def begin_state_code[OF inv])
    moreover have "ClientMAC (DeriveKey C d (si_salt inp)) (si_id inp) (CertHash (id_Cert (ps_Identity s))) csrDER = mac"
      using that(2) by (simp add: proves_code_def ss sel)
    ultimately show ?thesis using unique unfolding no_collision_def mac_def k_def by blast
  qed
  show thesis
    by (rule Complete_accepts[OF invq order sess rfq codeq mac uniq]) (use that invq in \<open>simp_all add: sel ss k_def\<close>)
qed

lemma honest_complete_ok:
  assumes ready: "honest_ready C inp s code" and unique: "no_collision C inp s code"
    and name: "is_ok (validateLabel nodeID)" and csr: "NewCSR C nodeID (PrivKey P256 x) e1 = Inr csrDER"
  obtains b s' where
    "server_Complete C \<lparr>crq_SessionId = si_id inp, crq_CsrDer = csrDER,
       crq_ClientMac = ClientMAC (DeriveKey C code (si_salt inp)) (si_id inp) (CertHash (id_Cert (ps_Identity s))) csrDER\<rparr>
       (si_env inp) (s\<lparr>ps_Pairer := begin_state (ps_Pairer s) (si_now_gc inp) (si_id inp) (honest_session inp)\<rparr>) =
     (Inr \<lparr>crs_CaCertDer = Raw (ca_Cert (ps_CA s)), crs_NodeCertDer = Raw (bd_NodeCert b), crs_MeshId = MeshID (ps_CA s),
           crs_CoordinatorNodeId = pr_Name (id_Principal (ps_Identity s)),
           crs_CoordinatorGrpcAddr = '':'' @ Itoa (ps_GRPCPort s), crs_ServerMac = bd_ServerMAC b\<rparr>, s')"
    "bd_CACert b = ca_Cert (ps_CA s)" "bd_MeshID b = MeshID (ps_CA s)"
    "PublicKey (bd_NodeCert b) = Some (pub_of C (PrivKey P256 x))"
    "ParseCertificate C (Raw (bd_NodeCert b)) = Inr (bd_NodeCert b)"
    "NotBefore (bd_NodeCert b) = trunc_sec (ce_now_sign (si_env inp) - backdate)"
    "NotAfter (bd_NodeCert b) = trunc_sec (ce_now_sign (si_env inp) + pa_nodeTTL (ps_Pairer s))"
    "\<And>t. time_valid t (bd_NodeCert b) \<Longrightarrow> time_valid t (ca_Cert (ps_CA s)) \<Longrightarrow>
       VerifyBundle C (DeriveKey C code (si_salt inp)) (si_id inp) b nodeID t = Inr ()"
proof -
  let ?p = "ps_Pairer s" and ?ss = "honest_session inp" and ?env = "si_env inp"
  let ?k = "DeriveKey C code (si_salt inp)"
  have C: "crypto_ok C" and wf: "ca_wf C (ps_CA s)" and clk: "clock_ok (ce_now_sign ?env)"
    and ttl: "pa_nodeTTL ?p \<le> 20 * 365 * 24 * Hour" "Second \<le> pa_nodeTTL ?p"
    using ready by (auto simp: honest_ready_def)
  obtain n where n: "ce_serial ?env = Some n" using ready by (auto simp: honest_ready_def)
  have pos: "0 < pa_nodeTTL ?p" using ttl(2) by (simp add: go_time)
  obtain b where b: "complete_issue C (ps_CA s) (pa_nodeTTL ?p) ?ss ?k csrDER (Some n) (ce_now_sign ?env) (ce_entropy ?env) = Inr b"
    "PublicKey (bd_NodeCert b) = Some (pub_of C (PrivKey P256 x))" "bd_CACert b = ca_Cert (ps_CA s)"
    "bd_MeshID b = MeshID (ps_CA s)" "ParseCertificate C (Raw (bd_NodeCert b)) = Inr (bd_NodeCert b)"
    "NotBefore (bd_NodeCert b) = trunc_sec (ce_now_sign ?env - backdate)"
    "NotAfter (bd_NodeCert b) = trunc_sec (ce_now_sign ?env + pa_nodeTTL ?p)"
    "\<And>t. time_valid t (bd_NodeCert b) \<Longrightarrow> time_valid t (ca_Cert (ps_CA s)) \<Longrightarrow>
       VerifyBundle C ?k (ss_ID ?ss) b nodeID t = Inr ()"
    by (rule complete_issue_ok[OF C wf clk pos ttl(1) name _ csr, of ?ss ?k n "ce_entropy ?env"]) simp_all
  have ss: "ss_ID ?ss = si_id inp" by (simp add: honest_session_def)
  show thesis
    by (rule honest_claim[OF ready unique, of csrDER]) (use that[of b] b n ss in \<open>simp add: server_Complete_def\<close>)
qed

section \<open>Joining\<close>

lemma port_addr: "0 \<le> n \<Longrightarrow> SplitHostPort ('':'' @ Itoa n) = Inr ([], Itoa n)"
proof -
  assume "0 \<le> n"
  then have d: "list_all is_digit_char (Itoa n)" by (rule Itoa_nonneg_digits)
  then have "plain_host (Itoa n)" "CHR '':'' \<notin> set (Itoa n)"
    using digit_notin[OF d] by (auto simp: plain_host_def is_digit_char_def)
  then show ?thesis using SplitHostPort_plain[of "[]" "Itoa n"] by (simp add: plain_host_def)
qed

lemma code_at_format: "pairer_inv p \<Longrightarrow> code_at t p c \<Longrightarrow> ValidateCodeFormat c = Inr ()"
  by (auto simp: code_at_def pairer_inv_def list_all_iff code_ok_def is_ok_iff split: option.splits dest!: map_of_SomeD)

lemma honest_join:
  assumes ready: "honest_ready C inp s code" and unique: "no_collision C inp s code"
    and name: "is_ok (validateLabel nodeID)"
    and coord: "VerifyAgainst C (ca_Cert (ps_CA s)) (id_Cert (ps_Identity s)) t2 = Inr (id_Principal (ps_Identity s))"
      "pr_Role (id_Principal (ps_Identity s)) = RoleNode" "0 \<le> ps_GRPCPort s"
    and addr: "SplitHostPort addr = Inr (host, hport)"
    and t1: "ce_now_sign (si_env inp) - backdate \<le> t1" "t1 + Second \<le> ce_now_sign (si_env inp) + pa_nodeTTL (ps_Pairer s)"
      "time_valid t1 (ca_Cert (ps_CA s))"
  shows "\<exists>res. Join C (honest_rpc C inp nodeID s) addr code nodeID (Some x) ent t1 t2 = Inr res \<and>
    jr_Key res = PrivKey P256 x \<and> bd_CACert (jr_Bundle res) = ca_Cert (ps_CA s) \<and>
    bd_MeshID (jr_Bundle res) = MeshID (ps_CA s) \<and>
    jr_CoordinatorNodeID res = pr_Name (id_Principal (ps_Identity s)) \<and>
    jr_CoordinatorGRPCAddr res = JoinHostPort host (Itoa (ps_GRPCPort s))"
proof -
  have C: "crypto_ok C" and inv: "pairer_inv (ps_Pairer s)" and code: "code_at (si_now_gc inp) (ps_Pairer s) code"
    and caP: "ParseCertificate C (Raw (ca_Cert (ps_CA s))) = Inr (ca_Cert (ps_CA s))"
    using ready by (auto simp: honest_ready_def)
  obtain csr where csr: "NewCSR C nodeID (PrivKey P256 x) ent = Inr csr" using NewCSR_ok[OF C name] by metis
  obtain b s' where b:
    "server_Complete C \<lparr>crq_SessionId = si_id inp, crq_CsrDer = csr,
       crq_ClientMac = ClientMAC (DeriveKey C code (si_salt inp)) (si_id inp) (CertHash (id_Cert (ps_Identity s))) csr\<rparr>
       (si_env inp) (s\<lparr>ps_Pairer := begin_state (ps_Pairer s) (si_now_gc inp) (si_id inp) (honest_session inp)\<rparr>) =
     (Inr \<lparr>crs_CaCertDer = Raw (ca_Cert (ps_CA s)), crs_NodeCertDer = Raw (bd_NodeCert b), crs_MeshId = MeshID (ps_CA s),
           crs_CoordinatorNodeId = pr_Name (id_Principal (ps_Identity s)),
           crs_CoordinatorGrpcAddr = '':'' @ Itoa (ps_GRPCPort s), crs_ServerMac = bd_ServerMAC b\<rparr>, s')"
    and b2: "bd_CACert b = ca_Cert (ps_CA s)" "bd_MeshID b = MeshID (ps_CA s)"
    and pub: "PublicKey (bd_NodeCert b) = Some (pub_of C (PrivKey P256 x))"
    and parse: "ParseCertificate C (Raw (bd_NodeCert b)) = Inr (bd_NodeCert b)"
    and dates: "NotBefore (bd_NodeCert b) = trunc_sec (ce_now_sign (si_env inp) - backdate)"
      "NotAfter (bd_NodeCert b) = trunc_sec (ce_now_sign (si_env inp) + pa_nodeTTL (ps_Pairer s))"
    and vb: "\<And>t. time_valid t (bd_NodeCert b) \<Longrightarrow> time_valid t (ca_Cert (ps_CA s)) \<Longrightarrow>
       VerifyBundle C (DeriveKey C code (si_salt inp)) (si_id inp) b nodeID t = Inr ()"
    using honest_complete_ok[OF ready unique name csr] by blast
  have "time_valid t1 (bd_NodeCert b)"
    using t1(1,2) trunc_sec_bounds[of "ce_now_sign (si_env inp) - backdate"]
      trunc_sec_bounds[of "ce_now_sign (si_env inp) + pa_nodeTTL (ps_Pairer s)"]
    by (simp add: time_valid_def time_ops dates)
  then have v: "VerifyBundle C (DeriveKey C code (si_salt inp)) (si_id inp) b nodeID t1 = Inr ()" using vb t1(3) by blast
  have beq: "\<lparr>bd_CACert = ca_Cert (ps_CA s), bd_NodeCert = bd_NodeCert b, bd_MeshID = MeshID (ps_CA s),
      bd_ServerMAC = bd_ServerMAC b\<rparr> = b"
    using b2 by (cases b) simp
  have v2: "VerifyBundle C (DeriveKey C code (si_salt inp)) (si_id inp) \<lparr>bd_CACert = ca_Cert (ps_CA s),
      bd_NodeCert = bd_NodeCert b, bd_MeshID = MeshID (ps_CA s), bd_ServerMAC = bd_ServerMAC b\<rparr> nodeID t1 = Inr ()"
    unfolding beq by (rule v)
  show ?thesis
    using code_at_format[OF inv code] csr b v2 parse pub caP coord addr port_addr[OF coord(3)]
    by (simp add: Join_def NewKey_def honest_rpc_def honest_begin_ok[OF ready] honest_peer_def certFromPeer_def Let_def)
qed

lemma Persist_load:
  assumes C: "crypto_ok C" and q: "fs_quiet s" and p: "Persist C r dir ow s = (Inr (), t)"
    and ca: "ParseCertificate C (Raw (bd_CACert (jr_Bundle r))) = Inr (bd_CACert (jr_Bundle r))"
    and nc: "ParseCertificate C (Raw (bd_NodeCert (jr_Bundle r))) = Inr (bd_NodeCert (jr_Bundle r))"
  shows "LoadNodeIdentity C dir now t =
    (NewIdentity C (bd_CACert (jr_Bundle r)) (bd_NodeCert (jr_Bundle r)) (jr_Key r) now, t)"
proof -
  obtain s1 s2 where w1: "WriteCert C dir CACertFile (bd_CACert (jr_Bundle r)) ow s = (Inr (), s1)"
    and w2: "WriteCert C dir NodeCertFile (bd_NodeCert (jr_Bundle r)) ow s1 = (Inr (), s2)"
    and w3: "WriteKey C dir NodeKeyFile (jr_Key r) ow s2 = (Inr (), t)"
    using p by (auto simp: Persist_def io_then_ok)
  have k1: "keeps {(dir, CACertFile)} s s1" using WriteCert_keeps[of dir CACertFile s C "bd_CACert (jr_Bundle r)" ow] w1 by simp
  have k2: "keeps {(dir, NodeCertFile)} s1 s2" using WriteCert_keeps[of dir NodeCertFile s1 C "bd_NodeCert (jr_Bundle r)" ow] w2 by simp
  have k3: "keeps {(dir, NodeKeyFile)} s2 t" using WriteKey_keeps[of dir NodeKeyFile s2 C "jr_Key r" ow] w3 by simp
  have qt: "fs_quiet t" using q k1 k2 k3 keeps_quiet by blast
  have f1: "fs_files t (dir, CACertFile) = fs_files s1 (dir, CACertFile)"
    using keeps_file[OF k2, of "(dir, CACertFile)"] keeps_file[OF k3, of "(dir, CACertFile)"] by (simp add: pki_files)
  have f2: "fs_files t (dir, NodeCertFile) = fs_files s2 (dir, NodeCertFile)"
    using keeps_file[OF k3, of "(dir, NodeCertFile)"] by (simp add: pki_files)
  have "ReadCert C dir CACertFile t = (Inr (bd_CACert (jr_Bundle r)), t)"
    "ReadCert C dir NodeCertFile t = (Inr (bd_NodeCert (jr_Bundle r)), t)"
    "ReadKey C dir NodeKeyFile t = (Inr (jr_Key r), t)"
    using WriteCert_read[OF C ca w1 f1] WriteCert_read[OF C nc w2 f2] WriteKey_read[OF C w3 refl] qt by simp_all
  then show ?thesis by (simp add: LoadNodeIdentity_def LoadIdentity_def io_then_def io_err_def)
qed

lemma Persist_succeeds:
  assumes C: "crypto_ok C" and q: "fs_quiet s" and free: "\<And>n. n \<in> {CACertFile, NodeCertFile, NodeKeyFile} \<Longrightarrow> fs_files s (dir, n) = None \<or> ow"
  shows "\<exists>t. Persist C r dir ow s = (Inr (), t)"
proof -
  obtain s1 where s1: "WriteCert C dir CACertFile (bd_CACert (jr_Bundle r)) ow s = (Inr (), s1)" "keeps {(dir, CACertFile)} s s1"
    "fs_quiet s1" by (rule WriteCert_succeeds[OF q free, of CACertFile]) simp_all
  have "fs_files s1 (dir, NodeCertFile) = None \<or> ow" using free[of NodeCertFile] keeps_file[OF s1(2), of "(dir, NodeCertFile)"] by (simp add: pki_files)
  then obtain s2 where s2: "WriteCert C dir NodeCertFile (bd_NodeCert (jr_Bundle r)) ow s1 = (Inr (), s2)"
    "keeps {(dir, NodeCertFile)} s1 s2" "fs_quiet s2" by (rule WriteCert_succeeds[OF s1(3)])
  have "fs_files s2 (dir, NodeKeyFile) = None \<or> ow"
    using free[of NodeKeyFile] keeps_file[OF s1(2), of "(dir, NodeKeyFile)"] keeps_file[OF s2(2), of "(dir, NodeKeyFile)"] by (simp add: pki_files)
  then obtain t where "WriteKey C dir NodeKeyFile (jr_Key r) ow s2 = (Inr (), t)" by (rule WriteKey_succeeds[OF C s2(3)])
  then show ?thesis using s1(1) s2(1) by (simp add: Persist_def io_then_def)
qed

section \<open>A concrete pairing\<close>

definition demo_inp :: server_inputs where
  "demo_inp = \<lparr>si_now_gc = demo_now, si_id = demo_sid, si_salt = replicate 16 2, si_now_exp = demo_now, si_env = demo_env\<rparr>"

definition demo_coordinator :: "CA \<Rightarrow> certificate \<Rightarrow> pairing_server" where
  "demo_coordinator ca c =
     \<lparr>ps_Identity = mk_identity (sr_Principal demo_req) (ca_Cert ca) c (PrivKey P256 9), ps_CA = ca, ps_GRPCPort = 7443,
      ps_Pairer = \<lparr>pa_ca = ca, pa_serverCert = c, pa_nodeTTL = DefaultNodeCertTTL,
        pa_codes = [(demo_code, demo_now + DefaultCodeTTL)], pa_sessions = [], pa_failures = []\<rparr>, ps_TLS = tls_zero\<rparr>"

lemma demo_coordinator_inv: "pairer_inv (ps_Pairer (demo_coordinator ca c))"
  using GenerateCode_format[of 42]
  by (simp add: demo_coordinator_def pairer_inv_def code_ok_def demo_code_def codeSpace_def go_time)

lemma demo_coordinator_ready:
  obtains ca c where "honest_ready demo_crypto demo_inp (demo_coordinator ca c) demo_code"
    "no_collision demo_crypto demo_inp (demo_coordinator ca c) demo_code"
    "VerifyAgainst demo_crypto (ca_Cert ca) c demo_now = Inr (sr_Principal demo_req)"
    "time_valid demo_now (ca_Cert ca)"
proof -
  have home: "is_ok (validateLabel ''home'')" by (simp add: validateLabel_iff label_char_ord)
  obtain ca where ca: "NewCA demo_crypto ''home'' (Some 7) (Some 41) demo_now [] = Inr ca" "MeshID ca = ''home''" "ca_wf demo_crypto ca"
    "NotBefore (ca_Cert ca) = trunc_sec (demo_now - backdate)" "NotAfter (ca_Cert ca) = trunc_sec (demo_now + CACertTTL)"
    using NewCA_ok[OF demo_crypto_ok home demo_clock] by metis
  have allowed: "sign_allowed ca demo_req" using demo_sign_allowed ca(2) by (simp add: sign_allowed_def)
  obtain c where c: "Sign demo_crypto ca demo_req (Some 3) demo_now [] = Inr c"
    using pki_ca.issue_ok[OF conjI[OF demo_crypto_ok ca(3)] demo_clock allowed demo_ttl] by metis
  have tv: "time_valid demo_now (ca_Cert ca)"
    by (simp add: time_valid_def ca(4,5) time_ops demo_now_def trunc_sec_def go_time)
  have ver: "VerifyAgainst demo_crypto (ca_Cert ca) c demo_now = Inr (sr_Principal demo_req)"
    using pki_ca.issue_verifies_now[OF conjI[OF demo_crypto_ok ca(3)] demo_clock demo_ttl _ c tv] by (simp add: demo_req_def go_time)
  let ?p = "ps_Pairer (demo_coordinator ca c)"
  have only: "code_at demo_now ?p d \<longleftrightarrow> d = demo_code" for d
    by (simp add: demo_coordinator_def code_at_def go_time)
  have none: "{sid. session_at demo_now ?p sid \<noteq> None} = {}" by (simp add: session_at_def demo_coordinator_def)
  have sel: "pa_ca ?p = ca" "pa_serverCert ?p = c" "pa_nodeTTL ?p = DefaultNodeCertTTL" "pa_failures ?p = []"
    "ps_CA (demo_coordinator ca c) = ca" "id_Cert (ps_Identity (demo_coordinator ca c)) = c"
    by (simp_all add: demo_coordinator_def mk_identity_def)
  have "honest_ready demo_crypto demo_inp (demo_coordinator ca c) demo_code"
    unfolding honest_ready_def demo_inp_def demo_env_def
    using demo_crypto_ok ca(3) NewCA_parse[OF ca(1)] demo_coordinator_inv only none demo_clock
    by (simp add: sel recent_failures_def)
      (simp add: demo_sid_def SessionIDLen_def SaltLen_def maxSessions_def maxFailuresPerMin_def go_time)
  moreover have "no_collision demo_crypto demo_inp (demo_coordinator ca c) demo_code"
    using only by (simp add: no_collision_def demo_inp_def)
  ultimately show thesis using that ver tv by blast
qed

lemma demo_join:
  obtains ca c res where "honest_ready demo_crypto demo_inp (demo_coordinator ca c) demo_code"
    "no_collision demo_crypto demo_inp (demo_coordinator ca c) demo_code"
    "Join demo_crypto (honest_rpc demo_crypto demo_inp ''desk'' (demo_coordinator ca c)) ''10.0.0.5:7444'' demo_code ''desk''
       (Some 11) [] demo_now demo_now = Inr res"
proof -
  obtain ca c where r: "honest_ready demo_crypto demo_inp (demo_coordinator ca c) demo_code"
    "no_collision demo_crypto demo_inp (demo_coordinator ca c) demo_code"
    "VerifyAgainst demo_crypto (ca_Cert ca) c demo_now = Inr (sr_Principal demo_req)" "time_valid demo_now (ca_Cert ca)"
    by (rule demo_coordinator_ready)
  have desk: "is_ok (validateLabel ''desk'')" by (simp add: validateLabel_iff label_char_ord)
  have addr: "SplitHostPort ''10.0.0.5:7444'' = Inr (''10.0.0.5'', ''7444'')" by code_simp
  have sel: "ps_CA (demo_coordinator ca c) = ca" "id_Cert (ps_Identity (demo_coordinator ca c)) = c"
    "id_Principal (ps_Identity (demo_coordinator ca c)) = sr_Principal demo_req" "ps_GRPCPort (demo_coordinator ca c) = 7443"
    "pa_nodeTTL (ps_Pairer (demo_coordinator ca c)) = DefaultNodeCertTTL" "ce_now_sign (si_env demo_inp) = demo_now"
    by (simp_all add: demo_coordinator_def mk_identity_def demo_inp_def demo_env_def)
  have role: "pr_Role (sr_Principal demo_req) = RoleNode" by (simp add: demo_req_def)
  have "\<exists>res. Join demo_crypto (honest_rpc demo_crypto demo_inp ''desk'' (demo_coordinator ca c)) ''10.0.0.5:7444'' demo_code ''desk''
       (Some 11) [] demo_now demo_now = Inr res"
    using honest_join[OF r(1,2) desk _ _ _ addr, of demo_now demo_now 11 "[]"] r(3,4) role
    by (auto simp: sel go_time)
  then show thesis using that r(1,2) by blast
qed

section \<open>Properties\<close>

text \<open>
  C7. What a successful join guarantees, whatever the server and the network did. The answer carries a
  MAC under the key derived from the code the user typed; the node certificate verifies against the CA
  of the answer as a node with the joiner's own id and key; and the TLS certificate that the
  connection of both calls presented verifies against that same CA as the coordinator of the same
  mesh.
\<close>

theorem Join_guarantees:
  assumes "Join C net addr code nodeID d ent t1 t2 = Inr res"
  shows "\<exists>br serverCert rest. rpc_Begin net \<lparr>brq_NodeId = nodeID\<rparr> = Inr (br, Some (TLSInfo (serverCert # rest))) \<and>
    bd_ServerMAC (jr_Bundle res) = ServerMAC (DeriveKey C code (brs_Salt br)) (brs_SessionId br)
      (Raw (bd_CACert (jr_Bundle res))) (Raw (bd_NodeCert (jr_Bundle res))) \<and>
    VerifyAgainst C (bd_CACert (jr_Bundle res)) (bd_NodeCert (jr_Bundle res)) t1 =
      Inr \<lparr>pr_MeshID = bd_MeshID (jr_Bundle res), pr_Role = RoleNode, pr_Name = nodeID\<rparr> \<and>
    PublicKey (bd_NodeCert (jr_Bundle res)) = Some (pub_of C (jr_Key res)) \<and>
    VerifyAgainst C (bd_CACert (jr_Bundle res)) serverCert t2 =
      Inr \<lparr>pr_MeshID = bd_MeshID (jr_Bundle res), pr_Role = RoleNode, pr_Name = jr_CoordinatorNodeID res\<rparr>"
proof (rule Join_Inr[OF assms])
  fix x br serverCert rest csr resp c2 rest2 host hport chost port
  assume begin_call: "rpc_Begin net \<lparr>brq_NodeId = nodeID\<rparr> = Inr (br, Some (TLSInfo (serverCert # rest)))"
    and vb: "VerifyBundle C (DeriveKey C code (brs_Salt br)) (brs_SessionId br) (jr_Bundle res) nodeID t1 = Inr ()"
    and pk: "PublicKey (bd_NodeCert (jr_Bundle res)) = Some (pub_of C (jr_Key res))"
    and sp: "\<exists>sp. VerifyAgainst C (bd_CACert (jr_Bundle res)) serverCert t2 = Inr sp \<and> pr_Role sp = RoleNode \<and>
       pr_Name sp = jr_CoordinatorNodeID res"
  have v: "VerifyAgainst C (bd_CACert (jr_Bundle res)) (bd_NodeCert (jr_Bundle res)) t1 =
      Inr \<lparr>pr_MeshID = bd_MeshID (jr_Bundle res), pr_Role = RoleNode, pr_Name = nodeID\<rparr>"
    and mac: "bd_ServerMAC (jr_Bundle res) = ServerMAC (DeriveKey C code (brs_Salt br)) (brs_SessionId br)
      (Raw (bd_CACert (jr_Bundle res))) (Raw (bd_NodeCert (jr_Bundle res)))"
    using vb by (simp_all add: VerifyBundle_Inr)
  obtain sp where sp: "VerifyAgainst C (bd_CACert (jr_Bundle res)) serverCert t2 = Inr sp" "pr_Role sp = RoleNode"
    "pr_Name sp = jr_CoordinatorNodeID res" using sp by blast
  moreover have "pr_MeshID sp = bd_MeshID (jr_Bundle res)" using pki_verify.verify_same_mesh[OF sp(1) v] by simp
  ultimately have "sp = \<lparr>pr_MeshID = bd_MeshID (jr_Bundle res), pr_Role = RoleNode, pr_Name = jr_CoordinatorNodeID res\<rparr>"
    by (cases sp) simp
  then show ?thesis using begin_call mac v pk sp(1) by blast
qed

theorem Join_guarantees_witness:
  "\<exists>ca c res. Join demo_crypto (honest_rpc demo_crypto demo_inp ''desk'' (demo_coordinator ca c)) ''10.0.0.5:7444''
       demo_code ''desk'' (Some 11) [] demo_now demo_now = Inr res \<and>
     (\<exists>m. VerifyAgainst demo_crypto (bd_CACert (jr_Bundle res)) (bd_NodeCert (jr_Bundle res)) demo_now =
        Inr \<lparr>pr_MeshID = m, pr_Role = RoleNode, pr_Name = ''desk''\<rparr>)"
proof -
  obtain ca c res where j: "Join demo_crypto (honest_rpc demo_crypto demo_inp ''desk'' (demo_coordinator ca c)) ''10.0.0.5:7444''
       demo_code ''desk'' (Some 11) [] demo_now demo_now = Inr res"
    using demo_join by blast
  from Join_guarantees[OF j] have "VerifyAgainst demo_crypto (bd_CACert (jr_Bundle res)) (bd_NodeCert (jr_Bundle res)) demo_now =
      Inr \<lparr>pr_MeshID = bd_MeshID (jr_Bundle res), pr_Role = RoleNode, pr_Name = ''desk''\<rparr>" by blast
  then show ?thesis using j by metis
qed

lemma Join_stored:
  assumes C: "crypto_ok C" and j: "Join C net addr code nodeID d ent t1 t2 = Inr res"
    and q: "fs_quiet s" and p: "Persist C res dir ow s = (Inr (), t)"
  shows "\<exists>i. LoadNodeIdentity C dir t1 t = (Inr i, t) \<and> id_Key i = jr_Key res \<and>
    id_Principal i = \<lparr>pr_MeshID = bd_MeshID (jr_Bundle res), pr_Role = RoleNode, pr_Name = nodeID\<rparr>"
proof (rule Join_Inr[OF j])
  fix br resp :: _ and serverCert rest x csr c2 rest2 host hport chost port
  assume vb: "VerifyBundle C (DeriveKey C code (brs_Salt br)) (brs_SessionId br) (jr_Bundle res) nodeID t1 = Inr ()"
    and pk: "PublicKey (bd_NodeCert (jr_Bundle res)) = Some (pub_of C (jr_Key res))"
    and pca: "ParseCertificate C (crs_CaCertDer resp) = Inr (bd_CACert (jr_Bundle res))"
    and pnc: "ParseCertificate C (crs_NodeCertDer resp) = Inr (bd_NodeCert (jr_Bundle res))"
  have "ParseCertificate C (Raw (bd_CACert (jr_Bundle res))) = Inr (bd_CACert (jr_Bundle res))"
    "ParseCertificate C (Raw (bd_NodeCert (jr_Bundle res))) = Inr (bd_NodeCert (jr_Bundle res))"
    using pca pnc ParseCertificate_Raw by metis+
  from Persist_load[OF C q p this, of t1] show ?thesis
    using vb pk by (auto simp: VerifyBundle_Inr NewIdentity_def)
qed

text \<open>
  C25. From joining to running. When the result of a join was stored without error, loading the node's
  identity from the same directory succeeds at the time the join was checked, and gives the joined
  mesh, the node's own id, and the joiner's key.
\<close>

theorem Join_Persist_Load:
  assumes C: "crypto_ok C" and j: "Join C net addr code nodeID d ent t1 t2 = Inr res"
    and q: "fs_quiet s" and p: "Persist C res dir ow s = (Inr (), t)"
  shows "\<exists>i. LoadNodeIdentity C dir t1 t = (Inr i, t) \<and> id_Key i = jr_Key res \<and>
    id_Principal i = \<lparr>pr_MeshID = bd_MeshID (jr_Bundle res), pr_Role = RoleNode, pr_Name = nodeID\<rparr>"
  by (rule Join_stored[OF assms])

theorem Join_Persist_Load_witness:
  "\<exists>res t i. Persist demo_crypto res ''e'' False demo_fs = (Inr (), t) \<and>
     LoadNodeIdentity demo_crypto ''e'' demo_now t = (Inr i, t) \<and> pr_Name (id_Principal i) = ''desk''"
proof -
  obtain ca c res where j: "Join demo_crypto (honest_rpc demo_crypto demo_inp ''desk'' (demo_coordinator ca c)) ''10.0.0.5:7444''
       demo_code ''desk'' (Some 11) [] demo_now demo_now = Inr res"
    using demo_join by blast
  obtain t where t: "Persist demo_crypto res ''e'' False demo_fs = (Inr (), t)"
    using Persist_succeeds[OF demo_crypto_ok demo_fs_quiet, of "''e''" False res] by (auto simp: demo_fs_def)
  from Join_Persist_Load[OF demo_crypto_ok j demo_fs_quiet t] t show ?thesis by fastforce
qed

text \<open>
  C15. Pairing end to end. When the coordinator is idle enough, has the code active, and nothing else
  comes between, a joiner that types the code gets a certificate for its own id and key from the
  coordinator's CA, learns the coordinator's id and its address, all checks included: the joiner's
  and the coordinator's halves of the protocol fit together.
\<close>

theorem pairing_end_to_end:
  assumes "honest_ready C inp s code" "no_collision C inp s code" "is_ok (validateLabel nodeID)"
    "VerifyAgainst C (ca_Cert (ps_CA s)) (id_Cert (ps_Identity s)) t2 = Inr (id_Principal (ps_Identity s))"
    "pr_Role (id_Principal (ps_Identity s)) = RoleNode" "0 \<le> ps_GRPCPort s"
    "SplitHostPort addr = Inr (host, hport)"
    "ce_now_sign (si_env inp) - backdate \<le> t1" "t1 + Second \<le> ce_now_sign (si_env inp) + pa_nodeTTL (ps_Pairer s)"
    "time_valid t1 (ca_Cert (ps_CA s))"
  shows "\<exists>res. Join C (honest_rpc C inp nodeID s) addr code nodeID (Some x) ent t1 t2 = Inr res \<and>
    jr_Key res = PrivKey P256 x \<and> bd_CACert (jr_Bundle res) = ca_Cert (ps_CA s) \<and>
    bd_MeshID (jr_Bundle res) = MeshID (ps_CA s) \<and>
    jr_CoordinatorNodeID res = pr_Name (id_Principal (ps_Identity s)) \<and>
    jr_CoordinatorGRPCAddr res = JoinHostPort host (Itoa (ps_GRPCPort s))"
  by (rule honest_join[OF assms])

theorem pairing_end_to_end_witness:
  "\<exists>ca c res. Join demo_crypto (honest_rpc demo_crypto demo_inp ''desk'' (demo_coordinator ca c)) ''10.0.0.5:7444''
       demo_code ''desk'' (Some 11) [] demo_now demo_now = Inr res \<and> jr_CoordinatorGRPCAddr res = ''10.0.0.5:7443''"
proof -
  obtain ca c where r: "honest_ready demo_crypto demo_inp (demo_coordinator ca c) demo_code"
    "no_collision demo_crypto demo_inp (demo_coordinator ca c) demo_code"
    "VerifyAgainst demo_crypto (ca_Cert ca) c demo_now = Inr (sr_Principal demo_req)" "time_valid demo_now (ca_Cert ca)"
    by (rule demo_coordinator_ready)
  have desk: "is_ok (validateLabel ''desk'')" by (simp add: validateLabel_iff label_char_ord)
  have addr: "SplitHostPort ''10.0.0.5:7444'' = Inr (''10.0.0.5'', ''7444'')" by code_simp
  have grpc: "JoinHostPort ''10.0.0.5'' (Itoa 7443) = ''10.0.0.5:7443''"
    by (simp add: JoinHostPort_def Itoa_def nat_digits.simps digit_char_def; code_simp)
  have sel: "ps_CA (demo_coordinator ca c) = ca" "id_Cert (ps_Identity (demo_coordinator ca c)) = c"
    "id_Principal (ps_Identity (demo_coordinator ca c)) = sr_Principal demo_req" "ps_GRPCPort (demo_coordinator ca c) = 7443"
    "pa_nodeTTL (ps_Pairer (demo_coordinator ca c)) = DefaultNodeCertTTL" "ce_now_sign (si_env demo_inp) = demo_now"
    by (simp_all add: demo_coordinator_def mk_identity_def demo_inp_def demo_env_def)
  have role: "pr_Role (sr_Principal demo_req) = RoleNode" by (simp add: demo_req_def)
  show ?thesis
    using pairing_end_to_end[OF r(1,2) desk _ _ _ addr, of demo_now demo_now 11 "[]"] r(3,4) role
    by (auto simp: sel grpc go_time)
qed

end
