(* ===== verification/Coordinator.thy ===== *)
theory Coordinator
  imports Pairing_Server
begin

text \<open>
  \<^verbatim>\<open>internal/coordinator/admin.go\<close>: the admin service that issues pairing codes, and the guard in
  front of it. The service shares its pairer with the pairing listener; the handlers act on that
  pairer.
\<close>

section \<open>Operations\<close>

definition AdminServicePrefix :: string where "AdminServicePrefix = ''/lcm.v1.AdminService/''"

definition CreatePairingCode_FullMethodName :: string where
  "CreatePairingCode_FullMethodName = ''/lcm.v1.AdminService/CreatePairingCode''"

definition MaxPairingCodeTTL :: duration where "MaxPairingCodeTTL = 10 * Minute"

record create_request =
  cpr_TtlSeconds :: "32 word"

record create_response =
  cps_Code :: string
  cps_ExpiresAt :: time
  cps_PairAddr :: string

record admin =
  ad_pairAddr :: string

definition NewAdmin :: "string \<Rightarrow> admin" where
  "NewAdmin pairAddr = \<lparr>ad_pairAddr = pairAddr\<rparr>"

text \<open>The two interceptors, applied to a unary call and to a stream.\<close>

definition AdminInterceptors ::
  "call_ctx \<Rightarrow> 'req \<Rightarrow> string \<Rightarrow> (call_ctx \<Rightarrow> 'req \<Rightarrow> ('s, 'r) io) \<Rightarrow> ('s, 'r) io" where
  "AdminInterceptors = RequireRole_unary AdminServicePrefix [RoleAdmin]"

definition AdminStreamInterceptor ::
  "'srv \<Rightarrow> call_ctx \<Rightarrow> string \<Rightarrow> ('srv \<Rightarrow> call_ctx \<Rightarrow> ('s, unit) io) \<Rightarrow> ('s, unit) io" where
  "AdminStreamInterceptor = RequireRole_stream AdminServicePrefix [RoleAdmin]"

text \<open>
  \<^verbatim>\<open>time.Duration(req.GetTtlSeconds()) * time.Second\<close> is a conversion of a 32-bit unsigned number
  and a 64-bit multiplication.
\<close>

definition CreatePairingCode ::
  "admin \<Rightarrow> nat option \<Rightarrow> time \<Rightarrow> time \<Rightarrow> call_ctx \<Rightarrow> create_request \<Rightarrow> (pairer, create_response) io" where
  "CreatePairingCode a n now_exp now_gc ctx req p =
     (let ttl = wrap64 (wrap64 (uint (cpr_TtlSeconds req)) * Second) in
      if MaxPairingCodeTTL < ttl then (Inl (Status InvalidArgument (Msg ''ttl_seconds must be at most 600'')), p)
      else case Issue p ttl n now_exp now_gc of
        (Inl e, p') \<Rightarrow> (Inl (Status Internal e), p')
      | (Inr issued, p') \<Rightarrow>
          (Inr \<lparr>cps_Code = is_Code issued, cps_ExpiresAt = is_ExpiresAt issued, cps_PairAddr = ad_pairAddr a\<rparr>, p'))"

section \<open>Lemmas\<close>

lemma ttl_no_overflow: "wrap64 (wrap64 (uint (w :: 32 word)) * Second) = uint w * Second"
proof -
  obtain n where n: "uint w = n" "0 \<le> n" "n < 4294967296" using uint_lt2p[of w] uint_ge_0[of w] by simp
  then have "wrap64 (uint w) = uint w" unfolding n(1) by (intro wrap64_id) (simp_all add: min_int64_def max_int64_def)
  moreover have "wrap64 (uint w * Second) = uint w * Second"
    using n(2,3) unfolding n(1) by (intro wrap64_id) (simp_all add: min_int64_def max_int64_def Second_def)
  ultimately show ?thesis by simp
qed

lemma ttl_too_long: "MaxPairingCodeTTL < n * Second \<longleftrightarrow> 600 < n"
  by (simp add: MaxPairingCodeTTL_def go_time)

section \<open>Properties\<close>

text \<open>
  C27. Issuing a code. For every 32-bit number of seconds the lifetime is computed without overflow: more
  than ten minutes is refused and nothing changes; otherwise a fresh code is active until
  the requested number of seconds from \<open>now_exp\<close> (60 when the request says 0), and the answer names
  that code, that time and the pairing address.
\<close>

theorem CreatePairingCode_spec:
  "CreatePairingCode a (Some k) now_exp now_gc ctx req p =
     (let secs = uint (cpr_TtlSeconds req);
          exp = now_exp + (if secs = 0 then 60 else secs) * Second;
          code = pad_decimal CodeDigits k; p1 = gcLocked now_gc p
      in if 600 < secs then (Inl (Status InvalidArgument (Msg ''ttl_seconds must be at most 600'')), p)
         else (Inr \<lparr>cps_Code = code, cps_ExpiresAt = exp, cps_PairAddr = ad_pairAddr a\<rparr>,
               p1\<lparr>pa_codes := AList.update code exp (pa_codes p1)\<rparr>))"
proof -
  have "uint (cpr_TtlSeconds req) * Second \<le> 0 \<longleftrightarrow> uint (cpr_TtlSeconds req) = 0"
    using uint_ge_0[of "cpr_TtlSeconds req"] by (simp add: Second_def)
  then show ?thesis
    unfolding CreatePairingCode_def ttl_no_overflow
    by (simp add: Let_def ttl_too_long Issue_def GenerateCode_def time_Add_def DefaultCodeTTL_def)
qed

text \<open>
  C16. Only administrators issue codes. Behind the interceptors, a call of \<^verbatim>\<open>CreatePairingCode\<close>
  reaches the handler exactly when the caller's certificate names an administrator; for anyone else,
  an authenticated node included, the pairer stays as it was.
\<close>

theorem admin_only:
  "AdminInterceptors ctx req CreatePairingCode_FullMethodName (CreatePairingCode a n ne ng) p =
     (case PeerPrincipal ctx of
        None \<Rightarrow> (Inl (Status Unauthenticated (TransErr ErrNoPeerCert)), p)
      | Some q \<Rightarrow>
          if pr_Role q = RoleAdmin then CreatePairingCode a n ne ng ctx req p
          else (Inl (Status PermissionDenied (Wrap CreatePairingCode_FullMethodName (TransErr ErrNotAuthorized))), p))"
proof -
  have "\<not> (0 < length AdminServicePrefix \<and> (length CreatePairingCode_FullMethodName < length AdminServicePrefix \<or>
      take (length AdminServicePrefix) CreatePairingCode_FullMethodName \<noteq> AdminServicePrefix))"
    by (simp add: AdminServicePrefix_def CreatePairingCode_FullMethodName_def)
  then show ?thesis
    by (auto simp: AdminInterceptors_def RequireRole_unary_def role_check_def io_then_def split: option.splits)
qed

end
