(* ===== verification/Peer.thy ===== *)
theory Peer
  imports NodeName
begin

text \<open>
  \<^verbatim>\<open>internal/discovery/peer.go\<close>: the advertisement of a node, its TXT record, and peers with their
  addresses. \<^verbatim>\<open>net.IP\<close> is a list of bytes; its text form is written out as in
  \<^verbatim>\<open>net.IP.String\<close>.
\<close>

section \<open>IP addresses\<close>

type_synonym ip = bytes

definition To4 :: "ip \<Rightarrow> ip option" where
  "To4 b =
     (if length b = 4 then Some b
      else if length b = 16 \<and> take 10 b = replicate 10 0 \<and> b ! 10 = 0xFF \<and> b ! 11 = 0xFF then Some (drop 12 b)
      else None)"

definition ip4_String :: "ip \<Rightarrow> string" where
  "ip4_String b =
     nat_digits (unat (b ! 0)) @ ''.'' @ nat_digits (unat (b ! 1)) @ ''.'' @ nat_digits (unat (b ! 2)) @ ''.'' @
     nat_digits (unat (b ! 3))"

fun hex_digits :: "nat \<Rightarrow> string" where
  "hex_digits n = (if n < 16 then [hex_char n] else hex_digits (n div 16) @ [hex_char (n mod 16)])"

declare hex_digits.simps [simp del]

definition ip6_groups :: "ip \<Rightarrow> nat list" where
  "ip6_groups b = map (\<lambda>i. 256 * unat (b ! (2 * i)) + unat (b ! (2 * i + 1))) [0..<8]"

definition zero_run :: "nat list \<Rightarrow> nat \<Rightarrow> nat" where
  "zero_run gs i = length (takeWhile (\<lambda>g. g = 0) (drop i gs))"

text \<open>The first of the longest runs of two or more zero groups, as (start, length).\<close>

definition best_run :: "nat list \<Rightarrow> nat \<times> nat" where
  "best_run gs =
     foldl (\<lambda>(s, l) i. if 2 \<le> zero_run gs i \<and> l < zero_run gs i then (i, zero_run gs i) else (s, l)) (255, 0) [0..<8]"

fun join_groups :: "nat list \<Rightarrow> string" where
  "join_groups [] = []"
| "join_groups [g] = hex_digits g"
| "join_groups (g # gs) = hex_digits g @ '':'' @ join_groups gs"

definition ip6_String :: "ip \<Rightarrow> string" where
  "ip6_String b =
     (let gs = ip6_groups b; (s, l) = best_run gs
      in if l = 0 then join_groups gs else join_groups (take s gs) @ ''::'' @ join_groups (drop (s + l) gs))"

definition ip_String :: "ip \<Rightarrow> string" where
  "ip_String b =
     (if b = [] then ''<nil>''
      else case To4 b of
        Some v4 \<Rightarrow> ip4_String v4
      | None \<Rightarrow> if length b = 16 then ip6_String b else ''?'' @ hex_EncodeToString b)"

section \<open>Advertisements and peers\<close>

definition ServiceType :: string where "ServiceType = ''_lcm._tcp''"
definition Domain :: string where "Domain = ''local.''"
definition txtNodeID :: string where "txtNodeID = ''node_id''"
definition txtMeshID :: string where "txtMeshID = ''mesh_id''"
definition txtGRPCPort :: string where "txtGRPCPort = ''grpc_port''"
definition txtPairPort :: string where "txtPairPort = ''pair_port''"
definition txtFingerprint :: string where "txtFingerprint = ''fingerprint''"

lemmas txt_keys = txtNodeID_def txtMeshID_def txtGRPCPort_def txtPairPort_def txtFingerprint_def

record advertisement =
  ad_NodeID :: string
  ad_MeshID :: string
  ad_GRPCPort :: int
  ad_PairPort :: int
  ad_Fingerprint :: string

definition TXT :: "advertisement \<Rightarrow> string list" where
  "TXT a =
     [txtNodeID @ ''='' @ ad_NodeID a, txtMeshID @ ''='' @ ad_MeshID a, txtGRPCPort @ ''='' @ Itoa (ad_GRPCPort a)] @
     (if 0 < ad_PairPort a then [txtPairPort @ ''='' @ Itoa (ad_PairPort a)] else []) @
     (if ad_Fingerprint a \<noteq> [] then [txtFingerprint @ ''='' @ ad_Fingerprint a] else [])"

record peer =
  pe_NodeID :: string
  pe_MeshID :: string
  pe_Fingerprint :: string
  pe_Hostname :: string
  pe_Addrs :: "ip list"
  pe_GRPCPort :: int
  pe_PairPort :: int
  pe_LastSeen :: time

definition IsCoordinator :: "peer \<Rightarrow> bool" where
  "IsCoordinator p \<longleftrightarrow> 0 < pe_PairPort p"

definition hostPort :: "ip list \<Rightarrow> int \<Rightarrow> string" where
  "hostPort addrs port =
     (case find (\<lambda>a. To4 a \<noteq> None) addrs of
        Some a \<Rightarrow> JoinHostPort (ip_String a) (Itoa port)
      | None \<Rightarrow> (case addrs of a # _ \<Rightarrow> JoinHostPort (ip_String a) (Itoa port) | [] \<Rightarrow> []))"

definition PairAddr :: "peer \<Rightarrow> string" where
  "PairAddr p = (if pe_PairPort p = 0 then [] else hostPort (pe_Addrs p) (pe_PairPort p))"

definition GRPCAddr :: "peer \<Rightarrow> string" where
  "GRPCAddr p = hostPort (pe_Addrs p) (pe_GRPCPort p)"

text \<open>The map built from the TXT strings: the first occurrence of a key wins.\<close>

definition txt_insert :: "(string \<times> string) list \<Rightarrow> string \<Rightarrow> (string \<times> string) list" where
  "txt_insert kv s =
     (case Cut CHR ''='' s of
        (k, v, found) \<Rightarrow> if \<not> found then kv else if map_of kv k \<noteq> None then kv else AList.update k v kv)"

definition txt_map :: "string list \<Rightarrow> (string \<times> string) list" where
  "txt_map txt = foldl txt_insert [] txt"

definition kv_get :: "(string \<times> string) list \<Rightarrow> string \<Rightarrow> string" where
  "kv_get kv k = (case map_of kv k of None \<Rightarrow> [] | Some v \<Rightarrow> v)"

definition port_of :: "string \<Rightarrow> int option" where
  "port_of s = (case Atoi s of None \<Rightarrow> None | Some n \<Rightarrow> if n < 1 \<or> 65535 < n then None else Some n)"

definition ParseTXT :: "string list \<Rightarrow> err + peer" where
  "ParseTXT txt =
     (let kv = txt_map txt;
          p = \<lparr>pe_NodeID = kv_get kv txtNodeID, pe_MeshID = kv_get kv txtMeshID, pe_Fingerprint = kv_get kv txtFingerprint,
               pe_Hostname = [], pe_Addrs = [], pe_GRPCPort = 0, pe_PairPort = 0, pe_LastSeen = 0\<rparr>
      in if pe_NodeID p = [] then Inl (DiscErr ErrMissingNodeID)
         else if pe_MeshID p = [] then Inl (DiscErr ErrMissingMeshID)
         else if kv_get kv txtGRPCPort = [] then Inl (DiscErr ErrMissingGRPCPort)
         else (case port_of (kv_get kv txtGRPCPort) of
                 None \<Rightarrow> Inl (Wrap ''port'' (DiscErr ErrBadGRPCPort))
               | Some port \<Rightarrow>
                   let p1 = p\<lparr>pe_GRPCPort := port\<rparr> in
                   if kv_get kv txtPairPort = [] then Inr p1
                   else (case port_of (kv_get kv txtPairPort) of
                           None \<Rightarrow> Inl (Wrap ''pair_port'' (DiscErr ErrBadGRPCPort))
                         | Some pp \<Rightarrow> Inr (p1\<lparr>pe_PairPort := pp\<rparr>))))"

section \<open>Lemmas\<close>

lemma txt_insert_new:
  "CHR ''='' \<notin> set k \<Longrightarrow> map_of kv k = None \<Longrightarrow> txt_insert kv (k @ CHR ''='' # v) = kv @ [(k, v)]"
  by (simp add: txt_insert_def Cut_append update_absent)

lemma txt_keys_plain [simp]:
  "CHR ''='' \<notin> set txtNodeID" "CHR ''='' \<notin> set txtMeshID" "CHR ''='' \<notin> set txtGRPCPort"
  "CHR ''='' \<notin> set txtPairPort" "CHR ''='' \<notin> set txtFingerprint"
  by (simp_all add: txt_keys)

lemma txt_keys_distinct [simp]:
  "txtNodeID \<noteq> txtMeshID" "txtNodeID \<noteq> txtGRPCPort" "txtNodeID \<noteq> txtPairPort" "txtNodeID \<noteq> txtFingerprint"
  "txtMeshID \<noteq> txtGRPCPort" "txtMeshID \<noteq> txtPairPort" "txtMeshID \<noteq> txtFingerprint"
  "txtGRPCPort \<noteq> txtPairPort" "txtGRPCPort \<noteq> txtFingerprint" "txtPairPort \<noteq> txtFingerprint"
  by (simp_all add: txt_keys)

lemma txt_map_TXT:
  "txt_map (TXT a) =
     [(txtNodeID, ad_NodeID a), (txtMeshID, ad_MeshID a), (txtGRPCPort, Itoa (ad_GRPCPort a))] @
     (if 0 < ad_PairPort a then [(txtPairPort, Itoa (ad_PairPort a))] else []) @
     (if ad_Fingerprint a \<noteq> [] then [(txtFingerprint, ad_Fingerprint a)] else [])"
  using txt_keys_distinct[symmetric] by (simp add: txt_map_def TXT_def txt_insert_new)

lemma port_of_Itoa:
  "min_int64 \<le> n \<Longrightarrow> n \<le> max_int64 \<Longrightarrow> port_of (Itoa n) = (if 1 \<le> n \<and> n \<le> 65535 then Some n else None)"
  by (auto simp: port_of_def Atoi_Itoa)

section \<open>Properties\<close>

lemma ParseTXT_TXT_result:
  assumes "min_int64 \<le> ad_GRPCPort a" "ad_GRPCPort a \<le> max_int64" "ad_PairPort a \<le> max_int64"
  shows "ParseTXT (TXT a) =
    (if ad_NodeID a = [] then Inl (DiscErr ErrMissingNodeID)
     else if ad_MeshID a = [] then Inl (DiscErr ErrMissingMeshID)
     else if ad_GRPCPort a < 1 \<or> 65535 < ad_GRPCPort a then Inl (Wrap ''port'' (DiscErr ErrBadGRPCPort))
     else if 65535 < ad_PairPort a then Inl (Wrap ''pair_port'' (DiscErr ErrBadGRPCPort))
     else Inr \<lparr>pe_NodeID = ad_NodeID a, pe_MeshID = ad_MeshID a, pe_Fingerprint = ad_Fingerprint a, pe_Hostname = [],
       pe_Addrs = [], pe_GRPCPort = ad_GRPCPort a, pe_PairPort = max 0 (ad_PairPort a), pe_LastSeen = 0\<rparr>)"
proof -
  let ?kv = "txt_map (TXT a)"
  have get: "kv_get ?kv txtNodeID = ad_NodeID a" "kv_get ?kv txtMeshID = ad_MeshID a"
    "kv_get ?kv txtFingerprint = ad_Fingerprint a" "kv_get ?kv txtGRPCPort = Itoa (ad_GRPCPort a)"
    "kv_get ?kv txtPairPort = (if 0 < ad_PairPort a then Itoa (ad_PairPort a) else [])"
    using txt_keys_distinct[symmetric] by (simp_all add: txt_map_TXT kv_get_def)
  have pp: "port_of (Itoa (ad_PairPort a)) = (if ad_PairPort a \<le> 65535 then Some (ad_PairPort a) else None)"
    if "0 < ad_PairPort a" using that assms(3) by (auto simp: port_of_Itoa min_int64_def)
  show ?thesis
    using pp by (auto simp: ParseTXT_def Let_def get port_of_Itoa[OF assms(1,2)])
qed

text \<open>
  C30. Advertising and reading back. Parsing the TXT record of an advertisement gives its node id, mesh,
  fingerprint and ports exactly when node id and mesh are not empty and the ports are valid (no
  pairing port when it is not positive); otherwise the error names what is missing. This also holds
  when a field contains an equals sign.
\<close>

theorem ParseTXT_TXT:
  assumes "min_int64 \<le> ad_GRPCPort a" "ad_GRPCPort a \<le> max_int64" "ad_PairPort a \<le> max_int64"
  shows "ParseTXT (TXT a) =
    (if ad_NodeID a = [] then Inl (DiscErr ErrMissingNodeID)
     else if ad_MeshID a = [] then Inl (DiscErr ErrMissingMeshID)
     else if ad_GRPCPort a < 1 \<or> 65535 < ad_GRPCPort a then Inl (Wrap ''port'' (DiscErr ErrBadGRPCPort))
     else if 65535 < ad_PairPort a then Inl (Wrap ''pair_port'' (DiscErr ErrBadGRPCPort))
     else Inr \<lparr>pe_NodeID = ad_NodeID a, pe_MeshID = ad_MeshID a, pe_Fingerprint = ad_Fingerprint a, pe_Hostname = [],
       pe_Addrs = [], pe_GRPCPort = ad_GRPCPort a, pe_PairPort = max 0 (ad_PairPort a), pe_LastSeen = 0\<rparr>)"
  by (rule ParseTXT_TXT_result[OF assms])

theorem ParseTXT_TXT_witness:
  "ParseTXT (TXT \<lparr>ad_NodeID = ''a=b'', ad_MeshID = ''home'', ad_GRPCPort = 7443, ad_PairPort = 0, ad_Fingerprint = ''ff''\<rparr>) =
     Inr \<lparr>pe_NodeID = ''a=b'', pe_MeshID = ''home'', pe_Fingerprint = ''ff'', pe_Hostname = [], pe_Addrs = [],
       pe_GRPCPort = 7443, pe_PairPort = 0, pe_LastSeen = 0\<rparr>"
  using ParseTXT_TXT[of "\<lparr>ad_NodeID = ''a=b'', ad_MeshID = ''home'', ad_GRPCPort = 7443, ad_PairPort = 0, ad_Fingerprint = ''ff''\<rparr>"]
  by (simp add: min_int64_def max_int64_def)

section \<open>Addresses to dial\<close>

lemma digits_plain: "list_all is_digit_char s \<Longrightarrow> plain_host s"
  using digit_notin[of s] by (auto simp: plain_host_def is_digit_char_def)

lemma labels_plain: "list_all label_char s \<Longrightarrow> plain_host s"
  by (auto simp: plain_host_def list_all_iff label_char_ord)

lemma plain_append [simp]: "plain_host (s @ t) \<longleftrightarrow> plain_host s \<and> plain_host t"
  by (auto simp: plain_host_def)

lemma plain_Cons [simp]: "plain_host (c # t) \<longleftrightarrow> c \<noteq> CHR ''['' \<and> c \<noteq> CHR '']'' \<and> plain_host t"
  by (auto simp: plain_host_def)

lemma plain_Nil [simp]: "plain_host []"
  by (simp add: plain_host_def)

lemma hex_digits_label: "list_all label_char (hex_digits n)"
  by (induction n rule: hex_digits.induct) (subst hex_digits.simps, simp add: hex_char_label)

lemma join_groups_plain: "plain_host (join_groups gs)"
  by (induction gs rule: join_groups.induct) (simp_all add: labels_plain hex_digits_label)

lemma ip_String_plain: "plain_host (ip_String b)"
  by (auto simp: ip_String_def ip4_String_def ip6_String_def Let_def digits_plain nat_digits_all_digits
      labels_plain hex_all_label join_groups_plain split: option.splits prod.splits)

text \<open>Addresses are single words.\<close>

lemma labels_no_blank: "list_all label_char s \<Longrightarrow> CHR '' '' \<notin> set s"
  by (auto simp: list_all_iff label_char_ord)

lemma digits_no_blank: "list_all is_digit_char s \<Longrightarrow> CHR '' '' \<notin> set s"
  by (auto simp: list_all_iff is_digit_char_def)

lemma join_groups_no_blank: "CHR '' '' \<notin> set (join_groups gs)"
  by (induction gs rule: join_groups.induct) (simp_all add: labels_no_blank hex_digits_label)

lemma ip_String_no_blank: "CHR '' '' \<notin> set (ip_String b)"
  by (auto simp: ip_String_def ip4_String_def ip6_String_def Let_def digits_no_blank nat_digits_all_digits
      labels_no_blank hex_all_label join_groups_no_blank split: option.splits prod.splits)

text \<open>
  Where to dial a peer. The address of a peer with at least one IP is host and port of one of its own
  addresses, the first IPv4 one if there is any and else the first, in a form that splits back into
  that address and port; a peer without addresses has no address to dial.
\<close>

lemma hostPort_spec:
  assumes "0 \<le> port"
  shows "if addrs = [] then hostPort addrs port = []
    else \<exists>a \<in> set addrs. SplitHostPort (hostPort addrs port) = Inr (ip_String a, Itoa port) \<and>
      (if \<exists>b \<in> set addrs. To4 b \<noteq> None then To4 a \<noteq> None else a = hd addrs)"
proof -
  have port: "plain_host (Itoa port)" "CHR '':'' \<notin> set (Itoa port)"
    using Itoa_nonneg_digits[OF assms] digits_plain digit_notin by (auto simp: is_digit_char_def)
  have split: "SplitHostPort (JoinHostPort (ip_String a) (Itoa port)) = Inr (ip_String a, Itoa port)" for a
    by (rule SplitHostPort_JoinHostPort[OF ip_String_plain port])
  show ?thesis
  proof (cases "find (\<lambda>a. To4 a \<noteq> None) addrs")
    case None
    then have "\<not> (\<exists>b \<in> set addrs. To4 b \<noteq> None)" by (simp add: find_None_iff)
    with None show ?thesis by (cases addrs) (auto simp: hostPort_def split)
  next
    case (Some a)
    then have "a \<in> set addrs" "To4 a \<noteq> None" by (auto simp: find_Some_iff)
    with Some show ?thesis by (auto simp: hostPort_def split)
  qed
qed

end
