(* ===== verification/Ifaces.thy ===== *)
theory Ifaces
  imports Errors
begin

text \<open>
  \<^verbatim>\<open>internal/discovery/ifaces.go\<close>: which network interfaces discovery uses. The interfaces of the
  host, or the error of listing them, are an argument; so are the addresses of each.
\<close>

unbundle bit_operations_syntax

type_synonym net_flags = "64 word"

definition FlagUp :: net_flags where "FlagUp = 1"
definition FlagLoopback :: net_flags where "FlagLoopback = 4"
definition FlagPointToPoint :: net_flags where "FlagPointToPoint = 8"
definition FlagMulticast :: net_flags where "FlagMulticast = 16"

lemmas flag_defs = FlagUp_def FlagLoopback_def FlagPointToPoint_def FlagMulticast_def

record net_iface =
  if_Name :: string
  if_Flags :: net_flags
  if_Addrs :: "err + bytes list"

definition usable :: "net_iface \<Rightarrow> bool" where
  "usable ifi \<longleftrightarrow>
     if_Flags ifi AND (FlagUp OR FlagMulticast) = FlagUp OR FlagMulticast \<and>
     if_Flags ifi AND (FlagLoopback OR FlagPointToPoint) = 0"

fun usable_loop :: "net_iface list \<Rightarrow> net_iface list" where
  "usable_loop [] = []"
| "usable_loop (ifi # rest) =
     (if \<not> usable ifi then usable_loop rest
      else case if_Addrs ifi of
        Inl _ \<Rightarrow> usable_loop rest
      | Inr addrs \<Rightarrow> if length addrs = 0 then usable_loop rest else ifi # usable_loop rest)"

definition DefaultInterfaces :: "err + net_iface list \<Rightarrow> err + net_iface list" where
  "DefaultInterfaces host = and_then host (\<lambda>all_ifs. Inr (usable_loop all_ifs))"

definition LoopbackInterface :: "err + net_iface list \<Rightarrow> net_iface option" where
  "LoopbackInterface host =
     (case host of
        Inl _ \<Rightarrow> None
      | Inr all_ifs \<Rightarrow>
          find (\<lambda>ifi. if_Flags ifi AND FlagLoopback \<noteq> 0 \<and> if_Flags ifi AND FlagMulticast \<noteq> 0 \<and> if_Flags ifi AND FlagUp \<noteq> 0)
            all_ifs)"

lemma mask_all: "i < 64 \<Longrightarrow> j < 64 \<Longrightarrow> (w :: net_flags) AND (2 ^ i OR 2 ^ j) = 2 ^ i OR 2 ^ j \<longleftrightarrow> bit w i \<and> bit w j"
  by (auto simp: bit_eq_iff[where ?'a = net_flags] bit_or_iff bit_and_iff bit_exp_iff)

lemma mask_none: "i < 64 \<Longrightarrow> j < 64 \<Longrightarrow> (w :: net_flags) AND (2 ^ i OR 2 ^ j) = 0 \<longleftrightarrow> \<not> bit w i \<and> \<not> bit w j"
  by (auto simp: bit_eq_iff[where ?'a = net_flags] bit_or_iff bit_and_iff bit_exp_iff)

lemma usable_bits:
  "usable ifi \<longleftrightarrow> bit (if_Flags ifi) 0 \<and> bit (if_Flags ifi) 4 \<and> \<not> bit (if_Flags ifi) 2 \<and> \<not> bit (if_Flags ifi) 3"
  using mask_all[of 0 4 "if_Flags ifi"] mask_none[of 2 3 "if_Flags ifi"] by (simp add: usable_def flag_defs)

text \<open>
  The interfaces for discovery are, in the host's order, those that are up and multicast-capable,
  neither loopback nor point-to-point, and have at least one address; so the advertisement never goes
  out on the loopback interface or a tunnel.
\<close>

lemma DefaultInterfaces_spec:
  "DefaultInterfaces (Inr all_ifs) =
     Inr (filter (\<lambda>ifi. bit (if_Flags ifi) 0 \<and> bit (if_Flags ifi) 4 \<and> \<not> bit (if_Flags ifi) 2 \<and> \<not> bit (if_Flags ifi) 3 \<and>
       (\<exists>a rest. if_Addrs ifi = Inr (a # rest))) all_ifs)"
proof -
  have "usable_loop all_ifs = filter (\<lambda>ifi. usable ifi \<and> (\<exists>a rest. if_Addrs ifi = Inr (a # rest))) all_ifs"
    by (induction all_ifs) (auto simp: neq_Nil_conv split: sum.splits)
  then show ?thesis by (simp add: DefaultInterfaces_def usable_bits conj_assoc)
qed

end
