(* ===== verification/Mdns.thy ===== *)
theory Mdns
  imports Peer Ifaces FileSystem
begin

text \<open>
  \<^verbatim>\<open>internal/discovery/mdns.go\<close>: the table of peers and the events about it. The third-party
  zeroconf library is an argument (\<open>zc\<close>): whether it registers the service, creates a resolver and
  browses. Its browse results are the inputs of \<open>handleEntry\<close>. The event channel is the list of
  waiting events, at most \<^verbatim>\<open>EventBuffer\<close> long; logging is left out.
\<close>

section \<open>State\<close>

datatype event_kind = PeerAdded | PeerUpdated | PeerExpired

definition EventKind_String :: "event_kind \<Rightarrow> string" where
  "EventKind_String k = (case k of PeerAdded \<Rightarrow> ''added'' | PeerUpdated \<Rightarrow> ''updated'' | PeerExpired \<Rightarrow> ''expired'')"

record peer_event =
  ev_Kind :: event_kind
  ev_Peer :: peer

record mdns_config =
  mc_Advertisement :: advertisement
  mc_Interfaces :: "net_iface list option"
  mc_ExpireAfter :: duration
  mc_EventBuffer :: int
  mc_BrowseOnly :: bool

definition AnyMesh :: string where "AnyMesh = ''*''"

text \<open>
  \<open>md_server\<close> is the TXT text of the registered service, if there is one; \<open>md_cancel\<close> says whether the
  loop runs.
\<close>

record mdns =
  md_cfg :: mdns_config
  md_events :: "peer_event list"
  md_peers :: "(string \<times> peer) list"
  md_server :: "string list option"
  md_cancel :: bool

record service_entry =
  se_HostName :: string
  se_Port :: int
  se_Text :: "string list"
  se_AddrIPv4 :: "ip list"
  se_AddrIPv6 :: "ip list"

record zeroconf =
  zc_Interfaces :: "err + net_iface list"
  zc_Register :: "string \<Rightarrow> string \<Rightarrow> string \<Rightarrow> int \<Rightarrow> string list \<Rightarrow> net_iface list \<Rightarrow> err option"
  zc_NewResolver :: "net_iface list \<Rightarrow> err option"
  zc_Browse :: "string \<Rightarrow> string \<Rightarrow> err option"

section \<open>Operations\<close>

definition NewMDNS :: "mdns_config \<Rightarrow> err + mdns" where
  "NewMDNS cfg =
     (let ad = mc_Advertisement cfg in
      if ad_NodeID ad = [] then Inl (Msg ''discovery: NodeID is required'')
      else if ad_MeshID ad = [] then Inl (Msg ''discovery: MeshID is required'')
      else if ad_MeshID ad = AnyMesh \<and> \<not> mc_BrowseOnly cfg then
        Inl (Msg ''discovery: wildcard mesh is only allowed with BrowseOnly'')
      else if ad_GRPCPort ad < 1 \<or> 65535 < ad_GRPCPort ad then Inl (Msg ''discovery: GRPCPort out of range'')
      else
        let c1 = (if mc_ExpireAfter cfg \<le> 0 then cfg\<lparr>mc_ExpireAfter := 90 * Second\<rparr> else cfg);
            c2 = (if mc_EventBuffer c1 \<le> 0 then c1\<lparr>mc_EventBuffer := 64\<rparr> else c1)
        in Inr \<lparr>md_cfg = c2, md_events = [], md_peers = [], md_server = None, md_cancel = False\<rparr>)"

definition mdns_Stop :: "mdns \<Rightarrow> mdns" where
  "mdns_Stop m =
     (let m1 = (if md_cancel m then m\<lparr>md_cancel := False\<rparr> else m)
      in if md_server m1 \<noteq> None then m1\<lparr>md_server := None\<rparr> else m1)"

definition mdns_Start :: "zeroconf \<Rightarrow> (mdns, unit) io" where
  "mdns_Start zc m =
     (let ad = mc_Advertisement (md_cfg m) in
      case (case mc_Interfaces (md_cfg m) of
              Some ifs \<Rightarrow> Inr ifs
            | None \<Rightarrow> map_err (Wrap ''discovery: enumerate interfaces'') (DefaultInterfaces (zc_Interfaces zc))) of
        Inl e \<Rightarrow> (Inl e, m)
      | Inr ifs \<Rightarrow>
          if length ifs = 0 then (Inl (Msg ''discovery: no usable multicast interface''), m)
          else
            (case (if mc_BrowseOnly (md_cfg m) then Inr m
                   else case zc_Register zc (ad_NodeID ad) ServiceType Domain (ad_GRPCPort ad) (TXT ad) ifs of
                          Some e \<Rightarrow> Inl (Wrap ''discovery: register mDNS service'' e)
                        | None \<Rightarrow> Inr (m\<lparr>md_server := Some (TXT ad)\<rparr>)) of
               Inl e \<Rightarrow> (Inl e, m)
             | Inr m1 \<Rightarrow>
                 (case zc_NewResolver zc ifs of
                    Some e \<Rightarrow> (Inl (Wrap ''discovery: create mDNS resolver'' e), mdns_Stop m1)
                  | None \<Rightarrow>
                      (case zc_Browse zc ServiceType Domain of
                         Some e \<Rightarrow> (Inl (Wrap ''discovery: browse'' e), mdns_Stop m1)
                       | None \<Rightarrow> (Inr (), m1\<lparr>md_cancel := True\<rparr>)))))"

definition Peers :: "mdns \<Rightarrow> peer list" where
  "Peers m = sort_key pe_NodeID (map snd (md_peers m))"

definition SetFingerprint :: "string \<Rightarrow> mdns \<Rightarrow> mdns" where
  "SetFingerprint fp m =
     (let ad = (mc_Advertisement (md_cfg m))\<lparr>ad_Fingerprint := fp\<rparr>;
          m1 = m\<lparr>md_cfg := (md_cfg m)\<lparr>mc_Advertisement := ad\<rparr>\<rparr>
      in if md_server m1 \<noteq> None then m1\<lparr>md_server := Some (TXT ad)\<rparr> else m1)"

definition short :: "string \<Rightarrow> string" where
  "short fp = (if 12 < length fp then take 12 fp else fp)"

function strip_local :: "string \<Rightarrow> string" where
  "strip_local h = (if HasSuffix h ''.local.local'' then strip_local (TrimSuffix h ''.local'') else h)"
  by auto

termination
proof (relation "measure length")
  fix h assume "HasSuffix h ''.local.local''"
  then have "suffix ''.local'' h" using suffix_order.trans[of "''.local''" "''.local.local''" h]
    by (auto simp: HasSuffix_def suffix_def)
  then show "(TrimSuffix h ''.local'', h) \<in> measure length" by (auto simp: TrimSuffix_def suffix_def)
qed simp

declare strip_local.simps [simp del]

definition normalizeHost :: "string \<Rightarrow> string" where
  "normalizeHost h = strip_local (TrimSuffix h ''.'')"

definition emit :: "peer_event \<Rightarrow> mdns \<Rightarrow> mdns" where
  "emit ev m =
     (if int (length (md_events m)) < mc_EventBuffer (md_cfg m) then m\<lparr>md_events := md_events m @ [ev]\<rparr> else m)"

definition peerChanged :: "peer \<Rightarrow> peer \<Rightarrow> bool" where
  "peerChanged a b =
     (if pe_GRPCPort a \<noteq> pe_GRPCPort b \<or> pe_PairPort a \<noteq> pe_PairPort b \<or> pe_Fingerprint a \<noteq> pe_Fingerprint b \<or>
         pe_Hostname a \<noteq> pe_Hostname b then True
      else if length (pe_Addrs a) \<noteq> length (pe_Addrs b) then True
      else list_ex (\<lambda>x. ip_String x \<notin> set (map ip_String (pe_Addrs a))) (pe_Addrs b))"

definition entry_peer :: "peer \<Rightarrow> service_entry \<Rightarrow> time \<Rightarrow> peer" where
  "entry_peer p e now =
     (if 0 < se_Port e then p\<lparr>pe_GRPCPort := se_Port e\<rparr> else p)
       \<lparr>pe_Hostname := normalizeHost (se_HostName e), pe_Addrs := se_AddrIPv4 e @ se_AddrIPv6 e, pe_LastSeen := now\<rparr>"

definition handleEntry :: "service_entry \<Rightarrow> time \<Rightarrow> mdns \<Rightarrow> mdns" where
  "handleEntry e now m =
     (case ParseTXT (se_Text e) of
        Inl _ \<Rightarrow> m
      | Inr p0 \<Rightarrow>
          let ad = mc_Advertisement (md_cfg m) in
          if pe_NodeID p0 = ad_NodeID ad then m
          else if ad_MeshID ad \<noteq> AnyMesh \<and> pe_MeshID p0 \<noteq> ad_MeshID ad then m
          else
            let p = entry_peer p0 e now;
                prev = map_of (md_peers m) (pe_NodeID p);
                m1 = m\<lparr>md_peers := AList.update (pe_NodeID p) p (md_peers m)\<rparr>
            in (case prev of
                  None \<Rightarrow> emit \<lparr>ev_Kind = PeerAdded, ev_Peer = p\<rparr> m1
                | Some q \<Rightarrow> if peerChanged q p then emit \<lparr>ev_Kind = PeerUpdated, ev_Peer = p\<rparr> m1 else m1))"

text \<open>\<open>order\<close> is the order in which Go iterates the map of peers.\<close>

definition is_expired :: "mdns \<Rightarrow> time \<Rightarrow> string \<times> peer \<Rightarrow> bool" where
  "is_expired m now e \<longleftrightarrow> mc_ExpireAfter (md_cfg m) < time_Sub now (pe_LastSeen (snd e))"

definition expire :: "((string \<times> peer) list \<Rightarrow> (string \<times> peer) list) \<Rightarrow> time \<Rightarrow> mdns \<Rightarrow> mdns" where
  "expire order now m =
     (let expired = map snd (filter (is_expired m now) (order (md_peers m)));
          m1 = m\<lparr>md_peers := filter (\<lambda>e. \<not> is_expired m now e) (md_peers m)\<rparr>
      in foldl (\<lambda>s p. emit \<lparr>ev_Kind = PeerExpired, ev_Peer = p\<rparr> s) m1 expired)"

text \<open>
  One round of the loop's \<^verbatim>\<open>select\<close>: a browse result, a tick of the sweep timer, or the end (the
  context is done or the channel of results is closed).
\<close>

datatype loop_input = GotEntry service_entry time | Tick time "(string \<times> peer) list \<Rightarrow> (string \<times> peer) list" | Done | Closed

fun mdns_loop :: "loop_input list \<Rightarrow> mdns \<Rightarrow> mdns" where
  "mdns_loop [] m = m"
| "mdns_loop (GotEntry e now # xs) m = mdns_loop xs (handleEntry e now m)"
| "mdns_loop (Tick now order # xs) m = mdns_loop xs (expire order now m)"
| "mdns_loop (Done # xs) m = m"
| "mdns_loop (Closed # xs) m = m"

section \<open>The invariant\<close>

definition peer_entry_ok :: "advertisement \<Rightarrow> string \<times> peer \<Rightarrow> bool" where
  "peer_entry_ok ad e \<longleftrightarrow> pe_NodeID (snd e) = fst e \<and> fst e \<noteq> [] \<and> fst e \<noteq> ad_NodeID ad \<and>
     (ad_MeshID ad = AnyMesh \<or> pe_MeshID (snd e) = ad_MeshID ad)"

definition mdns_inv :: "mdns \<Rightarrow> bool" where
  "mdns_inv m \<longleftrightarrow> distinct_keys (md_peers m) \<and> list_all (peer_entry_ok (mc_Advertisement (md_cfg m))) (md_peers m) \<and>
     int (length (md_events m)) \<le> mc_EventBuffer (md_cfg m) \<and> 0 < mc_EventBuffer (md_cfg m) \<and>
     0 < mc_ExpireAfter (md_cfg m)"

lemma emit_sel [simp]: "md_cfg (emit ev m) = md_cfg m" "md_peers (emit ev m) = md_peers m"
  "md_server (emit ev m) = md_server m" "md_cancel (emit ev m) = md_cancel m"
  by (simp_all add: emit_def)

lemma emit_inv: "mdns_inv m \<Longrightarrow> mdns_inv (emit ev m)"
  by (auto simp: mdns_inv_def emit_def)

lemma emits_sel: "md_cfg (foldl (\<lambda>s p. emit (f p) s) m ps) = md_cfg m \<and> md_peers (foldl (\<lambda>s p. emit (f p) s) m ps) = md_peers m"
  by (induction ps arbitrary: m) simp_all

lemma emits_inv: "mdns_inv m \<Longrightarrow> mdns_inv (foldl (\<lambda>s p. emit (f p) s) m ps)"
  by (induction ps arbitrary: m) (simp_all add: emit_inv)

lemma emits_events:
  "int (length (md_events m) + length ps) \<le> mc_EventBuffer (md_cfg m) \<Longrightarrow>
     md_events (foldl (\<lambda>s p. emit (f p) s) m ps) = md_events m @ map f ps"
  by (induction ps arbitrary: m) (simp_all add: emit_def)

lemma NewMDNS_inv: "NewMDNS cfg = Inr m \<Longrightarrow> mdns_inv m"
  by (auto simp: NewMDNS_def Let_def mdns_inv_def go_time split: if_splits)

lemma ParseTXT_fields:
  assumes "ParseTXT txt = Inr p"
  shows "pe_NodeID p \<noteq> [] \<and> pe_MeshID p \<noteq> [] \<and> 1 \<le> pe_GRPCPort p \<and> pe_GRPCPort p \<le> 65535 \<and>
    0 \<le> pe_PairPort p \<and> pe_PairPort p \<le> 65535"
  using assms by (auto simp: ParseTXT_def Let_def port_of_def split: if_splits option.splits)

lemma entry_peer_sel [simp]:
  "pe_NodeID (entry_peer p e now) = pe_NodeID p" "pe_MeshID (entry_peer p e now) = pe_MeshID p"
  "pe_LastSeen (entry_peer p e now) = now" "pe_Addrs (entry_peer p e now) = se_AddrIPv4 e @ se_AddrIPv6 e"
  "pe_PairPort (entry_peer p e now) = pe_PairPort p"
  by (simp_all add: entry_peer_def)

text \<open>\<open>handleEntry\<close> either does nothing, or stores one peer and emits at most one event.\<close>

lemma handleEntry_cases:
  obtains (ignored) "handleEntry e now m = m"
  | (stored) p evs where
      "handleEntry e now m = foldl (\<lambda>s x. emit x s) (m\<lparr>md_peers := AList.update (pe_NodeID p) p (md_peers m)\<rparr>) evs"
      "peer_entry_ok (mc_Advertisement (md_cfg m)) (pe_NodeID p, p)" "pe_LastSeen p = now"
      "evs = (case map_of (md_peers m) (pe_NodeID p) of None \<Rightarrow> [\<lparr>ev_Kind = PeerAdded, ev_Peer = p\<rparr>]
         | Some q \<Rightarrow> if peerChanged q p then [\<lparr>ev_Kind = PeerUpdated, ev_Peer = p\<rparr>] else [])"
proof (cases "ParseTXT (se_Text e)")
  case (Inl x)
  then show thesis using ignored by (simp add: handleEntry_def)
next
  case (Inr p0)
  let ?ad = "mc_Advertisement (md_cfg m)" let ?p = "entry_peer p0 e now"
  show thesis
  proof (cases "pe_NodeID p0 = ad_NodeID ?ad \<or> ad_MeshID ?ad \<noteq> AnyMesh \<and> pe_MeshID p0 \<noteq> ad_MeshID ?ad")
    case True
    then have "handleEntry e now m = m" using Inr by (auto simp: handleEntry_def Let_def)
    then show thesis by (rule ignored)
  next
    case False
    show thesis
      by (rule stored[of ?p])
        (use False Inr ParseTXT_fields[OF Inr] in \<open>auto simp: handleEntry_def Let_def peer_entry_ok_def split: option.splits\<close>)
  qed
qed

lemma handleEntry_inv: "mdns_inv m \<Longrightarrow> mdns_inv (handleEntry e now m)"
proof (cases rule: handleEntry_cases[of e now m])
  case (stored p evs)
  assume "mdns_inv m"
  then have "mdns_inv (m\<lparr>md_peers := AList.update (pe_NodeID p) p (md_peers m)\<rparr>)"
    using stored(2) set_update_subset[of "pe_NodeID p" p "md_peers m"]
    by (auto simp: mdns_inv_def distinct_keys_update list_all_iff)
  then show ?thesis unfolding stored(1) by (rule emits_inv)
qed simp

lemma expire_inv: "mdns_inv m \<Longrightarrow> mdns_inv (expire order now m)"
  unfolding expire_def Let_def
  by (rule emits_inv) (auto simp: mdns_inv_def distinct_keys_filter list_all_iff)

lemma SetFingerprint_inv: "mdns_inv m \<Longrightarrow> mdns_inv (SetFingerprint fp m)"
proof -
  have "peer_entry_ok (ad\<lparr>ad_Fingerprint := fp\<rparr>) = peer_entry_ok ad" for ad
    by (simp add: fun_eq_iff peer_entry_ok_def)
  then show "mdns_inv m \<Longrightarrow> mdns_inv (SetFingerprint fp m)"
    by (simp add: SetFingerprint_def Let_def mdns_inv_def)
qed

lemma mdns_loop_inv: "mdns_inv m \<Longrightarrow> mdns_inv (mdns_loop xs m)"
  by (induction xs m rule: mdns_loop.induct) (simp_all add: handleEntry_inv expire_inv)

section \<open>Events\<close>

text \<open>What a consumer of the events believes about which peers exist.\<close>

definition ev_apply :: "string set \<Rightarrow> peer_event \<Rightarrow> string set" where
  "ev_apply V ev =
     (case ev_Kind ev of
        PeerAdded \<Rightarrow> insert (pe_NodeID (ev_Peer ev)) V
      | PeerUpdated \<Rightarrow> V
      | PeerExpired \<Rightarrow> V - {pe_NodeID (ev_Peer ev)})"

definition node_ids :: "mdns \<Rightarrow> string set" where
  "node_ids m = fst ` set (md_peers m)"

lemma replay_expired:
  "foldl ev_apply V (map (\<lambda>p. \<lparr>ev_Kind = PeerExpired, ev_Peer = p\<rparr>) ps) = V - pe_NodeID ` set ps"
  by (induction ps arbitrary: V) (auto simp: ev_apply_def)

lemma handleEntry_view:
  assumes "foldl ev_apply V (md_events m) = node_ids m" "int (length (md_events m)) < mc_EventBuffer (md_cfg m)"
  shows "foldl ev_apply V (md_events (handleEntry e now m)) = node_ids (handleEntry e now m)"
proof (cases rule: handleEntry_cases[of e now m])
  case ignored
  then show ?thesis using assms(1) by simp
next
  case (stored p evs)
  let ?m = "m\<lparr>md_peers := AList.update (pe_NodeID p) p (md_peers m)\<rparr>"
  have ids: "node_ids (handleEntry e now m) = insert (pe_NodeID p) (node_ids m)"
    unfolding stored(1) node_ids_def using emits_sel[of id ?m evs] by (simp add: keys_update)
  have "length evs \<le> 1" using stored(4) by (auto split: option.splits)
  then have evs: "md_events (handleEntry e now m) = md_events m @ evs"
    unfolding stored(1) using emits_events[of ?m evs id] assms(2) by simp
  have known: "map_of (md_peers m) (pe_NodeID p) = Some q \<Longrightarrow> pe_NodeID p \<in> node_ids m" for q
    using map_of_SomeD by (force simp: node_ids_def)
  show ?thesis unfolding evs ids using assms(1) stored(4) known
    by (auto simp: ev_apply_def split: option.splits if_splits)
qed

lemma expire_view:
  assumes inv: "mdns_inv m" and order: "mset (order (md_peers m)) = mset (md_peers m)"
    and view: "foldl ev_apply V (md_events m) = node_ids m"
    and room: "int (length (md_events m) + length (md_peers m)) \<le> mc_EventBuffer (md_cfg m)"
  shows "foldl ev_apply V (md_events (expire order now m)) = node_ids (expire order now m)"
proof -
  let ?gone = "map snd (filter (is_expired m now) (order (md_peers m)))"
  let ?m = "m\<lparr>md_peers := filter (\<lambda>e. \<not> is_expired m now e) (md_peers m)\<rparr>"
  let ?f = "\<lambda>p. \<lparr>ev_Kind = PeerExpired, ev_Peer = p\<rparr>"
  have set: "set (order (md_peers m)) = set (md_peers m)" using order by (rule mset_eq_setD)
  have "length ?gone \<le> length (order (md_peers m))" by simp
  also have "\<dots> = length (md_peers m)" using order by (rule mset_eq_length)
  finally have "length ?gone \<le> length (md_peers m)" .
  then have evs: "md_events (expire order now m) = md_events m @ map ?f ?gone"
    unfolding expire_def Let_def using emits_events[of ?m ?gone ?f] room by simp
  have peers: "md_peers (expire order now m) = filter (\<lambda>e. \<not> is_expired m now e) (md_peers m)"
    unfolding expire_def Let_def using emits_sel[of ?f ?m ?gone] by simp
  have key: "pe_NodeID (snd e) = fst e" if "e \<in> set (md_peers m)" for e
    using inv that by (auto simp: mdns_inv_def list_all_iff peer_entry_ok_def)
  have "pe_NodeID ` set ?gone = (\<lambda>e. pe_NodeID (snd e)) ` {e \<in> set (md_peers m). is_expired m now e}"
    by (simp add: set image_image)
  also have "\<dots> = fst ` {e \<in> set (md_peers m). is_expired m now e}"
    by (rule image_cong[OF refl]) (simp add: key)
  finally have "pe_NodeID ` set ?gone = fst ` {e \<in> set (md_peers m). is_expired m now e}" .
  moreover have "node_ids m - fst ` {e \<in> set (md_peers m). is_expired m now e} =
      fst ` {e \<in> set (md_peers m). \<not> is_expired m now e}"
    using inv by (auto simp: node_ids_def mdns_inv_def distinct_map inj_on_def image_iff)
  ultimately show ?thesis
    using view replay_expired[of "node_ids m" ?gone] by (simp add: evs peers node_ids_def[of "expire order now m"])
qed

section \<open>Properties\<close>

definition demo_ad :: advertisement where
  "demo_ad = \<lparr>ad_NodeID = ''me'', ad_MeshID = ''home'', ad_GRPCPort = 7443, ad_PairPort = 0, ad_Fingerprint = []\<rparr>"

definition demo_mdns :: mdns where
  "demo_mdns = \<lparr>md_cfg = \<lparr>mc_Advertisement = demo_ad, mc_Interfaces = None, mc_ExpireAfter = 90 * Second, mc_EventBuffer = 64,
     mc_BrowseOnly = False\<rparr>, md_events = [], md_peers = [], md_server = None, md_cancel = False\<rparr>"

definition demo_mdns_cfg :: mdns_config where
  "demo_mdns_cfg = \<lparr>mc_Advertisement = demo_ad, mc_Interfaces = None, mc_ExpireAfter = 0, mc_EventBuffer = 0, mc_BrowseOnly = False\<rparr>"

lemma demo_NewMDNS: "NewMDNS demo_mdns_cfg = Inr demo_mdns"
  by (simp add: NewMDNS_def demo_mdns_cfg_def demo_mdns_def demo_ad_def AnyMesh_def Let_def)

text \<open>
  C28. The peer table. Whatever browse results and timer ticks the loop sees, every peer is stored once
  under its own non-empty node id, never this node itself, and only peers of this node's mesh are
  stored unless the instance browses all meshes; the event channel never exceeds its buffer. What
  \<^verbatim>\<open>Peers\<close> returns is that table in strictly increasing order of node ids.
\<close>

theorem mdns_loop_table:
  assumes "NewMDNS cfg = Inr m0" "m = mdns_loop xs m0"
  shows "mdns_inv m \<and> sorted_wrt (<) (map pe_NodeID (Peers m)) \<and> set (Peers m) = snd ` set (md_peers m)"
proof -
  have inv: "mdns_inv m" using mdns_loop_inv[OF NewMDNS_inv[OF assms(1)]] assms(2) by simp
  have "map pe_NodeID (map snd (md_peers m)) = map fst (md_peers m)"
    using inv by (auto simp: mdns_inv_def list_all_iff peer_entry_ok_def)
  then have "distinct (map pe_NodeID (map snd (md_peers m)))" using inv by (simp only: mdns_inv_def)
  then have "distinct (map pe_NodeID (Peers m))"
    unfolding Peers_def by (metis distinct_map distinct_sort set_sort)
  moreover have "sorted (map pe_NodeID (Peers m))" by (simp add: Peers_def)
  ultimately have "sorted_wrt (<) (map pe_NodeID (Peers m))" by (simp add: strict_sorted_iff)
  then show ?thesis using inv by (simp add: Peers_def)
qed

theorem mdns_loop_table_witness: "mdns_inv (mdns_loop [Tick 0 id] demo_mdns)"
  using mdns_loop_table[OF demo_NewMDNS refl] by blast

text \<open>
  The loop and a consumer of its events. The steps are a browse result, a tick of the sweep timer and
  the receipt of an event; the set is what the consumer has made of the events it received. A browse
  result or a tick comes while the channel has room for what it may send, so that \<^verbatim>\<open>emit\<close> drops nothing.
\<close>

inductive watch_step :: "mdns \<times> string set \<Rightarrow> mdns \<times> string set \<Rightarrow> bool" where
  got: "int (length (md_events m)) < mc_EventBuffer (md_cfg m) \<Longrightarrow> watch_step (m, V) (handleEntry e now m, V)"
| swept: "mset (order (md_peers m)) = mset (md_peers m) \<Longrightarrow>
    int (length (md_events m) + length (md_peers m)) \<le> mc_EventBuffer (md_cfg m) \<Longrightarrow> watch_step (m, V) (expire order now m, V)"
| received: "md_events m = ev # evs \<Longrightarrow> watch_step (m, V) (m\<lparr>md_events := evs\<rparr>, ev_apply V ev)"

lemma watch_step_view:
  assumes "watch_step (m, V) (m', V')" "mdns_inv m" "foldl ev_apply V (md_events m) = node_ids m"
  shows "mdns_inv m' \<and> foldl ev_apply V' (md_events m') = node_ids m'"
  using assms(1)
proof cases
  case (got e now)
  then show ?thesis using assms(2,3) by (simp add: handleEntry_inv handleEntry_view)
next
  case (swept order now)
  then show ?thesis using assms(2,3) by (simp add: expire_inv expire_view)
next
  case (received ev evs)
  then show ?thesis using assms(2,3) by (simp add: mdns_inv_def node_ids_def)
qed

lemma watch_view:
  assumes "watch_step\<^sup>*\<^sup>* (m0, V0) (m, V)" "mdns_inv m0" "foldl ev_apply V0 (md_events m0) = node_ids m0"
  shows "mdns_inv m \<and> foldl ev_apply V (md_events m) = node_ids m"
  using assms by (induction rule: rtranclp_induct2) (auto dest: watch_step_view)

text \<open>
  C29. The events tell the truth. A consumer that starts with a new instance and receives events while
  browse results and timer ticks come in, in any order and as long as the channel has room, knows
  with the events still in the channel exactly the node ids in the table; when it has received all of
  them, it knows exactly these ids.
\<close>

theorem events_track_peers:
  assumes "NewMDNS cfg = Inr m0" "watch_step\<^sup>*\<^sup>* (m0, {}) (m, V)"
  shows "foldl ev_apply V (md_events m) = node_ids m \<and> (md_events m = [] \<longrightarrow> V = node_ids m)"
proof -
  have "md_events m0 = [] \<and> md_peers m0 = []" using assms(1) by (auto simp: NewMDNS_def Let_def split: if_splits)
  then have "foldl ev_apply V (md_events m) = node_ids m"
    using watch_view[OF assms(2) NewMDNS_inv[OF assms(1)]] by (simp add: node_ids_def)
  then show ?thesis by (metis foldl_Nil)
qed

theorem events_track_peers_witness:
  "\<exists>m. watch_step\<^sup>*\<^sup>* (demo_mdns, {}) (m, {''desk''}) \<and> node_ids m = {''desk''}"
proof -
  let ?ad = "\<lparr>ad_NodeID = ''desk'', ad_MeshID = ''home'', ad_GRPCPort = 7443, ad_PairPort = 0, ad_Fingerprint = []\<rparr>"
  let ?e = "\<lparr>se_HostName = [], se_Port = 7443, se_Text = TXT ?ad, se_AddrIPv4 = [], se_AddrIPv6 = []\<rparr>"
  define p where "p = \<lparr>pe_NodeID = ''desk'', pe_MeshID = ''home'', pe_Fingerprint = [], pe_Hostname = [], pe_Addrs = [],
    pe_GRPCPort = 7443, pe_PairPort = 0, pe_LastSeen = 0\<rparr>"
  have p: "ParseTXT (TXT ?ad) = Inr p" "pe_NodeID p = ''desk''" "pe_MeshID p = ''home''"
    using ParseTXT_TXT_result[of ?ad] by (simp_all add: p_def min_int64_def max_int64_def)
  let ?m = "handleEntry ?e 5 demo_mdns" and ?ev = "\<lparr>ev_Kind = PeerAdded, ev_Peer = entry_peer p ?e 5\<rparr>"
  have ev: "md_events ?m = [?ev]"
    using p by (simp add: handleEntry_def Let_def demo_mdns_def demo_ad_def emit_def)
  have "watch_step (demo_mdns, {}) (?m, {})" by (rule watch_step.got) (simp add: demo_mdns_def)
  moreover have "watch_step (?m, {}) (?m\<lparr>md_events := []\<rparr>, ev_apply {} ?ev)" using ev by (rule watch_step.received)
  moreover have "ev_apply {} ?ev = {''desk''}" by (simp add: ev_apply_def p(2))
  ultimately have run: "watch_step\<^sup>*\<^sup>* (demo_mdns, {}) (?m\<lparr>md_events := []\<rparr>, {''desk''})" by (simp add: converse_rtranclp_into_rtranclp)
  then show ?thesis using events_track_peers[OF demo_NewMDNS run] by auto
qed

text \<open>
  Expiry. A sweep at time \<open>now\<close> keeps exactly the peers heard from within the configured time, and
  leaves their entries as they are.
\<close>

lemma expire_spec:
  assumes "0 < mc_ExpireAfter (md_cfg m)" "mc_ExpireAfter (md_cfg m) < max_int64" "distinct_keys (md_peers m)"
  shows "map_of (md_peers (expire order now m)) k =
    (case map_of (md_peers m) k of None \<Rightarrow> None
     | Some p \<Rightarrow> if now - pe_LastSeen p \<le> mc_ExpireAfter (md_cfg m) then Some p else None)"
proof -
  let ?f = "\<lambda>p. \<lparr>ev_Kind = PeerExpired, ev_Peer = p\<rparr>"
  have peers: "md_peers (expire order now m) = filter (\<lambda>e. \<not> is_expired m now e) (md_peers m)"
    unfolding expire_def Let_def
    using emits_sel[of ?f "m\<lparr>md_peers := filter (\<lambda>e. \<not> is_expired m now e) (md_peers m)\<rparr>"] by simp
  have "(\<lambda>e. \<not> is_expired m now e) = (\<lambda>(k, p). now - pe_LastSeen p \<le> mc_ExpireAfter (md_cfg m))"
    using assms(1,2) by (auto simp: fun_eq_iff is_expired_def time_Sub_greater_iff min_int64_def)
  then show ?thesis unfolding peers by (simp add: map_of_filter_snd[OF assms(3)])
qed

text \<open>
  A change that goes unnoticed. \<^verbatim>\<open>peerChanged\<close> compares the sets of addresses in one direction
  only and not their order: a peer that loses one of two addresses while the other is listed twice,
  or whose address to dial becomes a different one, can be taken as unchanged, so no
  \<^verbatim>\<open>PeerUpdated\<close> event is sent although the address a dialer uses has changed.
\<close>

lemma peerChanged_misses:
  "\<exists>p q. GRPCAddr p \<noteq> GRPCAddr q \<and> set (pe_Addrs p) \<noteq> set (pe_Addrs q) \<and> \<not> peerChanged p q"
proof -
  define p where "p = \<lparr>pe_NodeID = ''n'', pe_MeshID = ''m'', pe_Fingerprint = [], pe_Hostname = [],
    pe_Addrs = [[10, 0, 0, 1], [10, 0, 0, 2 :: byte]], pe_GRPCPort = 7, pe_PairPort = 0, pe_LastSeen = 0\<rparr>"
  define q where "q = p\<lparr>pe_Addrs := [[10, 0, 0, 2], [10, 0, 0, 2]]\<rparr>"
  have "GRPCAddr p = ''10.0.0.1:7''" and "GRPCAddr q = ''10.0.0.2:7''"
    by (simp_all add: p_def q_def GRPCAddr_def hostPort_def To4_def ip_String_def ip4_String_def JoinHostPort_def Itoa_def
        nat_digits.simps digit_char_def) code_simp+
  then have "GRPCAddr p \<noteq> GRPCAddr q" by simp
  moreover have "\<not> peerChanged p q" by (simp add: p_def q_def peerChanged_def)
  moreover have "set (pe_Addrs p) \<noteq> set (pe_Addrs q)" by (auto simp: p_def q_def)
  ultimately show ?thesis by blast
qed

lemma strip_local_no_double: "\<not> HasSuffix (strip_local h) ''.local.local''"
  by (induction h rule: strip_local.induct) (subst strip_local.simps, simp)

end
