(* ===== verification/GoNumbers.thy ===== *)
theory GoNumbers
  imports GoStrings
begin

text \<open>
  Reading and printing of values by the standard library, as the command-line flags and the output use
  it: \<^verbatim>\<open>strconv.ParseBool\<close>, \<^verbatim>\<open>strconv.ParseInt(s, 0, 64)\<close>, \<^verbatim>\<open>time.ParseDuration\<close>,
  \<^verbatim>\<open>Duration.String\<close> and \<^verbatim>\<open>Duration.Round\<close>. Where the library's error has a text that the program
  only passes on, the result is an option.
\<close>

section \<open>\<^verbatim>\<open>strconv\<close>\<close>

definition ParseBool :: "string \<Rightarrow> bool option" where
  "ParseBool s =
     (if s \<in> set [''1'', ''t'', ''T'', ''TRUE'', ''true'', ''True''] then Some True
      else if s \<in> set [''0'', ''f'', ''F'', ''FALSE'', ''false'', ''False''] then Some False
      else None)"

text \<open>\<open>lower\<close> is the library's \<^verbatim>\<open>c | ('x' - 'X')\<close>: it sets the bit of value 32.\<close>

definition lower_ord :: "char \<Rightarrow> nat" where
  "lower_ord c = (if ord_of c div 32 mod 2 = 0 then ord_of c + 32 else ord_of c)"

definition digit_of :: "char \<Rightarrow> nat option" where
  "digit_of c =
     (if is_digit_char c then Some (ord_of c - 48)
      else if 97 \<le> lower_ord c \<and> lower_ord c \<le> 122 then Some (lower_ord c - 87) else None)"

definition max_uint64 :: nat where "max_uint64 = 18446744073709551615"

text \<open>The loop of \<^verbatim>\<open>ParseUint\<close>; an underscore is skipped (the base was not given). A value out of range is an error.\<close>

fun uint_loop :: "nat \<Rightarrow> nat \<Rightarrow> string \<Rightarrow> nat option" where
  "uint_loop base n [] = Some n"
| "uint_loop base n (c # cs) =
     (if c = CHR ''_'' then uint_loop base n cs
      else case digit_of c of
        None \<Rightarrow> None
      | Some d \<Rightarrow> if base \<le> d then None
                  else if max_uint64 < n * base + d then None
                  else uint_loop base (n * base + d) cs)"

datatype saw = SawStart | SawDigit | SawUnderscore | SawOther

fun underscore_loop :: "bool \<Rightarrow> saw \<Rightarrow> string \<Rightarrow> bool" where
  "underscore_loop hex saw [] \<longleftrightarrow> saw \<noteq> SawUnderscore"
| "underscore_loop hex saw (c # cs) \<longleftrightarrow>
     (if is_digit_char c \<or> hex \<and> 97 \<le> lower_ord c \<and> lower_ord c \<le> 102 then underscore_loop hex SawDigit cs
      else if c = CHR ''_'' then saw = SawDigit \<and> underscore_loop hex SawUnderscore cs
      else saw \<noteq> SawUnderscore \<and> underscore_loop hex SawOther cs)"

text \<open>The base of a number by its prefix, and the digits that follow.\<close>

definition base_prefix :: "string \<Rightarrow> nat \<times> string" where
  "base_prefix s =
     (case s of
        c # r \<Rightarrow>
          if c \<noteq> CHR ''0'' then (10, s)
          else (case r of
                  b # d # ds \<Rightarrow>
                    if lower_ord b = 98 then (2, d # ds)
                    else if lower_ord b = 111 then (8, d # ds)
                    else if lower_ord b = 120 then (16, d # ds)
                    else (8, r)
                | _ \<Rightarrow> (8, r))
      | [] \<Rightarrow> (10, s))"

definition underscoreOK :: "string \<Rightarrow> bool" where
  "underscoreOK s =
     (let t = (case s of c # r \<Rightarrow> if c = CHR ''-'' \<or> c = CHR ''+'' then r else s | [] \<Rightarrow> s)
      in case t of
           z # b # r \<Rightarrow>
             if z = CHR ''0'' \<and> (lower_ord b = 98 \<or> lower_ord b = 111 \<or> lower_ord b = 120)
             then underscore_loop (lower_ord b = 120) SawDigit r
             else underscore_loop False SawStart t
         | _ \<Rightarrow> underscore_loop False SawStart t)"

definition ParseUint0 :: "string \<Rightarrow> nat option" where
  "ParseUint0 s =
     (if s = [] then None
      else case base_prefix s of (base, ds) \<Rightarrow>
        (case uint_loop base 0 ds of
           None \<Rightarrow> None
         | Some n \<Rightarrow> if CHR ''_'' \<in> set ds \<and> \<not> underscoreOK s then None else Some n))"

definition ParseInt0 :: "string \<Rightarrow> int option" where
  "ParseInt0 s =
     (let (neg, u) = (case s of c # r \<Rightarrow> if c = CHR ''+'' then (False, r)
                                        else if c = CHR ''-'' then (True, r) else (False, s)
                      | [] \<Rightarrow> (False, s))
      in case ParseUint0 u of
           None \<Rightarrow> None
         | Some n \<Rightarrow> if \<not> neg \<and> max_int64 < int n then None
                     else if neg \<and> int n > max_int64 + 1 then None
                     else Some (if neg then - int n else int n))"

lemma ParseInt0_range: "ParseInt0 s = Some n \<Longrightarrow> min_int64 \<le> n \<and> n \<le> max_int64"
  by (auto simp: ParseInt0_def min_int64_def max_int64_def Let_def split: list.splits if_splits option.splits)

lemma digit_of_digit: "is_digit_char c \<Longrightarrow> digit_of c = Some (ord_of c - 48)"
  by (simp add: digit_of_def)

lemma digit_not_underscore: "is_digit_char c \<Longrightarrow> c \<noteq> CHR ''_''"
  by (auto simp: is_digit_char_def)

lemma uint_loop_snoc: "uint_loop b n (xs @ [c]) = (case uint_loop b n xs of None \<Rightarrow> None | Some m \<Rightarrow> uint_loop b m [c])"
  by (induction b n xs rule: uint_loop.induct) (auto split: option.splits)

lemma uint_loop_digits: "list_all is_digit_char ds \<Longrightarrow> digits_val ds \<le> max_uint64 \<Longrightarrow> uint_loop 10 0 ds = Some (digits_val ds)"
proof (induction ds rule: rev_induct)
  case Nil
  then show ?case by (simp add: digits_val_def)
next
  case (snoc c ds)
  then have c: "is_digit_char c" "ord_of c - 48 < 10" and v: "digits_val ds * 10 + (ord_of c - 48) \<le> max_uint64" "digits_val ds \<le> max_uint64"
    by (auto simp: digits_val_snoc is_digit_char_def)
  then show ?case using snoc.IH snoc.prems(1) digit_not_underscore[OF c(1)]
    by (simp add: uint_loop_snoc digit_of_digit digits_val_snoc mult.commute)
qed

lemma nat_digits_hd: "0 < n \<Longrightarrow> hd (nat_digits n) \<noteq> CHR ''0''"
proof (induction n rule: nat_digits.induct)
  case (1 n)
  show ?case
  proof (cases "n < 10")
    case True
    have "ord_of (digit_char n) = 48 + n" using True by (rule ord_digit_char)
    then have "digit_char n \<noteq> CHR ''0''" using 1(2) by auto
    then show ?thesis using True by (subst nat_digits.simps) simp
  next
    case False
    then show ?thesis using 1(1) by (subst nat_digits.simps) simp
  qed
qed

text \<open>A number of 64 bits reads back from its decimal text.\<close>

lemma ParseInt0_Itoa:
  assumes "min_int64 \<le> n" "n \<le> max_int64"
  shows "ParseInt0 (Itoa n) = Some n"
proof -
  have u: "ParseUint0 (nat_digits m) = Some m" if "m \<le> max_uint64" for m
  proof (cases "m = 0")
    case True
    have "digit_char 0 = CHR ''0''" by code_simp
    then show ?thesis using True by (simp add: nat_digits.simps ParseUint0_def base_prefix_def)
  next
    case False
    then have "base_prefix (nat_digits m) = (10, nat_digits m)"
      using nat_digits_hd[of m] by (cases "nat_digits m") (auto simp: base_prefix_def)
    moreover have "CHR ''_'' \<notin> set (nat_digits m)"
      using nat_digits_all_digits[of m] digit_not_underscore by (auto simp: list_all_iff)
    ultimately show ?thesis using uint_loop_digits[OF nat_digits_all_digits] that by (simp add: ParseUint0_def)
  qed
  obtain c r where d: "nat_digits (nat n) = c # r" by (cases "nat_digits (nat n)") auto
  have "c \<noteq> CHR ''-''" "c \<noteq> CHR ''+''" using nat_digits_all_digits[of "nat n"] hd_digits_not_sign d by auto
  then show ?thesis
    using u[of "nat n"] u[of "nat (- n)"] assms d by (auto simp: ParseInt0_def Itoa_def max_uint64_def min_int64_def max_int64_def)
qed

section \<open>Floating point\<close>

text \<open>
  The value of \<^verbatim>\<open>float64\<close> nearest to the positive fraction \<open>n / d\<close>, ties to even, as a fraction. The
  numbers that occur are far from the ends of the exponent range.
\<close>

fun ilog2 :: "nat \<Rightarrow> nat" where
  "ilog2 n = (if n < 2 then 0 else Suc (ilog2 (n div 2)))"

declare ilog2.simps [simp del]

definition scale2 :: "int \<Rightarrow> nat \<times> nat \<Rightarrow> nat \<times> nat" where
  "scale2 e q = (case q of (n, d) \<Rightarrow> if 0 \<le> e then (n * 2 ^ nat e, d) else (n, d * 2 ^ nat (- e)))"

definition round_even :: "nat \<times> nat \<Rightarrow> nat" where
  "round_even q =
     (case q of (n, d) \<Rightarrow>
        if 2 * (n mod d) < d \<or> 2 * (n mod d) = d \<and> even (n div d) then n div d else Suc (n div d))"

definition float64 :: "nat \<times> nat \<Rightarrow> nat \<times> nat" where
  "float64 q =
     (case q of (n, d) \<Rightarrow>
        if n = 0 then (0, 1)
        else let e0 = int (ilog2 n) - int (ilog2 d) - 53;
                 e = (case scale2 (- e0) q of (a, b) \<Rightarrow> if a div b < 2 ^ 53 then e0 else e0 + 1)
             in scale2 e (round_even (scale2 (- e) q), 1))"

text \<open>\<^verbatim>\<open>uint64(float64(f) * (float64(unit) / scale))\<close>, with \<open>scale\<close> a power of ten that is exact.\<close>

definition float_part :: "nat \<Rightarrow> nat \<Rightarrow> nat \<Rightarrow> nat" where
  "float_part f unit scale =
     (case (float64 (f, 1), float64 (unit, scale)) of ((a, b), (c, d)) \<Rightarrow>
        (case float64 (a * c, b * d) of (x, y) \<Rightarrow> x div y))"

section \<open>\<^verbatim>\<open>time.ParseDuration\<close>\<close>

definition two63 :: nat where "two63 = 9223372036854775808"

text \<open>The leading decimal number of a string, with an error when it is above \<^verbatim>\<open>1<<63\<close>.\<close>

fun leadingInt_loop :: "nat \<Rightarrow> string \<Rightarrow> (nat \<times> string) option" where
  "leadingInt_loop x [] = Some (x, [])"
| "leadingInt_loop x (c # cs) =
     (if \<not> is_digit_char c then Some (x, c # cs)
      else if two63 div 10 < x then None
      else let y = x * 10 + (ord_of c - 48) in if two63 < y then None else leadingInt_loop y cs)"

definition leadingInt :: "string \<Rightarrow> (nat \<times> string) option" where
  "leadingInt s = leadingInt_loop 0 s"

text \<open>The digits after the point: the value, the scale and the rest; digits past the range are dropped.\<close>

fun leadingFraction_loop :: "nat \<Rightarrow> nat \<Rightarrow> bool \<Rightarrow> string \<Rightarrow> nat \<times> nat \<times> string" where
  "leadingFraction_loop x scale overflow [] = (x, scale, [])"
| "leadingFraction_loop x scale overflow (c # cs) =
     (if \<not> is_digit_char c then (x, scale, c # cs)
      else if overflow then leadingFraction_loop x scale True cs
      else if (two63 - 1) div 10 < x then leadingFraction_loop x scale True cs
      else let y = x * 10 + (ord_of c - 48) in
        if two63 < y then leadingFraction_loop x scale True cs else leadingFraction_loop y (scale * 10) False cs)"

definition leadingFraction :: "string \<Rightarrow> nat \<times> nat \<times> string" where
  "leadingFraction s = leadingFraction_loop 0 1 False s"

definition unitMap :: "(string \<times> nat) list" where
  "unitMap = [(''ns'', 1), (''us'', 1000), ([CHR 0xC2, CHR 0xB5, CHR ''s''], 1000), ([CHR 0xCE, CHR 0xBC, CHR ''s''], 1000),
     (''ms'', 1000000), (''s'', 1000000000), (''m'', 60000000000), (''h'', 3600000000000)]"

definition unit_char :: "char \<Rightarrow> bool" where
  "unit_char c \<longleftrightarrow> c \<noteq> CHR ''.'' \<and> \<not> is_digit_char c"

text \<open>The number of a term: its whole part, its fraction with the scale, and the rest of the string.\<close>

definition duration_number :: "string \<Rightarrow> (nat \<times> nat \<times> nat \<times> string) option" where
  "duration_number s =
     (case leadingInt s of
        None \<Rightarrow> None
      | Some (v, s1) \<Rightarrow>
          if s1 \<noteq> [] \<and> hd s1 = CHR ''.'' then
            (case leadingFraction (tl s1) of (f, scale, s2) \<Rightarrow>
               if length s = length s1 \<and> length (tl s1) = length s2 then None else Some (v, f, scale, s2))
          else if length s = length s1 then None else Some (v, 0, 1, s1))"

text \<open>One number with its unit: the nanoseconds and the rest of the string.\<close>

definition duration_term :: "string \<Rightarrow> (nat \<times> string) option" where
  "duration_term s =
     (if s = [] \<or> hd s \<noteq> CHR ''.'' \<and> \<not> is_digit_char (hd s) then None
      else case duration_number s of
        None \<Rightarrow> None
      | Some (v, f, scale, s2) \<Rightarrow>
          let u = takeWhile unit_char s2; rest = dropWhile unit_char s2
          in if u = [] then None
             else case map_of unitMap u of
               None \<Rightarrow> None
             | Some unit \<Rightarrow>
                 if two63 div unit < v then None
                 else let w = v * unit + (if 0 < f then float_part f unit scale else 0)
                      in if 0 < f \<and> two63 < w then None else Some (w, rest))"

lemma leadingInt_loop_length: "leadingInt_loop x s = Some (v, r) \<Longrightarrow> length r \<le> length s"
  by (induction x s rule: leadingInt_loop.induct) (auto simp: Let_def split: if_splits)

lemma leadingFraction_loop_length: "leadingFraction_loop x sc ov s = (f, sc', r) \<Longrightarrow> length r \<le> length s"
  by (induction s arbitrary: x sc ov) (fastforce simp: Let_def split: if_splits)+

text \<open>Every term takes at least its unit from the string, so the loop over the terms ends.\<close>

lemma duration_number_length: "duration_number s = Some (v, f, sc, r) \<Longrightarrow> length r \<le> length s"
  using leadingInt_loop_length[of 0 s] leadingFraction_loop_length
  by (fastforce simp: duration_number_def leadingInt_def leadingFraction_def split: option.splits prod.splits if_splits)

lemma dropWhile_shorter: "takeWhile P t \<noteq> [] \<Longrightarrow> length (dropWhile P t) < length t"
  by (cases t) (auto simp: length_dropWhile_le le_imp_less_Suc split: if_splits)

lemma duration_term_shorter: "duration_term s = Some (v, rest) \<Longrightarrow> length rest < length s"
  using dropWhile_shorter[of unit_char] duration_number_length[of s]
  by (fastforce simp: duration_term_def Let_def split: if_splits option.splits prod.splits)

text \<open>The sum is kept in a \<^verbatim>\<open>uint64\<close>, which wraps.\<close>

function duration_loop :: "nat \<Rightarrow> string \<Rightarrow> nat option" where
  "duration_loop d s =
     (if s = [] then Some d
      else case duration_term s of
        None \<Rightarrow> None
      | Some (v, rest) \<Rightarrow> let e = (d + v) mod 2 ^ 64 in if two63 < e then None else duration_loop e rest)"
  by pat_completeness auto
termination by (relation "measure (\<lambda>(d, s). length s)") (auto dest: duration_term_shorter)

declare duration_loop.simps [simp del]

definition ParseDuration :: "string \<Rightarrow> duration option" where
  "ParseDuration s =
     (let (neg, t) = (case s of c # r \<Rightarrow> if c = CHR ''-'' then (True, r) else if c = CHR ''+'' then (False, r) else (False, s)
                      | [] \<Rightarrow> (False, s))
      in if t = ''0'' then Some 0
         else if t = [] then None
         else case duration_loop 0 t of
           None \<Rightarrow> None
         | Some d \<Rightarrow> if neg then Some (- int d) else if two63 - 1 < d then None else Some (int d))"

lemma duration_loop_range: "duration_loop d s = Some e \<Longrightarrow> d \<le> two63 \<Longrightarrow> e \<le> two63"
proof (induction d s rule: duration_loop.induct)
  case (1 d s)
  then show ?case by (subst (asm) duration_loop.simps) (auto simp: Let_def split: if_splits option.splits prod.splits)
qed

lemma ParseDuration_range: "ParseDuration s = Some d \<Longrightarrow> min_int64 \<le> d \<and> d \<le> max_int64"
  using duration_loop_range[of 0]
  by (fastforce simp: ParseDuration_def Let_def min_int64_def max_int64_def two63_def split: list.splits if_splits option.splits)

section \<open>Printing of durations\<close>

text \<open>
  \<^verbatim>\<open>Duration.String\<close>: the fraction is written from its last digit, without trailing zeros; \<open>printed\<close> says
  whether a digit was written.
\<close>

fun fmtFrac :: "nat \<Rightarrow> nat \<Rightarrow> bool \<Rightarrow> string \<Rightarrow> string \<times> nat" where
  "fmtFrac 0 v printed buf = ((if printed then CHR ''.'' # buf else buf), v)"
| "fmtFrac (Suc prec) v printed buf =
     (let p = printed \<or> v mod 10 \<noteq> 0
      in fmtFrac prec (v div 10) p (if p then digit_char (v mod 10) # buf else buf))"

definition Duration_String :: "duration \<Rightarrow> string" where
  "Duration_String d =
     (let u = nat (abs d); sign = (if d < 0 then ''-'' else [])
      in if u = 0 then ''0s''
         else if u < 1000000000 then
           (let (prec, unit) = (if u < 1000 then (0, ''ns'')
                                else if u < 1000000 then (3, [CHR 0xC2, CHR 0xB5, CHR ''s'']) else (6, ''ms''))
            in case fmtFrac prec u False unit of (t, v) \<Rightarrow> sign @ nat_digits v @ t)
         else
           (case fmtFrac 9 u False ''s'' of (t, v) \<Rightarrow>
              let secs = nat_digits (v mod 60) @ t; mins = v div 60; hours = mins div 60
              in sign @ (if mins = 0 then secs
                         else (if hours = 0 then [] else nat_digits hours @ ''h'') @ nat_digits (mins mod 60) @ ''m'' @ secs)))"

text \<open>\<^verbatim>\<open>Duration.Round(m)\<close> for \<open>0 < m\<close>: to the nearest multiple, halves away from zero, saturating.\<close>

definition Duration_Round :: "duration \<Rightarrow> duration \<Rightarrow> duration" where
  "Duration_Round d m =
     (if d < 0 then
        (let r = (- d) mod m in
         if r + r < m then d + r
         else if d - m + r < min_int64 then min_int64 else d - m + r)
      else
        (let r = d mod m in
         if r + r < m then d - r
         else if max_int64 < d + m - r then max_int64 else d + m - r))"

section \<open>Reading back what is printed\<close>

lemma digits_val_Cons: "digits_val (c # ds) = 10 ^ length ds * (ord_of c - 48) + digits_val ds"
proof (induction ds rule: rev_induct)
  case (snoc d ds)
  have "digits_val (c # ds @ [d]) = 10 * digits_val (c # ds) + (ord_of d - 48)" using digits_val_snoc[of "c # ds"] by simp
  then show ?case using snoc digits_val_snoc[of ds d] by (simp add: distrib_left)
qed (simp add: digits_val_def)

lemma leadingInt_loop_digits:
  assumes "list_all is_digit_char ds" "r = [] \<or> \<not> is_digit_char (hd r)" "10 ^ length ds * x + digits_val ds \<le> two63"
  shows "leadingInt_loop x (ds @ r) = Some (10 ^ length ds * x + digits_val ds, r)"
  using assms
proof (induction ds arbitrary: x)
  case Nil
  then show ?case by (cases r) (auto simp: digits_val_def)
next
  case (Cons c ds)
  define y where "y = x * 10 + (ord_of c - 48)"
  have eq: "10 ^ length (c # ds) * x + digits_val (c # ds) = 10 ^ length ds * y + digits_val ds"
    unfolding digits_val_Cons y_def by (simp add: distrib_left mult.assoc mult.left_commute)
  then have le: "10 ^ length ds * y + digits_val ds \<le> two63" using Cons.prems(3) by simp
  have "y \<le> 10 ^ length ds * y" by simp
  then have y: "y \<le> two63" using le by linarith
  then have "10 * x \<le> two63" unfolding y_def by linarith
  then have "\<not> two63 div 10 < x" by (simp add: not_less less_eq_div_iff_mult_less_eq)
  moreover have "leadingInt_loop y (ds @ r) = Some (10 ^ length ds * y + digits_val ds, r)"
    using Cons.IH[of y] Cons.prems le by simp
  ultimately show ?case unfolding eq using Cons.prems(1) y by (simp add: Let_def y_def)
qed

lemma duration_term_whole:
  assumes "n * unit \<le> two63" "map_of unitMap u = Some unit" "list_all unit_char u" "r = [] \<or> is_digit_char (hd r)"
  shows "duration_term (nat_digits n @ u @ r) = Some (n * unit, r)"
proof -
  have u: "u \<noteq> []" "0 < unit" using assms(2) by (auto simp: unitMap_def split: if_splits)
  obtain a b where u': "u = a # b" using u by (cases u) auto
  obtain c ds where n: "nat_digits n = c # ds" by (cases "nat_digits n") auto
  have d: "is_digit_char c" using nat_digits_all_digits[of n] n by simp
  have "n \<le> n * unit" using u(2) by simp
  then have "n \<le> two63" using assms(1) by linarith
  then have li: "leadingInt (nat_digits n @ u @ r) = Some (n, u @ r)"
    using leadingInt_loop_digits[of "nat_digits n" "u @ r" 0] nat_digits_all_digits[of n] assms(3) u'
    by (simp add: leadingInt_def unit_char_def)
  have a: "a \<noteq> CHR ''.''" using assms(3) u' by (simp add: unit_char_def)
  have num: "duration_number (nat_digits n @ u @ r) = Some (n, 0, 1, u @ r)"
    using li a u' n by (simp add: duration_number_def)
  have "takeWhile unit_char (u @ r) = u" "dropWhile unit_char (u @ r) = r"
    using assms(3,4) by (cases r; auto simp: list_all_iff unit_char_def takeWhile_append dropWhile_append)+
  moreover have "\<not> two63 div unit < n" using assms(1) u(2) by (simp add: less_eq_div_iff_mult_less_eq not_less)
  ultimately show ?thesis using num n d u' a assms(2) by (simp add: duration_term_def Let_def)
qed

lemma fmtFrac_whole: "fmtFrac prec (v * 10 ^ prec) False buf = (buf, v)"
proof (induction prec)
  case (Suc prec)
  have "v * 10 ^ Suc prec mod 10 = 0" "v * 10 ^ Suc prec div 10 = v * 10 ^ prec" by simp_all
  then show ?case using Suc by (simp add: Let_def)
qed simp

lemma duration_loop_term:
  assumes "duration_term s = Some (v, rest)" "d + v \<le> two63"
  shows "duration_loop d s = duration_loop (d + v) rest"
proof -
  have "s \<noteq> []" using assms(1) by (auto simp: duration_term_def)
  moreover have "(d + v) mod 2 ^ 64 = d + v" using assms(2) by (simp add: two63_def)
  ultimately show ?thesis using assms by (subst duration_loop.simps) (simp add: Let_def)
qed

lemma duration_loop_whole:
  assumes "d + n * unit \<le> two63" "map_of unitMap u = Some unit" "list_all unit_char u" "r = [] \<or> is_digit_char (hd r)"
  shows "duration_loop d (nat_digits n @ u @ r) = duration_loop (d + n * unit) r"
  by (rule duration_loop_term[OF duration_term_whole[OF _ assms(2-4)] assms(1)]) (use assms(1) in linarith)

lemma units: "map_of unitMap ''s'' = Some 1000000000" "map_of unitMap ''m'' = Some 60000000000"
  "map_of unitMap ''h'' = Some 3600000000000" "list_all unit_char ''s''" "list_all unit_char ''m''" "list_all unit_char ''h''"
  by (simp_all add: unitMap_def unit_char_def is_digit_char_def)

lemma digits_hd: "is_digit_char (hd (nat_digits n @ r))"
  using nat_digits_all_digits[of n] by (cases "nat_digits n") auto

text \<open>What \<^verbatim>\<open>Duration.String\<close> writes for a whole number of seconds, after the sign.\<close>

definition seconds_text :: "nat \<Rightarrow> string" where
  "seconds_text n =
     (let secs = nat_digits (n mod 60) @ ''s''; mins = n div 60; hours = mins div 60
      in if mins = 0 then secs
         else (if hours = 0 then [] else nat_digits hours @ ''h'') @ nat_digits (mins mod 60) @ ''m'' @ secs)"

lemma Duration_String_seconds:
  assumes "0 < n"
  shows "Duration_String (int n * Second) = seconds_text n" "Duration_String (- (int n * Second)) = CHR ''-'' # seconds_text n"
proof -
  have u: "nat (abs (int n * Second)) = n * 10 ^ 9" by (simp add: Second_def abs_mult nat_mult_distrib)
  have "\<not> n * 10 ^ 9 < 1000000000" "n * 10 ^ 9 \<noteq> 0" "0 < int n * Second" using assms by (simp_all add: Second_def)
  then show "Duration_String (int n * Second) = seconds_text n" "Duration_String (- (int n * Second)) = CHR ''-'' # seconds_text n"
    using assms unfolding Duration_String_def abs_minus_cancel u fmtFrac_whole seconds_text_def Let_def by simp_all
qed

lemma duration_loop_seconds:
  assumes "n * 1000000000 \<le> two63"
  shows "duration_loop 0 (seconds_text n) = Some (n * 1000000000)"
proof -
  let ?s = "n mod 60" let ?m = "n div 60 mod 60" let ?h = "n div 60 div 60"
  have "n = n div 60 * 60 + ?s" "n div 60 = ?h * 60 + ?m" by simp_all
  then have n: "?h * 3600 + ?m * 60 + ?s = n" by linarith
  have secs: "duration_loop d (nat_digits ?s @ ''s'') = Some (d + ?s * 1000000000)" if "d + ?s * 1000000000 \<le> two63" for d
    using duration_loop_whole[OF that units(1,4), of "[]"] by (simp add: duration_loop.simps)
  have mins: "duration_loop d (nat_digits ?m @ ''m'' @ nat_digits ?s @ ''s'') = Some (d + ?m * 60000000000 + ?s * 1000000000)"
    if "d + ?m * 60000000000 + ?s * 1000000000 \<le> two63" for d
    using duration_loop_whole[OF _ units(2,5), of d ?m "nat_digits ?s @ ''s''"] secs[of "d + ?m * 60000000000"] that digits_hd by simp
  have eq: "?h * 3600000000000 + ?m * 60000000000 + ?s * 1000000000 = n * 1000000000" using n by linarith
  have hours: "duration_loop 0 (nat_digits ?h @ ''h'' @ nat_digits ?m @ ''m'' @ nat_digits ?s @ ''s'') = Some (n * 1000000000)"
    using duration_loop_whole[OF _ units(3,6), of 0 ?h "nat_digits ?m @ ''m'' @ nat_digits ?s @ ''s''"]
      mins[of "?h * 3600000000000"] assms eq digits_hd by simp
  show ?thesis
  proof (cases "n div 60 = 0")
    case True
    then show ?thesis using secs[of 0] assms by (simp add: seconds_text_def)
  next
    case False
    then show ?thesis using hours mins[of 0] assms eq by (cases "?h = 0") (simp_all add: seconds_text_def Let_def)
  qed
qed

text \<open>
  A whole number of seconds reads back from its text.
\<close>

lemma ParseDuration_String:
  assumes "abs k * Second \<le> max_int64"
  shows "ParseDuration (Duration_String (k * Second)) = Some (k * Second)"
proof -
  define n where "n = nat (abs k)"
  have st: "seconds_text n \<noteq> ''0''" "seconds_text n \<noteq> []" "hd (seconds_text n) \<noteq> CHR ''-''" "hd (seconds_text n) \<noteq> CHR ''+''"
  proof -
    have l: "last (seconds_text n) = CHR ''s''" by (simp add: seconds_text_def Let_def)
    show ne: "seconds_text n \<noteq> []" by (simp add: seconds_text_def Let_def)
    show "seconds_text n \<noteq> ''0''" using l by auto
    have "is_digit_char (hd (seconds_text n))" using digits_hd by (simp add: seconds_text_def Let_def hd_append)
    then show "hd (seconds_text n) \<noteq> CHR ''-''" "hd (seconds_text n) \<noteq> CHR ''+''" by (auto simp: is_digit_char_def)
  qed
  have le: "int n * 1000000000 \<le> max_int64" using assms by (simp add: n_def Second_def)
  then have "n * 1000000000 \<le> two63" by (simp add: max_int64_def two63_def)
  note loop = duration_loop_seconds[OF this]
  have "digit_char 0 = CHR ''0''" by code_simp
  then have zero: "seconds_text 0 = ''0s''" by (simp add: seconds_text_def nat_digits.simps)
  consider "0 \<le> k" | "k < 0" by linarith
  then show ?thesis
  proof cases
    case 1
    then have k: "k = int n" by (simp add: n_def)
    have "Duration_String (k * Second) = seconds_text n"
      using Duration_String_seconds(1)[of n] zero unfolding k by (cases "n = 0") (simp_all add: Duration_String_def)
    moreover obtain c r where c: "seconds_text n = c # r" using st(2) by (cases "seconds_text n") auto
    ultimately show ?thesis using st loop le by (auto simp: ParseDuration_def Second_def two63_def max_int64_def c k)
  next
    case 2
    then have k: "k * Second = - (int n * Second)" "0 < n" by (simp_all add: n_def)
    then show ?thesis unfolding k(1) Duration_String_seconds(2)[OF k(2)] using st loop by (simp add: ParseDuration_def Second_def)
  qed
qed

end
