(* ===== verification/Flag.thy ===== *)
theory Flag
  imports Errors GoNumbers
begin

text \<open>
  Package \<^verbatim>\<open>flag\<close> of the standard library, as far as the two programs use it: a \<^verbatim>\<open>FlagSet\<close> with
  string, bool, int and duration flags and the error handling \<^verbatim>\<open>ContinueOnError\<close>. A flag set is the list
  of its flags with their current values; the usage text it prints on an error is left out.
\<close>

section \<open>Flags\<close>

datatype flag_value = StringVal string | BoolVal bool | IntVal int | DurationVal duration

type_synonym flags = "(string \<times> flag_value) list"

record flag_set =
  fg_formal :: flags
  fg_args :: "string list"

text \<open>\<^verbatim>\<open>Value.Set\<close>: the new value, if the text is one of the flag's type.\<close>

definition flag_Set :: "flag_value \<Rightarrow> string \<Rightarrow> flag_value option" where
  "flag_Set v s =
     (case v of
        StringVal _ \<Rightarrow> Some (StringVal s)
      | BoolVal _ \<Rightarrow> map_option BoolVal (ParseBool s)
      | IntVal _ \<Rightarrow> map_option IntVal (ParseInt0 s)
      | DurationVal _ \<Rightarrow> map_option DurationVal (ParseDuration s))"

fun is_bool_flag :: "flag_value \<Rightarrow> bool" where
  "is_bool_flag (BoolVal _) \<longleftrightarrow> True"
| "is_bool_flag _ \<longleftrightarrow> False"

definition set_flag :: "string \<Rightarrow> flag_value \<Rightarrow> flag_set \<Rightarrow> flag_set" where
  "set_flag name v f = f\<lparr>fg_formal := AList.update name v (fg_formal f)\<rparr>"

section \<open>Parsing\<close>

text \<open>The name in an argument and the value after an equals sign, which cannot come first.\<close>

definition split_name :: "string \<Rightarrow> string \<times> string option" where
  "split_name s =
     (if CHR ''='' \<in> set (tl s) then (takeWhile (\<lambda>c. c \<noteq> CHR ''='') s, Some (tl (dropWhile (\<lambda>c. c \<noteq> CHR ''='') s)))
      else (s, None))"

text \<open>A flag by its name, with the value if the argument had one; the argument itself is already taken.\<close>

definition apply_flag :: "string \<Rightarrow> string option \<Rightarrow> flag_set \<Rightarrow> (err + bool) \<times> flag_set" where
  "apply_flag name value f =
     (case map_of (fg_formal f) name of
        None \<Rightarrow> (Inl (FlagErr (if name = ''help'' \<or> name = ''h'' then ErrHelp else FlagUndefined name)), f)
      | Some v \<Rightarrow>
          if is_bool_flag v then
            (let t = (case value of Some t \<Rightarrow> t | None \<Rightarrow> ''true'')
             in case flag_Set v t of
                  None \<Rightarrow> (Inl (FlagErr (FlagBadBool t name)), f)
                | Some w \<Rightarrow> (Inr True, set_flag name w f))
          else
            (case (value, fg_args f) of
               (None, []) \<Rightarrow> (Inl (FlagErr (FlagNeedsArg name)), f)
             | (None, a # as) \<Rightarrow>
                 (case flag_Set v a of
                    None \<Rightarrow> (Inl (FlagErr (FlagBadValue a name)), f\<lparr>fg_args := as\<rparr>)
                  | Some w \<Rightarrow> (Inr True, set_flag name w (f\<lparr>fg_args := as\<rparr>)))
             | (Some t, _) \<Rightarrow>
                 (case flag_Set v t of
                    None \<Rightarrow> (Inl (FlagErr (FlagBadValue t name)), f)
                  | Some w \<Rightarrow> (Inr True, set_flag name w f))))"

text \<open>\<^verbatim>\<open>parseOne\<close>: whether a flag was seen, or the error.\<close>

definition parseOne :: "flag_set \<Rightarrow> (err + bool) \<times> flag_set" where
  "parseOne f =
     (case fg_args f of
        [] \<Rightarrow> (Inr False, f)
      | s # rest \<Rightarrow>
          if length s < 2 \<or> hd s \<noteq> CHR ''-'' then (Inr False, f)
          else if s = ''--'' then (Inr False, f\<lparr>fg_args := rest\<rparr>)
          else
            (let name = (if s ! 1 = CHR ''-'' then drop 2 s else drop 1 s)
             in if name = [] \<or> hd name = CHR ''-'' \<or> hd name = CHR ''='' then (Inl (FlagErr (FlagSyntax s)), f)
                else (case split_name name of (n, v) \<Rightarrow> apply_flag n v (f\<lparr>fg_args := rest\<rparr>))))"

lemma apply_flag_args: "apply_flag n v f = (r, f') \<Longrightarrow> fg_args f' = fg_args f \<or> fg_args f \<noteq> [] \<and> fg_args f' = tl (fg_args f)"
  by (auto simp: apply_flag_def set_flag_def Let_def split: option.splits if_splits list.splits)

lemma parseOne_seen: "parseOne f = (Inr True, f') \<Longrightarrow> length (fg_args f') < length (fg_args f)"
proof -
  assume p: "parseOne f = (Inr True, f')"
  then obtain s rest n v where a: "fg_args f = s # rest" "apply_flag n v (f\<lparr>fg_args := rest\<rparr>) = (Inr True, f')"
    by (auto simp: parseOne_def Let_def split: list.splits if_splits prod.splits)
  then show ?thesis using apply_flag_args[OF a(2)] by (cases rest) auto
qed

text \<open>The loop of \<^verbatim>\<open>FlagSet.Parse\<close>. It ends because a flag that was seen has taken its argument.\<close>

function parse_loop :: "flag_set \<Rightarrow> (err + unit) \<times> flag_set" where
  "parse_loop f =
     (case parseOne f of
        (Inr True, f') \<Rightarrow> parse_loop f'
      | (Inr False, f') \<Rightarrow> (Inr (), f')
      | (Inl e, f') \<Rightarrow> (Inl e, f'))"
  by pat_completeness auto
termination by (relation "measure (\<lambda>f. length (fg_args f))") (auto dest: parseOne_seen[OF sym])

declare parse_loop.simps [simp del]

definition flag_Parse :: "flags \<Rightarrow> string list \<Rightarrow> (err + unit) \<times> flag_set" where
  "flag_Parse formal arguments = parse_loop \<lparr>fg_formal = formal, fg_args = arguments\<rparr>"

text \<open>Reading a flag through the pointer that its definition returned.\<close>

definition string_flag :: "flags \<Rightarrow> string \<Rightarrow> string" where
  "string_flag fl n = (case map_of fl n of Some (StringVal s) \<Rightarrow> s | _ \<Rightarrow> [])"

definition bool_flag :: "flags \<Rightarrow> string \<Rightarrow> bool" where
  "bool_flag fl n = (case map_of fl n of Some (BoolVal b) \<Rightarrow> b | _ \<Rightarrow> False)"

definition int_flag :: "flags \<Rightarrow> string \<Rightarrow> int" where
  "int_flag fl n = (case map_of fl n of Some (IntVal i) \<Rightarrow> i | _ \<Rightarrow> 0)"

definition duration_flag :: "flags \<Rightarrow> string \<Rightarrow> duration" where
  "duration_flag fl n = (case map_of fl n of Some (DurationVal d) \<Rightarrow> d | _ \<Rightarrow> 0)"

lemmas flag_reads = string_flag_def bool_flag_def int_flag_def duration_flag_def

section \<open>Types of flags\<close>

datatype flag_kind = StringKind | BoolKind | IntKind | DurationKind

fun kind_of :: "flag_value \<Rightarrow> flag_kind" where
  "kind_of (StringVal _) = StringKind"
| "kind_of (BoolVal _) = BoolKind"
| "kind_of (IntVal _) = IntKind"
| "kind_of (DurationVal _) = DurationKind"

definition int64_ok :: "int \<Rightarrow> bool" where
  "int64_ok i \<longleftrightarrow> min_int64 \<le> i \<and> i \<le> max_int64"

fun value_ok :: "flag_value \<Rightarrow> bool" where
  "value_ok (IntVal i) = int64_ok i"
| "value_ok (DurationVal d) = int64_ok d"
| "value_ok _ = True"

definition flag_types :: "flags \<Rightarrow> (string \<times> flag_kind) list" where
  "flag_types fl = map (\<lambda>(n, v). (n, kind_of v)) fl"

lemma flag_Set_kind: "flag_Set v t = Some w \<Longrightarrow> kind_of w = kind_of v"
  by (cases v) (auto simp: flag_Set_def)

lemma flag_Set_ok: "flag_Set v t = Some w \<Longrightarrow> value_ok w"
  by (cases v) (auto simp: flag_Set_def int64_ok_def dest: ParseInt0_range ParseDuration_range)

lemma flag_Set_same_kind: "kind_of v = kind_of w \<Longrightarrow> flag_Set v t = flag_Set w t"
  by (cases v; cases w) (auto simp: flag_Set_def)

lemma is_bool_kind: "is_bool_flag v \<longleftrightarrow> kind_of v = BoolKind"
  by (cases v) auto

lemma update_types:
  "map_of fl n = Some v \<Longrightarrow> kind_of w = kind_of v \<Longrightarrow> flag_types (AList.update n w fl) = flag_types fl"
  by (induction fl) (auto simp: flag_types_def split: if_splits)

lemma update_ok: "value_ok w \<Longrightarrow> list_all (\<lambda>x. value_ok (snd x)) fl \<Longrightarrow> list_all (\<lambda>x. value_ok (snd x)) (AList.update n w fl)"
  by (induction fl) auto

definition well_typed :: "flags \<Rightarrow> flags \<Rightarrow> bool" where
  "well_typed decl fl \<longleftrightarrow> flag_types fl = flag_types decl \<and> list_all (\<lambda>x. value_ok (snd x)) fl"

lemma apply_flag_result:
  assumes "apply_flag n v f = (r, f')"
  shows "fg_formal f' = fg_formal f \<or>
    (\<exists>u t w. map_of (fg_formal f) n = Some u \<and> flag_Set u t = Some w \<and> fg_formal f' = AList.update n w (fg_formal f))"
  using assms by (fastforce simp: apply_flag_def set_flag_def Let_def split: option.splits if_splits list.splits)

lemma apply_flag_typed: "apply_flag n v f = (r, f') \<Longrightarrow> well_typed decl (fg_formal f) \<Longrightarrow> well_typed decl (fg_formal f')"
  using apply_flag_result[of n v f r f'] update_types flag_Set_kind flag_Set_ok update_ok unfolding well_typed_def by metis

lemma parseOne_typed: "parseOne f = (r, f') \<Longrightarrow> well_typed decl (fg_formal f) \<Longrightarrow> well_typed decl (fg_formal f')"
  by (auto simp: parseOne_def Let_def split: list.splits if_splits prod.splits dest: apply_flag_typed[where decl = decl])

lemma parse_loop_typed: "parse_loop f = (r, f') \<Longrightarrow> well_typed decl (fg_formal f) \<Longrightarrow> well_typed decl (fg_formal f')"
proof (induction f rule: parse_loop.induct)
  case (1 f)
  then show ?case
    by (subst (asm) (2) parse_loop.simps) (auto split: prod.splits sum.splits bool.splits dest: parseOne_typed[where decl = decl])
qed

text \<open>
  Flags keep their types. Whatever the arguments, and also when parsing fails, a flag set has the
  same flags in the same order and of the same types as it was declared with, and every int and every
  duration in it fits in 64 bits.
\<close>

lemma flag_Parse_typed:
  assumes "list_all (\<lambda>x. value_ok (snd x)) formal"
  shows "flag_types (fg_formal (snd (flag_Parse formal args))) = flag_types formal \<and>
    list_all (\<lambda>x. value_ok (snd x)) (fg_formal (snd (flag_Parse formal args)))"
  using assms parse_loop_typed[of "\<lparr>fg_formal = formal, fg_args = args\<rparr>" _ _ formal]
  unfolding flag_Parse_def well_typed_def by (metis flag_set.select_convs(1) prod.collapse)

section \<open>The loop ends\<close>

definition seen_step :: "flag_set \<Rightarrow> flag_set \<Rightarrow> bool" where
  "seen_step f g \<longleftrightarrow> parseOne f = (Inr True, g)"

lemma parseOne_suffix: "parseOne f = (r, f') \<Longrightarrow> suffix (fg_args f') (fg_args f)"
proof -
  assume p: "parseOne f = (r, f')"
  have tl: "suffix (tl as) (a # as)" for a :: string and as by (cases as) (auto simp: suffix_def)
  have ap: "suffix (fg_args g') (a # as)" if "apply_flag n v (f\<lparr>fg_args := as\<rparr>) = (q, g')" for n v q g' a as
    using apply_flag_args[OF that] tl[of as a] by (auto simp: suffix_Cons)
  show ?thesis using p ap by (auto simp: parseOne_def Let_def suffix_Cons split: list.splits if_splits prod.splits)
qed

text \<open>How the loop runs: some flags are seen, and then the last call of \<^verbatim>\<open>parseOne\<close> decides.\<close>

lemma parse_loop_runs:
  "\<exists>n g. n + length (fg_args g) \<le> length (fg_args f) \<and> (seen_step ^^ n) f g \<and> fst (parseOne g) \<noteq> Inr True \<and>
     parse_loop f = (case parseOne g of (r, h) \<Rightarrow> (case r of Inl e \<Rightarrow> Inl e | Inr _ \<Rightarrow> Inr (), h)) \<and> suffix (fg_args g) (fg_args f)"
proof (induction f rule: parse_loop.induct)
  case (1 f)
  show ?case
  proof (cases "fst (parseOne f) = Inr True")
    case True
    then obtain f' where f': "parseOne f = (Inr True, f')" by (metis prod.collapse)
    then obtain n g where n: "n + length (fg_args g) \<le> length (fg_args f')" "(seen_step ^^ n) f' g" "fst (parseOne g) \<noteq> Inr True"
      "parse_loop f' = (case parseOne g of (r, h) \<Rightarrow> (case r of Inl e \<Rightarrow> Inl e | Inr _ \<Rightarrow> Inr (), h))" "suffix (fg_args g) (fg_args f')"
      using 1 by fastforce
    have "(seen_step ^^ Suc n) f g" using f' n(2) by (intro relpowp_Suc_I2) (auto simp: seen_step_def)
    moreover have "Suc n + length (fg_args g) \<le> length (fg_args f)" using n(1) parseOne_seen[OF f'] by linarith
    moreover have "parse_loop f = parse_loop f'" by (subst parse_loop.simps) (simp add: f')
    moreover have "suffix (fg_args g) (fg_args f)" using n(5) parseOne_suffix[OF f'] suffix_order.trans by blast
    ultimately show ?thesis using n(3,4) by (intro exI[of _ "Suc n"] exI[of _ g]) simp
  next
    case False
    then have "parse_loop f = (case parseOne f of (r, h) \<Rightarrow> (case r of Inl e \<Rightarrow> Inl e | Inr _ \<Rightarrow> Inr (), h))"
      by (subst parse_loop.simps) (auto split: prod.splits sum.splits bool.splits)
    then show ?thesis using False by (intro exI[of _ 0] exI[of _ f]) simp
  qed
qed

text \<open>
  Parsing ends. The loop sees at most one flag per argument; the call of
  \<^verbatim>\<open>parseOne\<close> after the last flag decides the result; and the arguments that are left over are the
  end of the command line.
\<close>

definition parses_within :: "nat \<Rightarrow> flags \<Rightarrow> string list \<Rightarrow> bool" where
  "parses_within bound formal args \<longleftrightarrow>
     (\<exists>n g. n \<le> bound \<and> (seen_step ^^ n) \<lparr>fg_formal = formal, fg_args = args\<rparr> g \<and> fst (parseOne g) \<noteq> Inr True \<and>
        flag_Parse formal args = (case parseOne g of (r, f) \<Rightarrow> (case r of Inl e \<Rightarrow> Inl e | Inr _ \<Rightarrow> Inr (), f)) \<and>
        suffix (fg_args (snd (flag_Parse formal args))) args)"

lemma flag_Parse_ends: "parses_within (length args) formal args"
proof -
  let ?f = "\<lparr>fg_formal = formal, fg_args = args\<rparr>"
  obtain n g where g: "n + length (fg_args g) \<le> length args" "(seen_step ^^ n) ?f g" "fst (parseOne g) \<noteq> Inr True"
    "parse_loop ?f = (case parseOne g of (r, h) \<Rightarrow> (case r of Inl e \<Rightarrow> Inl e | Inr _ \<Rightarrow> Inr (), h))" "suffix (fg_args g) args"
    using parse_loop_runs[of ?f] by auto
  obtain r h where h: "parseOne g = (r, h)" by fastforce
  have "suffix (fg_args (snd (parse_loop ?f))) args"
    using g(4,5) parseOne_suffix[OF h] suffix_order.trans[of "fg_args h"] by (simp add: h)
  then show ?thesis using g unfolding flag_Parse_def parses_within_def by (intro exI[of _ n] exI[of _ g]) simp
qed

section \<open>Command lines for given settings\<close>

text \<open>A flag with the text of its value, written as one argument or, for a flag that is no bool, as two.\<close>

record setting =
  st_name :: string
  st_text :: string
  st_separate :: bool

definition render :: "setting \<Rightarrow> string list" where
  "render s =
     (if st_separate s then [''--'' @ st_name s, st_text s] else [''--'' @ st_name s @ CHR ''='' # st_text s])"

definition flag_name :: "string \<Rightarrow> bool" where
  "flag_name n \<longleftrightarrow> n \<noteq> [] \<and> hd n \<noteq> CHR ''-'' \<and> CHR ''='' \<notin> set n"

definition setting_ok :: "flags \<Rightarrow> setting \<Rightarrow> bool" where
  "setting_ok fl s \<longleftrightarrow> flag_name (st_name s) \<and>
     (case map_of fl (st_name s) of
        None \<Rightarrow> False
      | Some v \<Rightarrow> flag_Set v (st_text s) \<noteq> None \<and> (st_separate s \<longrightarrow> \<not> is_bool_flag v))"

text \<open>An argument at which parsing stops.\<close>

definition no_flag :: "string list \<Rightarrow> bool" where
  "no_flag rest \<longleftrightarrow> rest = [] \<or> length (hd rest) < 2 \<or> hd (hd rest) \<noteq> CHR ''-''"

lemma parse_loop_stop: "no_flag (fg_args f) \<Longrightarrow> parse_loop f = (Inr (), f)"
  by (subst parse_loop.simps) (auto simp: no_flag_def parseOne_def split: list.splits)

lemma flag_name_parts:
  assumes "flag_name n"
  shows "CHR ''='' \<notin> set (tl n)" "CHR ''='' \<in> set (tl (n @ CHR ''='' # t))" "hd n \<noteq> CHR ''=''"
    "takeWhile (\<lambda>c. c \<noteq> CHR ''='') (n @ CHR ''='' # t) = n" "dropWhile (\<lambda>c. c \<noteq> CHR ''='') (n @ CHR ''='' # t) = CHR ''='' # t"
proof -
  obtain c m where n: "n = c # m" using assms by (cases n) (auto simp: flag_name_def)
  have e: "CHR ''='' \<notin> set n" using assms by (simp add: flag_name_def)
  show "CHR ''='' \<notin> set (tl n)" "CHR ''='' \<in> set (tl (n @ CHR ''='' # t))" "hd n \<noteq> CHR ''=''" using e n by auto
  show "takeWhile (\<lambda>c. c \<noteq> CHR ''='') (n @ CHR ''='' # t) = n" "dropWhile (\<lambda>c. c \<noteq> CHR ''='') (n @ CHR ''='' # t) = CHR ''='' # t"
    using e by (induction n) auto
qed

lemma parseOne_name:
  assumes "flag_name n"
  shows "fg_args f = (''--'' @ n) # rest \<Longrightarrow> parseOne f = apply_flag n None (f\<lparr>fg_args := rest\<rparr>)"
    "fg_args f = (''--'' @ n @ CHR ''='' # t) # rest \<Longrightarrow> parseOne f = apply_flag n (Some t) (f\<lparr>fg_args := rest\<rparr>)"
  using flag_name_parts[OF assms] assms by (auto simp: parseOne_def split_name_def flag_name_def Let_def)

lemma parse_loop_setting:
  assumes ok: "setting_ok (fg_formal f) s" and args: "fg_args f = render s @ rest"
    and v: "map_of (fg_formal f) (st_name s) = Some v" "flag_Set v (st_text s) = Some w"
  shows "parse_loop f = parse_loop \<lparr>fg_formal = AList.update (st_name s) w (fg_formal f), fg_args = rest\<rparr>"
proof -
  have n: "flag_name (st_name s)" "st_separate s \<longrightarrow> \<not> is_bool_flag v" using ok v(1) by (simp_all add: setting_ok_def)
  have "parseOne f = (Inr True, \<lparr>fg_formal = AList.update (st_name s) w (fg_formal f), fg_args = rest\<rparr>)"
    using args v n(2) parseOne_name[OF n(1), of f]
    by (cases "st_separate s") (auto simp: render_def apply_flag_def set_flag_def)
  then show ?thesis by (subst parse_loop.simps) simp
qed

definition last_setting :: "setting list \<Rightarrow> string \<Rightarrow> setting option" where
  "last_setting ss n = find (\<lambda>s. st_name s = n) (rev ss)"

lemma last_setting_Cons:
  "last_setting (s # ss) n = (case last_setting ss n of None \<Rightarrow> if st_name s = n then Some s else None | Some t \<Rightarrow> Some t)"
proof -
  have "find P (xs @ ys) = (case find P xs of None \<Rightarrow> find P ys | Some t \<Rightarrow> Some t)" for P :: "setting \<Rightarrow> bool" and xs ys
    by (induction xs) auto
  then show ?thesis by (simp add: last_setting_def split: option.split)
qed

lemma parse_loop_render:
  assumes "list_all (setting_ok (fg_formal f)) ss" "fg_args f = concat (map render ss) @ rest" "no_flag rest"
  shows "\<exists>fl. parse_loop f = (Inr (), \<lparr>fg_formal = fl, fg_args = rest\<rparr>) \<and>
    (\<forall>n. map_of fl n = (case last_setting ss n of None \<Rightarrow> map_of (fg_formal f) n
                        | Some s \<Rightarrow> flag_Set (the (map_of (fg_formal f) n)) (st_text s)))"
  using assms
proof (induction ss arbitrary: f)
  case Nil
  then show ?case using parse_loop_stop[of f] by (cases f) (simp add: last_setting_def)
next
  case (Cons s ss)
  have ok: "setting_ok (fg_formal f) s" using Cons.prems(1) by simp
  then obtain v w where v: "map_of (fg_formal f) (st_name s) = Some v" "flag_Set v (st_text s) = Some w"
    by (auto simp: setting_ok_def split: option.splits)
  let ?g = "\<lparr>fg_formal = AList.update (st_name s) w (fg_formal f), fg_args = concat (map render ss) @ rest\<rparr>"
  have k: "kind_of w = kind_of v" using flag_Set_kind[OF v(2)] .
  have look: "map_of (fg_formal ?g) n = (if n = st_name s then Some w else map_of (fg_formal f) n)" for n by (simp add: update_conv')
  have same: "setting_ok (fg_formal ?g) t" if "setting_ok (fg_formal f) t" for t
    using that v flag_Set_same_kind[OF k] k by (auto simp: setting_ok_def look is_bool_kind split: option.splits)
  have "list_all (setting_ok (fg_formal ?g)) ss" using Cons.prems(1) same by (auto simp: list_all_iff)
  from Cons.IH[OF this _ Cons.prems(3)] obtain fl where fl: "parse_loop ?g = (Inr (), \<lparr>fg_formal = fl, fg_args = rest\<rparr>)"
    "\<And>n. map_of fl n = (case last_setting ss n of None \<Rightarrow> map_of (fg_formal ?g) n
            | Some s \<Rightarrow> flag_Set (the (map_of (fg_formal ?g) n)) (st_text s))" by auto
  have "parse_loop f = (Inr (), \<lparr>fg_formal = fl, fg_args = rest\<rparr>)"
    using parse_loop_setting[OF ok _ v, of "concat (map render ss) @ rest"] Cons.prems(2) fl(1) by simp
  moreover have "map_of fl n = (case last_setting (s # ss) n of None \<Rightarrow> map_of (fg_formal f) n
      | Some s \<Rightarrow> flag_Set (the (map_of (fg_formal f) n)) (st_text s))" for n
    using v flag_Set_same_kind[OF k] by (auto simp: fl(2) look last_setting_Cons split: option.splits)
  ultimately show ?case by blast
qed

text \<open>
  Command lines mean what they say. For any settings of declared flags whose texts are values of
  their types, written in either way and in any order, followed by arguments that do not begin
  with a flag, parsing succeeds, leaves just those arguments, and gives every flag the value of its
  last setting, or its default when it has none.
\<close>

lemma flag_Parse_settings:
  assumes "list_all (setting_ok formal) ss" "no_flag rest"
  shows "\<exists>fl. flag_Parse formal (concat (map render ss) @ rest) = (Inr (), \<lparr>fg_formal = fl, fg_args = rest\<rparr>) \<and>
    (\<forall>n. map_of fl n = (case last_setting ss n of None \<Rightarrow> map_of formal n
                        | Some s \<Rightarrow> flag_Set (the (map_of formal n)) (st_text s)))"
  using parse_loop_render[of "\<lparr>fg_formal = formal, fg_args = concat (map render ss) @ rest\<rparr>" ss rest,
      unfolded flag_set.select_convs] assms
  unfolding flag_Parse_def by blast

text \<open>
  A bool flag takes no separate value: the word after it ends the flags, even when it reads like a
  value, and what follows is not looked at.
\<close>

lemma bool_flag_separate:
  assumes "map_of formal n = Some (BoolVal b)" "flag_name n"
  shows "flag_Parse formal ((''--'' @ n) # ''false'' # rest) =
    (Inr (), \<lparr>fg_formal = AList.update n (BoolVal True) formal, fg_args = ''false'' # rest\<rparr>)"
proof -
  have "parseOne \<lparr>fg_formal = formal, fg_args = (''--'' @ n) # ''false'' # rest\<rparr> =
      (Inr True, \<lparr>fg_formal = AList.update n (BoolVal True) formal, fg_args = ''false'' # rest\<rparr>)"
    using parseOne_name(1)[OF assms(2)] assms(1) by (simp add: apply_flag_def flag_Set_def ParseBool_def set_flag_def)
  then have "flag_Parse formal ((''--'' @ n) # ''false'' # rest) =
      parse_loop \<lparr>fg_formal = AList.update n (BoolVal True) formal, fg_args = ''false'' # rest\<rparr>"
    unfolding flag_Parse_def by (subst parse_loop.simps) simp
  then show ?thesis by (simp add: parse_loop_stop no_flag_def)
qed

end
