(* ===== verification/GoFormat.thy ===== *)
theory GoFormat
  imports GoNumbers
begin

text \<open>
  What \<^verbatim>\<open>meshctl\<close> needs to print its results: \<^verbatim>\<open>Time.Format(time.RFC3339)\<close> for times in UTC (as all
  times from parsed certificates are) and \<^verbatim>\<open>strconv.Quote\<close> behind the verb \<^verbatim>\<open>%q\<close>. The calendar is
  computed the way package \<^verbatim>\<open>time\<close> does it, by cycles of 400, 100, 4 and 1 years, and shown to be the
  inverse of counting days. A printed time is read back to the second.
\<close>

section \<open>The calendar\<close>

text \<open>
  \<open>year_day\<close> takes the days since 1 January of year 1 to a year and the day in it, from 0;
  \<open>month_day\<close> takes the latter to a month and a day, from 1.
\<close>

definition is_leap :: "int \<Rightarrow> bool" where
  "is_leap y \<longleftrightarrow> y mod 4 = 0 \<and> (y mod 100 \<noteq> 0 \<or> y mod 400 = 0)"

definition daysBefore :: "int list" where
  "daysBefore = [0, 31, 59, 90, 120, 151, 181, 212, 243, 273, 304, 334, 365]"

definition year_day :: "int \<Rightarrow> int \<times> int" where
  "year_day d0 =
     (let n400 = d0 div 146097; d1 = d0 - 146097 * n400;
          n = d1 div 36524; n100 = n - n div 4; d2 = d1 - 36524 * n100;
          n4 = d2 div 1461; d3 = d2 - 1461 * n4;
          n = d3 div 365; n1 = n - n div 4
      in (400 * n400 + 100 * n100 + 4 * n4 + n1 + 1, d3 - 365 * n1))"

definition month_day :: "bool \<Rightarrow> int \<Rightarrow> int \<times> int" where
  "month_day leap yday =
     (if leap \<and> yday = 59 then (2, 29)
      else
        let day = if leap \<and> 59 < yday then yday - 1 else yday;
            month = day div 31;
            end = daysBefore ! nat (month + 1)
        in if end \<le> day then (month + 2, day - end + 1) else (month + 1, day - daysBefore ! nat month + 1))"

text \<open>The same calendar by counting: the days before a year, and before a month of it.\<close>

definition days_before_year :: "int \<Rightarrow> int" where
  "days_before_year y = 365 * (y - 1) + (y - 1) div 4 - (y - 1) div 100 + (y - 1) div 400"

definition days_before_month :: "int \<Rightarrow> int \<Rightarrow> int" where
  "days_before_month y m = daysBefore ! nat (m - 1) + (if 2 < m \<and> is_leap y then 1 else 0)"

lemma year_day_parts:
  assumes "0 \<le> b" "b \<le> 3" "0 \<le> c" "c \<le> 24" "0 \<le> e" "e \<le> 3"
    and y: "y = 400 * a + 100 * b + 4 * c + e + 1"
  shows "days_before_year y = 146097 * a + 36524 * b + 1461 * c + 365 * e"
    "is_leap y \<longleftrightarrow> e = 3 \<and> (c = 24 \<longrightarrow> b = 3)"
proof -
  have d: "(y - 1) div 4 = 100 * a + 25 * b + c" "(y - 1) div 100 = 4 * a + b" "(y - 1) div 400 = a"
    using assms by auto
  then show "days_before_year y = 146097 * a + 36524 * b + 1461 * c + 365 * e" by (simp add: days_before_year_def y)
  consider "e < 3" | "e = 3" "c < 24" | "e = 3" "c = 24" using assms(4,6) by linarith
  then show "is_leap y \<longleftrightarrow> e = 3 \<and> (c = 24 \<longrightarrow> b = 3)"
  proof cases
    case 1
    have "y mod 4 = e + 1" using 1 assms(5) y mod_mult_self2[of "e + 1" 4 "100 * a + 25 * b + c"] by (simp add: algebra_simps)
    then show ?thesis using 1 assms(5) by (simp add: is_leap_def)
  next
    case 2
    have "y = 4 * (100 * a + 25 * b + c + 1)" using 2 y by simp
    then have "y mod 4 = 0" by (metis mod_mult_self1_is_0)
    moreover have "y mod 100 = 4 * c + 4" using 2 assms(3) y mod_mult_self2[of "4 * c + 4" 100 "4 * a + b"] by (simp add: algebra_simps)
    ultimately show ?thesis using 2 assms(3) by (simp add: is_leap_def)
  next
    case 3
    have "y = 4 * (100 * a + 25 * b + 25)" "y = 100 * (4 * a + b + 1)" using 3 y by simp_all
    then have "y mod 4 = 0" "y mod 100 = 0" by (metis mod_mult_self1_is_0)+
    moreover have "b = 0 \<or> b = 1 \<or> b = 2 \<or> b = 3" using assms(1,2) by presburger
    then have "y mod 400 = 0 \<longleftrightarrow> b = 3"
      using 3 y mod_mult_self2[of "100 * b + 100" 400 a] by (auto simp: algebra_simps)
    ultimately show ?thesis using 3 by (simp add: is_leap_def)
  qed
qed

text \<open>Four parts of length \<open>w\<close>, the last of which may have an element more.\<close>

lemma cut_in_four:
  fixes x w :: int
  assumes x: "0 \<le> x" "x \<le> 4 * w" "0 < w" and n: "n = x div w - x div w div 4"
  shows "0 \<le> n \<and> n \<le> 3 \<and> 0 \<le> x - w * n \<and> x - w * n \<le> w \<and> (x - w * n = w \<longrightarrow> x = 4 * w) \<and> (x = 4 * w \<longrightarrow> n = 3)"
proof (cases "x = 4 * w")
  case True
  then have "x div w = 4" using x(3) by simp
  then have "n = 3" using n by simp
  then show ?thesis using True x(3) by simp
next
  case False
  define q where "q = x div w"
  have "0 \<le> q" using x(1,3) by (simp add: q_def pos_imp_zdiv_nonneg_iff)
  moreover have "q < 4"
  proof (rule ccontr)
    assume "\<not> q < 4"
    then have "w * 4 \<le> w * q" using x(3) by simp
    moreover have "w * q \<le> x" using pos_mod_sign[OF x(3), of x] mult_div_mod_eq[of w x] unfolding q_def by linarith
    ultimately show False using x(2) False by linarith
  qed
  ultimately have "n = q" using n by (simp add: q_def)
  moreover have "x - w * q = x mod w" by (simp add: q_def minus_mult_div_eq_mod)
  ultimately show ?thesis using \<open>0 \<le> q\<close> \<open>q < 4\<close> False pos_mod_bound[OF x(3), of x] pos_mod_sign[OF x(3), of x] by simp
qed

lemma year_day_digits:
  assumes "year_day d = (y, k)"
  obtains b c e where "0 \<le> b" "b \<le> 3" "0 \<le> c" "c \<le> 24" "0 \<le> e" "e \<le> 3" "y = 400 * (d div 146097) + 100 * b + 4 * c + e + 1"
    "d = 146097 * (d div 146097) + 36524 * b + 1461 * c + 365 * e + k" "0 \<le> k" "k \<le> 365" "k = 365 \<longrightarrow> e = 3 \<and> (c = 24 \<longrightarrow> b = 3)"
proof -
  define a where "a = d div 146097"
  define d1 where "d1 = d - 146097 * a"
  define b where "b = d1 div 36524 - d1 div 36524 div 4"
  define d2 where "d2 = d1 - 36524 * b"
  define c where "c = d2 div 1461"
  define d3 where "d3 = d2 - 1461 * c"
  define e where "e = d3 div 365 - d3 div 365 div 4"
  have "year_day d = (400 * a + 100 * b + 4 * c + e + 1, d3 - 365 * e)"
    by (simp only: year_day_def Let_def a_def d1_def b_def d2_def c_def d3_def e_def)
  then have yk: "y = 400 * a + 100 * b + 4 * c + e + 1" "k = d3 - 365 * e" using assms by simp_all
  have 1: "0 \<le> d1" "d1 < 146097" by (simp_all add: d1_def a_def minus_mult_div_eq_mod)
  have 2: "0 \<le> b" "b \<le> 3" "0 \<le> d2" "d2 \<le> 36524" "d2 = 36524 \<longrightarrow> b = 3"
    using cut_in_four[OF 1(1) _ _ b_def] 1(2) unfolding d2_def[symmetric] by auto
  have "d3 = d2 mod 1461" by (simp add: d3_def c_def minus_mult_div_eq_mod)
  then have 3: "0 \<le> d3" "d3 \<le> 1460" using pos_mod_bound[of 1461 d2] by simp_all
  have c: "0 \<le> c" "c \<le> 24" using 2(3,4) zdiv_mono1[of d2 36524 1461] by (simp_all add: c_def pos_imp_zdiv_nonneg_iff)
  have last: "c = 24 \<and> b \<noteq> 3 \<longrightarrow> d3 < 1460" using 2(4,5) by (auto simp: d3_def)
  have 4: "0 \<le> e" "e \<le> 3" "0 \<le> k" "k \<le> 365" "k = 365 \<longrightarrow> d3 = 1460" "d3 = 1460 \<longrightarrow> e = 3"
    using cut_in_four[OF 3(1) _ _ e_def] 3(2) unfolding yk(2)[symmetric] by auto
  have "d = 146097 * a + 36524 * b + 1461 * c + 365 * e + k" by (simp add: yk(2) d3_def d2_def d1_def)
  then show ?thesis using that 2(1,2) c 4 last yk(1) unfolding a_def by blast
qed

lemma year_day_spec:
  assumes "year_day d = (y, k)"
  shows "d = days_before_year y + k" "0 \<le> k" "k < (if is_leap y then 366 else 365)"
proof -
  obtain b c e where d: "0 \<le> b" "b \<le> 3" "0 \<le> c" "c \<le> 24" "0 \<le> e" "e \<le> 3" "y = 400 * (d div 146097) + 100 * b + 4 * c + e + 1"
    "d = 146097 * (d div 146097) + 36524 * b + 1461 * c + 365 * e + k" "0 \<le> k" "k \<le> 365" "k = 365 \<longrightarrow> e = 3 \<and> (c = 24 \<longrightarrow> b = 3)"
    using year_day_digits[OF assms] by blast
  note parts = year_day_parts[OF d(1-7)]
  show "d = days_before_year y + k" using parts(1) d(8) by simp
  show "0 \<le> k" by (rule d)
  show "k < (if is_leap y then 366 else 365)" using parts(2) d(10,11) by (auto simp: less_le)
qed

text \<open>The days from 1 January of year 1 to 31 December 9999.\<close>

lemma year_day_range:
  assumes "year_day d = (y, k)" "0 \<le> d" "d < 3652059"
  shows "1 \<le> y \<and> y \<le> 9999"
proof -
  obtain b c e where d: "0 \<le> b" "b \<le> 3" "0 \<le> c" "c \<le> 24" "0 \<le> e" "e \<le> 3" "y = 400 * (d div 146097) + 100 * b + 4 * c + e + 1"
    using year_day_digits[OF assms(1)] by blast
  have a: "0 \<le> d div 146097" "d div 146097 \<le> 24" using assms(2) zdiv_mono1[of d 3652058 146097] assms(3) by simp_all
  have "y \<noteq> 10000" using year_day_spec[OF assms(1)] assms(3) by (auto simp: days_before_year_def)
  then show ?thesis using a d by linarith
qed

lemma month_day_spec:
  assumes "0 \<le> k" "k < (if leap then 366 else 365)" "month_day leap k = (m, dd)"
  shows "1 \<le> m \<and> m \<le> 12 \<and> 1 \<le> dd \<and> dd \<le> 31 \<and> k = daysBefore ! nat (m - 1) + (if 2 < m \<and> leap then 1 else 0) + dd - 1"
proof -
  define day where "day = (if leap \<and> 59 < k then k - 1 else k)"
  define q where "q = day div 31"
  have day: "0 \<le> day" "day \<le> 364" "31 * q \<le> day" "day < 31 * q + 31"
    using assms(1,2) div_mult_mod_eq[of day 31] pos_mod_bound[of 31 day] pos_mod_sign[of 31 day]
    by (auto simp: day_def q_def split: if_splits)
  show ?thesis
  proof (cases "leap \<and> k = 59")
    case True
    then show ?thesis using assms(3) by (simp add: month_day_def daysBefore_def)
  next
    case False
    then have md: "(m, dd) = (if daysBefore ! nat (q + 1) \<le> day then (q + 2, day - daysBefore ! nat (q + 1) + 1)
        else (q + 1, day - daysBefore ! nat q + 1))"
      using assms(3) by (simp only: month_day_def Let_def day_def[symmetric] q_def[symmetric] if_False)
    have k: "k = day + (if leap \<and> 59 \<le> day then 1 else 0)" using False by (auto simp: day_def)
    have "0 \<le> q" "q < 12" using day by simp_all
    then have "q = 0 \<or> q = 1 \<or> q = 2 \<or> q = 3 \<or> q = 4 \<or> q = 5 \<or> q = 6 \<or> q = 7 \<or> q = 8 \<or> q = 9 \<or> q = 10 \<or> q = 11"
      by presburger
    then show ?thesis unfolding k using md day
      by (elim disjE) (simp_all add: daysBefore_def split: if_splits)
  qed
qed

section \<open>RFC 3339\<close>

text \<open>A number with leading zeros, as \<^verbatim>\<open>appendInt\<close> of package \<^verbatim>\<open>time\<close> prints it.\<close>

definition pad_int :: "nat \<Rightarrow> int \<Rightarrow> string" where
  "pad_int w n = (if n < 0 then CHR ''-'' # pad_decimal w (nat (- n)) else pad_decimal w (nat n))"

text \<open>1 January 1970 in days since 1 January of year 1.\<close>

definition epoch_day :: int where "epoch_day = 719162"

definition Format_RFC3339 :: "time \<Rightarrow> string" where
  "Format_RFC3339 t =
     (let secs = t div Second;
          (year, yday) = year_day (secs div 86400 + epoch_day);
          (month, day) = month_day (is_leap year) yday;
          sec = secs mod 86400
      in pad_int 4 year @ ''-'' @ pad_int 2 month @ ''-'' @ pad_int 2 day @ ''T'' @
         pad_int 2 (sec div 3600) @ '':'' @ pad_int 2 (sec div 60 mod 60) @ '':'' @ pad_int 2 (sec mod 60) @ ''Z'')"

text \<open>The time that a reader finds in the printed form.\<close>

definition read_RFC3339 :: "string \<Rightarrow> time" where
  "read_RFC3339 s =
     (let f = (\<lambda>i w. int (digits_val (take w (drop i s)))); year = f 0 4
      in ((days_before_year year + days_before_month year (f 5 2) + f 8 2 - 1 - epoch_day) * 86400 +
          f 11 2 * 3600 + f 14 2 * 60 + f 17 2) * Second)"

lemma pad_int_ok: "0 \<le> n \<Longrightarrow> n < 10 ^ w \<Longrightarrow> 0 < w \<Longrightarrow> length (pad_int w n) = w \<and> int (digits_val (pad_int w n)) = n"
  by (simp add: pad_int_def length_pad_decimal nat_less_iff)

lemma read_stamp:
  assumes "length Y = 4" "length M = 2" "length D = 2" "length h = 2" "length m = 2" "length s = 2"
  shows "read_RFC3339 (Y @ ''-'' @ M @ ''-'' @ D @ ''T'' @ h @ '':'' @ m @ '':'' @ s @ ''Z'') =
    ((days_before_year (int (digits_val Y)) + days_before_month (int (digits_val Y)) (int (digits_val M)) + int (digits_val D) - 1 - epoch_day) * 86400 +
       int (digits_val h) * 3600 + int (digits_val m) * 60 + int (digits_val s)) * Second"
  using assms by (simp add: read_RFC3339_def Let_def)

lemma read_numbers:
  assumes "0 \<le> y" "y \<le> 9999" "0 \<le> mo" "mo \<le> 99" "0 \<le> d" "d \<le> 99" "0 \<le> h" "h \<le> 99" "0 \<le> m" "m \<le> 99" "0 \<le> s" "s \<le> 99"
  shows "read_RFC3339 (pad_int 4 y @ ''-'' @ pad_int 2 mo @ ''-'' @ pad_int 2 d @ ''T'' @ pad_int 2 h @ '':'' @ pad_int 2 m @ '':'' @ pad_int 2 s @ ''Z'') =
    ((days_before_year y + days_before_month y mo + d - 1 - epoch_day) * 86400 + h * 3600 + m * 60 + s) * Second"
  using assms pad_int_ok[of y 4] pad_int_ok[of mo 2] pad_int_ok[of d 2] pad_int_ok[of h 2] pad_int_ok[of m 2] pad_int_ok[of s 2]
  by (subst read_stamp) simp_all

lemma read_Format:
  assumes "- epoch_day * 86400 * Second \<le> t" "t < (3652059 - epoch_day) * 86400 * Second"
  shows "read_RFC3339 (Format_RFC3339 t) = t div Second * Second"
proof -
  define days where "days = t div Second div 86400 + epoch_day"
  define sec where "sec = t div Second mod 86400"
  obtain y k where yk: "year_day days = (y, k)" by fastforce
  obtain m d where md: "month_day (is_leap y) k = (m, d)" by fastforce
  note ys = year_day_spec[OF yk] and ms = month_day_spec[OF year_day_spec(2,3)[OF yk] md]
  have "t div (Second * 86400) + epoch_day = days" by (simp add: days_def zdiv_zmult2_eq Second_def)
  then have "0 \<le> days" "days < 3652059" using assms unfolding Second_def epoch_day_def by simp_all
  then have y: "1 \<le> y" "y \<le> 9999" using year_day_range[OF yk] by simp_all
  have sec: "0 \<le> sec" "sec < 86400" by (simp_all add: sec_def)
  have hms: "sec div 3600 * 3600 + sec div 60 mod 60 * 60 + sec mod 60 = sec"
  proof -
    have "sec div 3600 = sec div 60 div 60" using zdiv_zmult2_eq[of 60 sec 60] by simp
    moreover have "sec div 60 div 60 * 60 + sec div 60 mod 60 = sec div 60" "sec div 60 * 60 + sec mod 60 = sec"
      by (rule div_mult_mod_eq)+
    ultimately show ?thesis by linarith
  qed
  have bounds: "0 \<le> sec div 3600" "sec div 3600 \<le> 99" "0 \<le> sec div 60 mod 60" "sec div 60 mod 60 \<le> 99" "0 \<le> sec mod 60" "sec mod 60 \<le> 99"
    using sec by simp_all
  have date: "0 \<le> y" "0 \<le> m" "m \<le> 99" "0 \<le> d" "d \<le> 99" using y ms by simp_all
  have days: "days_before_year y + days_before_month y m + d - 1 = days" using ys(1) ms by (simp add: days_before_month_def)
  have "read_RFC3339 (Format_RFC3339 t) = ((days - epoch_day) * 86400 + sec) * Second"
    using read_numbers[OF date(1) y(2) date(2-5) bounds] unfolding days unfolding add.assoc hms[unfolded add.assoc]
    by (simp add: Format_RFC3339_def Let_def days_def[symmetric] sec_def[symmetric] yk md)
  moreover have "(days - epoch_day) * 86400 + sec = t div Second" by (simp add: days_def sec_def)
  ultimately show ?thesis by simp
qed

section \<open>Quoting\<close>

text \<open>
  \<^verbatim>\<open>strconv.Quote\<close> on ASCII strings. Outside ASCII it depends on the tables of printable characters;
  what it makes of such a string is the argument \<open>wide\<close>.
\<close>

definition quote_char :: "char \<Rightarrow> string" where
  "quote_char c =
     (if c = CHR 0x22 \<or> c = CHR 0x5C then [CHR 0x5C, c]
      else if c = CHR 0x07 then [CHR 0x5C, CHR ''a'']
      else if c = CHR 0x08 then [CHR 0x5C, CHR ''b'']
      else if c = CHR 0x0C then [CHR 0x5C, CHR ''f'']
      else if c = CHR 0x0A then [CHR 0x5C, CHR ''n'']
      else if c = CHR 0x0D then [CHR 0x5C, CHR ''r'']
      else if c = CHR 0x09 then [CHR 0x5C, CHR ''t'']
      else if c = CHR 0x0B then [CHR 0x5C, CHR ''v'']
      else if of_char c < (32 :: nat) \<or> c = CHR 0x7F then
        [CHR 0x5C, CHR ''x'', hex_char (of_char c div 16), hex_char (of_char c mod 16)]
      else [c])"

definition Quote :: "(string \<Rightarrow> string) \<Rightarrow> string \<Rightarrow> string" where
  "Quote wide s =
     (if list_all (\<lambda>c. of_char c < (128 :: nat)) s then CHR 0x22 # concat (map quote_char s) @ [CHR 0x22] else wide s)"

text \<open>A valid name is printed as it is, between quotes.\<close>

lemma Quote_label:
  assumes "list_all label_char s"
  shows "Quote wide s = CHR 0x22 # s @ [CHR 0x22]"
proof -
  have "quote_char c = [c] \<and> of_char c < (128 :: nat)" if "label_char c" for c
  proof -
    have n: "32 \<le> (of_char c :: nat)" "of_char c < (127 :: nat)" "of_char c \<noteq> (92 :: nat)" "of_char c \<noteq> (34 :: nat)"
      using that by (auto simp: label_char_ord)
    then have "c \<notin> {CHR 0x22, CHR 0x5C, CHR 0x07, CHR 0x08, CHR 0x0C, CHR 0x0A, CHR 0x0D, CHR 0x09, CHR 0x0B, CHR 0x7F}" by auto
    then show ?thesis using n by (simp add: quote_char_def)
  qed
  then show ?thesis using assms unfolding Quote_def by (induction s) (auto simp: list_all_iff)
qed

end
