(* ===== verification/Meshctl.thy ===== *)
theory Meshctl
  imports Identity Pairing_Client Coordinator Mdns Flag GoFormat
begin

text \<open>
  \<^verbatim>\<open>cmd/meshctl/main.go\<close>: the operator's commands, from the words of the command line. Randomness,
  clock readings, the host name, the environment, the network and the answers of the coordinator are
  arguments. A command returns what it prints as a record; \<open>init_lines\<close>, \<open>pair_lines\<close> and \<open>join_lines\<close>
  are the text it makes of it.
\<close>

section \<open>Options, inputs, output\<close>

definition defaultGRPCPort :: int where "defaultGRPCPort = 7443"
definition discoverTimeout :: duration where "discoverTimeout = 5 * Second"

text \<open>
  \<open>env\<close> is the environment variable (empty when unset), \<open>home\<close> the home directory, if known, as a clean
  path (\<^verbatim>\<open>filepath.Join\<close> changes nothing else in it).
\<close>

definition defaultDataDir :: "string \<Rightarrow> string option \<Rightarrow> string" where
  "defaultDataDir env home =
     (if env \<noteq> [] then env else case home of None \<Rightarrow> ''.lcm'' | Some h \<Rightarrow> if h = ''/'' then ''/.lcm'' else h @ ''/.lcm'')"

record id_inputs =
  in_Random :: "bytes option"
  in_Host :: "nat list"

definition resolveNodeID :: "string \<Rightarrow> string \<Rightarrow> bool \<Rightarrow> id_inputs \<Rightarrow> (fs, string) io" where
  "resolveNodeID dataDir flagValue overwrite inp =
     io_then (if flagValue \<noteq> [] then identity_Set dataDir flagValue overwrite (in_Random inp) (in_Host inp) else io_ret ()) (\<lambda>_.
       LoadOrCreate dataDir (in_Random inp) (in_Host inp))"

record init_options =
  io_DataDir :: string
  io_MeshID :: string
  io_AdminName :: string
  io_NodeID :: string
  io_Force :: bool

record sign_inputs =
  sg_Key :: "nat option"
  sg_Serial :: "nat option"
  sg_Now :: time
  sg_Entropy :: bytes

record init_inputs =
  ii_Id :: id_inputs
  ii_CA :: sign_inputs
  ii_Node :: sign_inputs
  ii_Admin :: sign_inputs

record init_output =
  out_MeshID :: string
  out_NodeID :: string
  out_CAFingerprint :: string
  out_NodeExpires :: time
  out_AdminExpires :: time

section \<open>\<^verbatim>\<open>meshctl init\<close>\<close>

text \<open>A new key and a certificate for it.\<close>

definition issue_new :: "crypto \<Rightarrow> CA \<Rightarrow> principal \<Rightarrow> duration \<Rightarrow> sign_inputs \<Rightarrow> err + privkey \<times> certificate" where
  "issue_new C ca p ttl inp =
     and_then (NewKey (sg_Key inp)) (\<lambda>key.
     and_then (Sign C ca \<lparr>sr_Principal = p, sr_PublicKey = Some (pub_of C key), sr_TTL = ttl\<rparr> (sg_Serial inp) (sg_Now inp)
                (sg_Entropy inp)) (\<lambda>cert. Inr (key, cert)))"

fun write_all :: "(string \<times> (fs, unit) io) list \<Rightarrow> (fs, unit) io" where
  "write_all [] = io_ret ()"
| "write_all ((name, fn) # ws) = io_then (io_err (Wrap ''write'') fn) (\<lambda>_. write_all ws)"

definition init_writes ::
  "crypto \<Rightarrow> string \<Rightarrow> bool \<Rightarrow> CA \<Rightarrow> privkey \<times> certificate \<Rightarrow> privkey \<times> certificate \<Rightarrow> (string \<times> (fs, unit) io) list" where
  "init_writes C dir force ca node adm =
     [(CACertFile, WriteCert C dir CACertFile (ca_Cert ca) force),
      (CAKeyFile, WriteKey C dir CAKeyFile (ca_Key ca) force),
      (NodeCertFile, WriteCert C dir NodeCertFile (snd node) force),
      (NodeKeyFile, WriteKey C dir NodeKeyFile (fst node) force),
      (AdminCertFile, WriteCert C dir AdminCertFile (snd adm) force),
      (AdminKeyFile, WriteKey C dir AdminKeyFile (fst adm) force)]"

definition cmdInit :: "crypto \<Rightarrow> init_options \<Rightarrow> init_inputs \<Rightarrow> (fs, init_output) io" where
  "cmdInit C opts inp =
     (if io_MeshID opts = [] then io_of (Inl (Msg ''--mesh-id is required''))
      else (\<lambda>s. case os_Stat (io_DataDir opts, CAKeyFile) s of (r, s1) \<Rightarrow>
        if is_ok r \<and> \<not> io_Force opts then (Inl (Msg ''already contains a mesh CA; use --force to replace it''), s1)
        else
          io_then (resolveNodeID (io_DataDir opts) (io_NodeID opts) (io_Force opts) (ii_Id inp)) (\<lambda>nodeID.
          io_then (io_of (NewCA C (io_MeshID opts) (sg_Key (ii_CA inp)) (sg_Serial (ii_CA inp)) (sg_Now (ii_CA inp))
                            (sg_Entropy (ii_CA inp)))) (\<lambda>ca.
          io_then (io_of (issue_new C ca \<lparr>pr_MeshID = io_MeshID opts, pr_Role = RoleNode, pr_Name = nodeID\<rparr>
                            DefaultNodeCertTTL (ii_Node inp))) (\<lambda>node.
          io_then (io_of (issue_new C ca \<lparr>pr_MeshID = io_MeshID opts, pr_Role = RoleAdmin, pr_Name = io_AdminName opts\<rparr>
                            DefaultAdminCertTTL (ii_Admin inp))) (\<lambda>adm.
          io_then (write_all (init_writes C (io_DataDir opts) (io_Force opts) ca node adm)) (\<lambda>_.
            io_ret \<lparr>out_MeshID = io_MeshID opts, out_NodeID = nodeID, out_CAFingerprint = Fingerprint (ca_Cert ca),
                    out_NodeExpires = NotAfter (snd node), out_AdminExpires = NotAfter (snd adm)\<rparr>))))) s1))"

section \<open>\<^verbatim>\<open>meshctl pair\<close>\<close>

record pair_options =
  po_DataDir :: string
  po_Addr :: string
  po_TTL :: duration

record pair_output =
  pout_Code :: string
  pout_ValidFor :: duration
  pout_PairAddr :: string

text \<open>
  \<^verbatim>\<open>uint32(ttl.Seconds())\<close>: for a duration that is not negative and below \<^verbatim>\<open>2^22\<close> seconds the
  floating-point value is exact enough to give the whole seconds; elsewhere the conversion depends on
  the platform and is the argument \<open>conv\<close>.
\<close>

definition ttl_seconds :: "(duration \<Rightarrow> 32 word) \<Rightarrow> duration \<Rightarrow> 32 word" where
  "ttl_seconds conv d = (if 0 \<le> d \<and> d < 4194304 * Second then of_int (d div Second) else conv d)"

definition cmdPair ::
  "crypto \<Rightarrow> (duration \<Rightarrow> 32 word) \<Rightarrow> (string \<Rightarrow> err option) \<Rightarrow> (grpc_conn \<Rightarrow> create_request \<Rightarrow> err + create_response) \<Rightarrow>
   pair_options \<Rightarrow> time \<Rightarrow> (fs, pair_output) io" where
  "cmdPair C conv target rpc_create opts now =
     io_then (io_err (\<lambda>e. if errors_Is e OsErrNotExist then Msg ''no admin identity'' else e)
               (LoadAdminIdentity C (po_DataDir opts) now)) (\<lambda>adm.
     io_then (io_err (Wrap ''read local node cert'') (ReadCert C (po_DataDir opts) NodeCertFile)) (\<lambda>nodeCert.
     io_then (io_of (PrincipalFromCert nodeCert)) (\<lambda>loc.
     io_then (io_of (Dial target adm (po_Addr opts) (pr_Name loc))) (\<lambda>conn.
     io_then (io_of (map_err (Wrap ''is meshd --coordinator running?'')
                       (rpc_create conn \<lparr>cpr_TtlSeconds = ttl_seconds conv (po_TTL opts)\<rparr>))) (\<lambda>resp.
       io_ret \<lparr>pout_Code = cps_Code resp, pout_ValidFor = Duration_Round (po_TTL opts) Second, pout_PairAddr = cps_PairAddr resp\<rparr>)))))"

section \<open>\<^verbatim>\<open>meshctl join\<close>\<close>

text \<open>
  The wait for a coordinator: the events that arrive before the timeout, in order; only the first
  appearance of a peer counts.
\<close>

fun await_coordinator :: "peer_event list \<Rightarrow> err + string" where
  "await_coordinator [] = Inl (Msg ''no coordinator found over mDNS'')"
| "await_coordinator (ev # evs) =
     (if ev_Kind ev = PeerAdded \<and> IsCoordinator (ev_Peer ev) then Inr (PairAddr (ev_Peer ev)) else await_coordinator evs)"

definition discoverCoordinator :: "zeroconf \<Rightarrow> peer_event list \<Rightarrow> string \<Rightarrow> err + string" where
  "discoverCoordinator zc evs nodeID =
     and_then (NewMDNS \<lparr>mc_Advertisement = \<lparr>ad_NodeID = nodeID, ad_MeshID = AnyMesh, ad_GRPCPort = 1, ad_PairPort = 0,
                          ad_Fingerprint = []\<rparr>, mc_Interfaces = None, mc_ExpireAfter = 0, mc_EventBuffer = 0,
                        mc_BrowseOnly = True\<rparr>) (\<lambda>md.
     and_then (fst (mdns_Start zc md)) (\<lambda>_. await_coordinator evs))"

record join_options =
  jo_DataDir :: string
  jo_Code :: string
  jo_Coordinator :: string
  jo_NodeID :: string
  jo_Force :: bool

record join_inputs =
  ji_Id :: id_inputs
  ji_Zeroconf :: zeroconf
  ji_Events :: "peer_event list"
  ji_Net :: "string \<Rightarrow> rpc"
  ji_Key :: "nat option"
  ji_Entropy :: bytes
  ji_Now1 :: time
  ji_Now2 :: time

record join_output =
  jout_MeshID :: string
  jout_NodeID :: string
  jout_Coordinator :: string
  jout_CoordinatorAddr :: string
  jout_CAFingerprint :: string
  jout_NodeExpires :: time

definition cmdJoin :: "crypto \<Rightarrow> join_options \<Rightarrow> join_inputs \<Rightarrow> (fs, join_output) io" where
  "cmdJoin C opts inp =
     io_then (io_of (map_err (Wrap ''--code'') (ValidateCodeFormat (jo_Code opts)))) (\<lambda>_ s.
       case os_Stat (jo_DataDir opts, NodeKeyFile) s of (r, s1) \<Rightarrow>
         if is_ok r \<and> \<not> jo_Force opts then (Inl (Msg ''already has a node identity; use --force to re-pair''), s1)
         else
           io_then (resolveNodeID (jo_DataDir opts) (jo_NodeID opts) (jo_Force opts) (ji_Id inp)) (\<lambda>nodeID.
           io_then (io_of (if jo_Coordinator opts = [] then discoverCoordinator (ji_Zeroconf inp) (ji_Events inp) nodeID
                           else Inr (jo_Coordinator opts))) (\<lambda>addr.
           io_then (io_of (Join C (ji_Net inp addr) addr (jo_Code opts) nodeID (ji_Key inp) (ji_Entropy inp) (ji_Now1 inp)
                             (ji_Now2 inp))) (\<lambda>res.
           io_then (Persist C res (jo_DataDir opts) (jo_Force opts)) (\<lambda>_.
             io_ret \<lparr>jout_MeshID = bd_MeshID (jr_Bundle res), jout_NodeID = nodeID,
                     jout_Coordinator = jr_CoordinatorNodeID res, jout_CoordinatorAddr = jr_CoordinatorGRPCAddr res,
                     jout_CAFingerprint = Fingerprint (bd_CACert (jr_Bundle res)), jout_NodeExpires = NotAfter (bd_NodeCert (jr_Bundle res))\<rparr>)))) s1)"

section \<open>Flags\<close>

text \<open>The flags of the three commands with their defaults; \<open>dd\<close> is the default data directory.\<close>

definition init_flags :: "string \<Rightarrow> flags" where
  "init_flags dd =
     [(''data-dir'', StringVal dd), (''mesh-id'', StringVal []), (''admin-name'', StringVal ''admin''),
      (''node-id'', StringVal []), (''force'', BoolVal False)]"

definition pair_flags :: "string \<Rightarrow> flags" where
  "pair_flags dd =
     [(''data-dir'', StringVal dd), (''addr'', StringVal (''127.0.0.1:'' @ Itoa defaultGRPCPort)),
      (''ttl'', DurationVal DefaultCodeTTL)]"

definition join_flags :: "string \<Rightarrow> flags" where
  "join_flags dd =
     [(''data-dir'', StringVal dd), (''code'', StringVal []), (''coordinator'', StringVal []),
      (''node-id'', StringVal []), (''force'', BoolVal False)]"

definition parse_init :: "string \<Rightarrow> string list \<Rightarrow> err + init_options" where
  "parse_init dd args =
     (case flag_Parse (init_flags dd) args of (r, f) \<Rightarrow>
        let fl = fg_formal f in
        and_then r (\<lambda>_. Inr \<lparr>io_DataDir = string_flag fl ''data-dir'', io_MeshID = string_flag fl ''mesh-id'',
          io_AdminName = string_flag fl ''admin-name'', io_NodeID = string_flag fl ''node-id'', io_Force = bool_flag fl ''force''\<rparr>))"

definition parse_pair :: "string \<Rightarrow> string list \<Rightarrow> err + pair_options" where
  "parse_pair dd args =
     (case flag_Parse (pair_flags dd) args of (r, f) \<Rightarrow>
        let fl = fg_formal f in
        and_then r (\<lambda>_. Inr \<lparr>po_DataDir = string_flag fl ''data-dir'', po_Addr = string_flag fl ''addr'',
          po_TTL = duration_flag fl ''ttl''\<rparr>))"

definition parse_join :: "string \<Rightarrow> string list \<Rightarrow> err + join_options" where
  "parse_join dd args =
     (case flag_Parse (join_flags dd) args of (r, f) \<Rightarrow>
        let fl = fg_formal f in
        and_then r (\<lambda>_. Inr \<lparr>jo_DataDir = string_flag fl ''data-dir'', jo_Code = string_flag fl ''code'',
          jo_Coordinator = string_flag fl ''coordinator'', jo_NodeID = string_flag fl ''node-id'', jo_Force = bool_flag fl ''force''\<rparr>))"

section \<open>Dispatch\<close>

datatype ctl_output = OutInit init_output | OutPair pair_output | OutJoin join_output | OutVersion | OutUsage "string list"

text \<open>The usage text, line by line.\<close>

definition usage :: "string list" where
  "usage =
     [''usage: meshctl <command> [flags]'',
      [],
      ''commands:'',
      ''  init     create a new mesh: CA, this node'' @ [CHR 0x27] @ ''s certificate, and an admin certificate'',
      ''  pair     mint a one-time code for another node to join (run on the coordinator)'',
      ''  join     join an existing mesh with a code from '' @ [CHR 0x27] @ ''meshctl pair'' @ [CHR 0x27],
      ''  version  print version'',
      [],
      ''run '' @ [CHR 0x27] @ ''meshctl <command> -h'' @ [CHR 0x27] @ '' for flags'']"

record ctl_inputs =
  ci_Env :: string
  ci_Home :: "string option"
  ci_Init :: init_inputs
  ci_Join :: join_inputs
  ci_Conv :: "duration \<Rightarrow> 32 word"
  ci_Target :: "string \<Rightarrow> err option"
  ci_Create :: "grpc_conn \<Rightarrow> create_request \<Rightarrow> err + create_response"
  ci_Now :: time

definition meshctl_run :: "crypto \<Rightarrow> ctl_inputs \<Rightarrow> string list \<Rightarrow> (fs, ctl_output) io" where
  "meshctl_run C inp args =
     (let dd = defaultDataDir (ci_Env inp) (ci_Home inp) in
      case args of
        [] \<Rightarrow> io_of (Inl (Msg ''no command''))
      | cmd # rest \<Rightarrow>
          if cmd = ''init'' then
            io_then (io_of (parse_init dd rest)) (\<lambda>opts. io_then (cmdInit C opts (ci_Init inp)) (\<lambda>out. io_ret (OutInit out)))
          else if cmd = ''pair'' then
            io_then (io_of (parse_pair dd rest)) (\<lambda>opts.
              io_then (cmdPair C (ci_Conv inp) (ci_Target inp) (ci_Create inp) opts (ci_Now inp)) (\<lambda>out. io_ret (OutPair out)))
          else if cmd = ''join'' then
            io_then (io_of (parse_join dd rest)) (\<lambda>opts. io_then (cmdJoin C opts (ci_Join inp)) (\<lambda>out. io_ret (OutJoin out)))
          else if cmd = ''version'' \<or> cmd = ''--version'' \<or> cmd = ''-v'' then io_ret OutVersion
          else if cmd = ''help'' \<or> cmd = ''-h'' \<or> cmd = ''--help'' then io_ret (OutUsage usage)
          else io_of (Inl (Msg ''unknown command'')))"

text \<open>The process: the exit status and the error it reports, if any.\<close>

definition meshctl_main :: "crypto \<Rightarrow> ctl_inputs \<Rightarrow> string list \<Rightarrow> fs \<Rightarrow> (int \<times> (err + ctl_output)) \<times> fs" where
  "meshctl_main C inp args s =
     (case meshctl_run C inp args s of (r, s1) \<Rightarrow> ((case r of Inl _ \<Rightarrow> 1 | Inr _ \<Rightarrow> 0, r), s1))"

text \<open>What \<^verbatim>\<open>pair\<close> prints, line by line.\<close>

definition pair_lines :: "pair_output \<Rightarrow> string list" where
  "pair_lines out =
     [''pairing code: '' @ pout_Code out @ ''   (valid for '' @ Duration_String (pout_ValidFor out) @ '', single use)'',
      [],
      ''on the new node, run:'',
      ''  meshctl join --code '' @ pout_Code out,
      ''or, if mDNS does not reach it:'',
      ''  meshctl join --code '' @ pout_Code out @ '' --coordinator '' @ pout_PairAddr out]"

definition pair_text :: "pair_output \<Rightarrow> string" where
  "pair_text out = concat (map (\<lambda>l. l @ [CHR 0x0A]) (pair_lines out))"

text \<open>The final output of \<^verbatim>\<open>init\<close> and \<^verbatim>\<open>join\<close>.\<close>

definition init_lines :: "(string \<Rightarrow> string) \<Rightarrow> init_options \<Rightarrow> init_output \<Rightarrow> string list" where
  "init_lines wide opts out =
     [''mesh '' @ Quote wide (out_MeshID out) @ '' initialised in '' @ io_DataDir opts,
      ''  node_id         '' @ out_NodeID out,
      ''  CA fingerprint  '' @ out_CAFingerprint out,
      ''  node cert       expires '' @ Format_RFC3339 (out_NodeExpires out),
      ''  admin cert      '' @ io_AdminName opts @ '', expires '' @ Format_RFC3339 (out_AdminExpires out),
      [],
      ''start the coordinator:  meshd --coordinator'',
      ''then add nodes with:    meshctl pair'']"

definition join_lines :: "(string \<Rightarrow> string) \<Rightarrow> join_output \<Rightarrow> string list" where
  "join_lines wide out =
     [''joined mesh '' @ Quote wide (jout_MeshID out) @ '' as '' @ jout_NodeID out,
      ''  coordinator     '' @ jout_Coordinator out @ '' ('' @ jout_CoordinatorAddr out @ '')'',
      ''  CA fingerprint  '' @ jout_CAFingerprint out,
      ''  node cert       expires '' @ Format_RFC3339 (jout_NodeExpires out),
      [],
      ''start the node:  meshd'']"

text \<open>The commands that the usage text lists, and that every other word is refused.\<close>

definition listed_commands :: "string list" where
  "listed_commands = map (\<lambda>l. takeWhile (\<lambda>c. c \<noteq> CHR '' '') (drop 2 l)) (takeWhile (\<lambda>l. l \<noteq> []) (drop 3 usage))"

lemma unlisted_command:
  assumes "cmd \<notin> set listed_commands" "cmd \<notin> set [''--version'', ''-v'', ''help'', ''-h'', ''--help'']"
  shows "meshctl_main C inp (cmd # args) s = ((1, Inl (Msg ''unknown command'')), s)"
proof -
  have "set listed_commands = {''init'', ''pair'', ''join'', ''version''}" by (simp add: listed_commands_def usage_def)
  then have "meshctl_run C inp (cmd # args) s = (Inl (Msg ''unknown command''), s)"
    using assms by (auto simp: meshctl_run_def io_of_def Let_def)
  then show ?thesis by (simp add: meshctl_main_def)
qed

section \<open>Lemmas for \<^verbatim>\<open>init\<close>\<close>

text \<open>A leaf certificate as the CA issues it for the principal \<open>p\<close> and the key \<open>k\<close>, in time at \<open>t\<close>.\<close>

definition good_leaf :: "crypto \<Rightarrow> CA \<Rightarrow> principal \<Rightarrow> privkey \<Rightarrow> time \<Rightarrow> certificate \<Rightarrow> bool" where
  "good_leaf C ca p k t c \<longleftrightarrow> ParseCertificate C (Raw c) = Inr c \<and> PublicKey c = Some (pub_of C k) \<and>
     VerifyAgainst C (ca_Cert ca) c t = Inr p \<and> DNSNames c = (if pr_Role p = RoleNode then [pr_Name p] else []) \<and>
     ExtKeyUsage c = [ExtKeyUsageServerAuth, ExtKeyUsageClientAuth]"

lemma issue_new_ok:
  assumes C: "crypto_ok C" and wf: "ca_wf C ca" and now: "clock_ok (sg_Now inp)" and mesh: "pr_MeshID p = MeshID ca"
    and name: "is_ok (validateLabel (pr_Name p))" and role: "role_ok (pr_Role p)"
    and ttl: "0 < ttl" "ttl \<le> 20 * 365 * 24 * Hour" and r: "sg_Key inp = Some x" "sg_Serial inp = Some n"
  shows "\<exists>k cert. issue_new C ca p ttl inp = Inr (k, cert) \<and> ParseCertificate C (Raw cert) = Inr cert \<and>
    (\<forall>t. sg_Now inp - backdate \<le> t \<and> t + Second \<le> sg_Now inp + ttl \<and> time_valid t (ca_Cert ca) \<longrightarrow> good_leaf C ca p k t cert)"
proof -
  let ?k = "PrivKey P256 x"
  let ?req = "\<lparr>sr_Principal = p, sr_PublicKey = Some (pub_of C ?k), sr_TTL = ttl\<rparr>"
  have a: "sign_allowed ca ?req" using mesh name role ttl by (simp add: sign_allowed_def)
  obtain c where c: "Sign C ca ?req (Some n) (sg_Now inp) (sg_Entropy inp) = Inr c" "ParseCertificate C (Raw c) = Inr c"
    "PublicKey c = Some (pub_of C ?k)" "NotBefore c = trunc_sec (sg_Now inp - backdate)"
    "NotAfter c = trunc_sec (sg_Now inp + ttl)"
    "\<forall>t. time_valid t c \<and> time_valid t (ca_Cert ca) \<longrightarrow> VerifyAgainst C (ca_Cert ca) c t = Inr p"
    using pki_ca.issue_ok[OF conjI[OF C wf] now a, of n "sg_Entropy inp"] ttl(2) by auto
  have "time_valid t c" if "sg_Now inp - backdate \<le> t" "t + Second \<le> sg_Now inp + ttl" for t
    using that trunc_sec_bounds[of "sg_Now inp - backdate"] trunc_sec_bounds[of "sg_Now inp + ttl"]
    by (simp add: time_valid_def time_ops c(4,5))
  then have "\<forall>t. sg_Now inp - backdate \<le> t \<and> t + Second \<le> sg_Now inp + ttl \<and> time_valid t (ca_Cert ca) \<longrightarrow> good_leaf C ca p ?k t c"
    using c issued_leaf[OF C wf now _ c(1)] ttl(2) by (simp add: good_leaf_def)
  then show ?thesis using c(1,2) r by (auto simp: issue_new_def NewKey_def)
qed

lemma issue_new_expires:
  assumes C: "crypto_ok C" and wf: "ca_wf C ca" and now: "clock_ok (sg_Now inp)" and ttl: "ttl \<le> 20 * 365 * 24 * Hour"
    and n: "sg_Serial inp \<noteq> None" and i: "issue_new C ca p ttl inp = Inr (k, c)"
  shows "NotAfter c = trunc_sec (sg_Now inp + ttl)"
proof -
  let ?req = "\<lparr>sr_Principal = p, sr_PublicKey = Some (pub_of C k), sr_TTL = ttl\<rparr>"
  obtain n where s: "Sign C ca ?req (Some n) (sg_Now inp) (sg_Entropy inp) = Inr c"
    using i n by (auto simp: issue_new_def go_result)
  then have "sign_allowed ca ?req" using Sign_rejects[of ca ?req C "Some n" "sg_Now inp" "sg_Entropy inp"] by auto
  then show ?thesis using pki_ca.issue_ok[OF conjI[OF C wf] now, of ?req n "sg_Entropy inp"] ttl s by auto
qed

lemma write_id_quiet:
  assumes "fs_quiet s"
  obtains t where "write_id dir name data s = (Inr (), t)" "keeps {(dir, name)} s t" "fs_quiet t"
proof -
  obtain t where t: "write_id dir name data s = (Inr (), t)" using write_id_succeeds[OF assms] by blast
  moreover have "keeps {(dir, name)} s t" using write_id_keeps[of dir name s data] t by simp
  ultimately show thesis using that keeps_quiet assms by blast
qed

lemma resolveNodeID_fresh:
  assumes q: "fs_quiet s" and none: "fs_files s (dir, nodeIDFile) = None"
    and flag: "flag = [] \<or> is_ok (Validate flag)" and rnd: "in_Random inp = Some buf" "length buf = 3"
  obtains nodeID t where "resolveNodeID dir flag ow inp s = (Inr nodeID, t)" "keeps {(dir, nodeIDFile)} s t" "fs_quiet t"
    "stores_id dir nodeID t" "flag \<noteq> [] \<longrightarrow> nodeID = flag"
proof (cases "flag = []")
  case True
  obtain i where i: "Generate (in_Random inp) (in_Host inp) = Inr i" "is_ok (Validate i)" using Generate_ok[OF rnd(2)] rnd(1) by metis
  obtain t where t: "write_id dir nodeIDFile (bytes_of (i @ [CHR 0x0A])) s = (Inr (), t)" "keeps {(dir, nodeIDFile)} s t" "fs_quiet t"
    by (rule write_id_quiet[OF q])
  have "resolveNodeID dir flag ow inp s = (Inr i, t)"
    using True i(1) t(1) by (simp add: resolveNodeID_def io_then_def LoadOrCreate_missing[OF none] del: bytes_of_append)
  moreover have "stores_id dir i t" using write_id_stores[OF t(1) i(2)] q by simp
  ultimately show thesis using that t True by blast
next
  case False
  then have v: "is_ok (Validate flag)" using flag by simp
  obtain t where t: "write_id dir nodeIDFile (bytes_of (flag @ [CHR 0x0A])) s = (Inr (), t)" "keeps {(dir, nodeIDFile)} s t" "fs_quiet t"
    by (rule write_id_quiet[OF q])
  have st: "stores_id dir flag t" using write_id_stores[OF t(1) v] q by simp
  have "identity_Set dir flag ow (in_Random inp) (in_Host inp) s = (Inr (), t)"
    using v none q t(1)
    by (auto simp: identity_Set_def io_then_def os_Stat_def os_fault_def is_ok_iff simp del: bytes_of_append)
  then have "resolveNodeID dir flag ow inp s = (Inr flag, t)"
    using False LoadOrCreate_stored[OF st] by (simp add: resolveNodeID_def io_then_def)
  then show thesis using that t st by blast
qed

text \<open>Writing several files of different names into a directory that has none of them.\<close>

lemma write_all_ok:
  assumes "fs_quiet s" "distinct (map fst ws)" "\<forall>n \<in> fst ` set ws. fs_files s (dir, n) = None"
    and step: "\<And>n fn s. (n, fn) \<in> set ws \<Longrightarrow> fs_quiet s \<Longrightarrow> fs_files s (dir, n) = None \<Longrightarrow>
      \<exists>t b m. fn s = (Inr (), t) \<and> keeps {(dir, n)} s t \<and> fs_files t (dir, n) = Some (b, m) \<and> R n b m"
  shows "\<exists>t. write_all ws s = (Inr (), t) \<and> keeps ((\<lambda>n. (dir, n)) ` fst ` set ws) s t \<and>
    (\<forall>n \<in> fst ` set ws. \<exists>b m. fs_files t (dir, n) = Some (b, m) \<and> R n b m)"
  using assms
proof (induction ws arbitrary: s)
  case (Cons w ws)
  obtain n fn where w: "w = (n, fn)" by fastforce
  obtain t b m where t: "fn s = (Inr (), t)" "keeps {(dir, n)} s t" "fs_files t (dir, n) = Some (b, m)" "R n b m"
    using Cons.prems(4)[of n fn s] Cons.prems(1,3) w by auto
  have fresh: "\<forall>k \<in> fst ` set ws. fs_files t (dir, k) = None"
  proof
    fix k assume k: "k \<in> fst ` set ws"
    then have "k \<noteq> n" using Cons.prems(2) w by auto
    then show "fs_files t (dir, k) = None" using keeps_file[OF t(2), of "(dir, k)"] Cons.prems(3) k w by simp
  qed
  have dist: "distinct (map fst ws)" using Cons.prems(2) by simp
  obtain u where u: "write_all ws t = (Inr (), u)" "keeps ((\<lambda>n. (dir, n)) ` fst ` set ws) t u"
    "\<forall>n \<in> fst ` set ws. \<exists>b m. fs_files u (dir, n) = Some (b, m) \<and> R n b m"
    using Cons.IH[OF keeps_quiet[OF t(2) Cons.prems(1)] dist fresh] Cons.prems(4) by (auto 0 3)
  have "fs_files u (dir, n) = Some (b, m)"
    using keeps_file[OF u(2), of "(dir, n)"] t(3) Cons.prems(2) w by force
  then show ?case
    using t u keeps_trans[OF t(2) u(2)] w by (auto simp: io_then_def io_err_def)
qed simp

lemma ReadCert_content:
  "fs_quiet t \<Longrightarrow> fs_files t (dir, n) = Some (b, m) \<Longrightarrow> ParseCertPEM C b = Inr c \<Longrightarrow> ReadCert C dir n t = (Inr c, t)"
  by (simp add: ReadCert_def io_then_def os_ReadFile_def os_fault_def)

lemma ReadKey_content:
  "fs_quiet t \<Longrightarrow> fs_files t (dir, n) = Some (b, m) \<Longrightarrow> ParseKeyPEM C b = Inr k \<Longrightarrow> ReadKey C dir n t = (Inr k, t)"
  by (simp add: ReadKey_def io_then_def os_ReadFile_def os_fault_def)

text \<open>What the files of a list of certificates and a list of keys must hold, by name.\<close>

definition holds :: "crypto \<Rightarrow> (string \<times> certificate) list \<Rightarrow> (string \<times> privkey) list \<Rightarrow> string \<Rightarrow> bytes \<Rightarrow> perm \<Rightarrow> bool" where
  "holds C certs keys n b m \<longleftrightarrow>
     (\<forall>c. map_of certs n = Some c \<longrightarrow> ParseCertPEM C b = Inr c) \<and>
     (\<forall>k. map_of keys n = Some k \<longrightarrow> ParseKeyPEM C b = Inr k \<and> m = perm_0600)"

lemma WriteCert_holds:
  assumes "crypto_ok C" "(n, c) \<in> set certs" "distinct (map fst certs @ map fst keys)" "fs_quiet s"
    "fs_files s (dir, n) = None" "ParseCertificate C (Raw c) = Inr c"
  shows "\<exists>t b m. WriteCert C dir n c force s = (Inr (), t) \<and> keeps {(dir, n)} s t \<and>
    fs_files t (dir, n) = Some (b, m) \<and> holds C certs keys n b m"
proof -
  have "map_of certs n = Some c" using assms(2,3) by simp
  moreover have "map_of keys n = None" using assms(2,3) by (force simp: map_of_eq_None_iff)
  ultimately have "holds C certs keys n (EncodeCertPEM C c) m" for m
    using EncodeCertPEM_parse[OF assms(1,6)] by (simp add: holds_def)
  then show ?thesis using WriteCert_succeeds[OF assms(4), of dir n force C c] assms(5) by metis
qed

lemma WriteKey_holds:
  assumes "crypto_ok C" "(n, k) \<in> set keys" "distinct (map fst certs @ map fst keys)" "fs_quiet s"
    "fs_files s (dir, n) = None"
  shows "\<exists>t b m. WriteKey C dir n k force s = (Inr (), t) \<and> keeps {(dir, n)} s t \<and>
    fs_files t (dir, n) = Some (b, m) \<and> holds C certs keys n b m"
proof -
  have "map_of keys n = Some k" using assms(2,3) by simp
  moreover have "map_of certs n = None" using assms(2,3) by (force simp: map_of_eq_None_iff)
  ultimately have "holds C certs keys n b perm_0600" if "ParseKeyPEM C b = Inr k" for b
    using that by (simp add: holds_def)
  then show ?thesis using WriteKey_succeeds[OF assms(1,4), of dir n force k] assms(5) by metis
qed

lemma ReadCert_holds:
  assumes "\<exists>b m. fs_files t (dir, n) = Some (b, m) \<and> holds C certs keys n b m" "fs_quiet t"
    "distinct (map fst certs @ map fst keys)" "(n, c) \<in> set certs"
  shows "ReadCert C dir n t = (Inr c, t)"
  using assms(1,3,4) ReadCert_content[OF assms(2)] unfolding holds_def by auto

lemma ReadKey_holds:
  assumes "\<exists>b m. fs_files t (dir, n) = Some (b, m) \<and> holds C certs keys n b m" "fs_quiet t"
    "distinct (map fst certs @ map fst keys)" "(n, k) \<in> set keys"
  shows "ReadKey C dir n t = (Inr k, t) \<and> (\<exists>b. fs_files t (dir, n) = Some (b, perm_0600))"
  using assms(1,3,4) ReadKey_content[OF assms(2)] unfolding holds_def by auto

lemma pki_names_distinct:
  "distinct [nodeIDFile, CACertFile, CAKeyFile, NodeCertFile, NodeKeyFile, AdminCertFile, AdminKeyFile]"
  by (simp add: pki_files nodeIDFile_def)

lemmas pki_names = pki_names_distinct[simplified]

text \<open>The six files of \<open>init\<close>: every one can be read back.\<close>

lemma init_writes_ok:
  assumes C: "crypto_ok C" and q: "fs_quiet s"
    and none: "\<forall>n \<in> {CACertFile, CAKeyFile, NodeCertFile, NodeKeyFile, AdminCertFile, AdminKeyFile}. fs_files s (dir, n) = None"
    and parse: "ParseCertificate C (Raw (ca_Cert ca)) = Inr (ca_Cert ca)" "ParseCertificate C (Raw c1) = Inr c1"
      "ParseCertificate C (Raw c2) = Inr c2"
  obtains t where "write_all (init_writes C dir force ca (k1, c1) (k2, c2)) s = (Inr (), t)" "fs_quiet t"
    "fs_files t (dir, nodeIDFile) = fs_files s (dir, nodeIDFile)"
    "ReadCert C dir CACertFile t = (Inr (ca_Cert ca), t)" "ReadKey C dir CAKeyFile t = (Inr (ca_Key ca), t)"
    "ReadCert C dir NodeCertFile t = (Inr c1, t)" "ReadKey C dir NodeKeyFile t = (Inr k1, t)"
    "ReadCert C dir AdminCertFile t = (Inr c2, t)" "ReadKey C dir AdminKeyFile t = (Inr k2, t)"
    "\<forall>n \<in> {CAKeyFile, NodeKeyFile, AdminKeyFile}. \<exists>b. fs_files t (dir, n) = Some (b, perm_0600)"
proof -
  define ws where "ws = init_writes C dir force ca (k1, c1) (k2, c2)"
  define certs where "certs = [(CACertFile, ca_Cert ca), (NodeCertFile, c1), (AdminCertFile, c2)]"
  define keys where "keys = [(CAKeyFile, ca_Key ca), (NodeKeyFile, k1), (AdminKeyFile, k2)]"
  have dist: "distinct (map fst certs @ map fst keys)" using pki_names_distinct by (auto simp: certs_def keys_def)
  have names: "fst ` set ws = {CACertFile, CAKeyFile, NodeCertFile, NodeKeyFile, AdminCertFile, AdminKeyFile}"
    "distinct (map fst ws)"
    using pki_names_distinct by (auto simp: ws_def init_writes_def)
  have step: "\<exists>t b m. fn s = (Inr (), t) \<and> keeps {(dir, n)} s t \<and> fs_files t (dir, n) = Some (b, m) \<and> holds C certs keys n b m"
    if m: "(n, fn) \<in> set ws" and qs: "fs_quiet s" "fs_files s (dir, n) = None" for n fn s
  proof -
    from m consider c where "(n, c) \<in> set certs" "fn = WriteCert C dir n c force"
      | k where "(n, k) \<in> set keys" "fn = WriteKey C dir n k force"
      by (simp add: ws_def init_writes_def certs_def keys_def) blast
    then show ?thesis
      using WriteCert_holds[OF C _ dist qs] WriteKey_holds[OF C _ dist qs] parse by cases (auto simp: certs_def)
  qed
  have "\<exists>t. write_all ws s = (Inr (), t) \<and> keeps ((\<lambda>n. (dir, n)) ` fst ` set ws) s t \<and>
      (\<forall>n \<in> fst ` set ws. \<exists>b m. fs_files t (dir, n) = Some (b, m) \<and> holds C certs keys n b m)"
    by (rule write_all_ok[where R = "holds C certs keys" and dir = dir, OF q names(2) none[folded names(1)]]) (rule step; assumption)
  then obtain t where t: "write_all ws s = (Inr (), t)" "keeps ((\<lambda>n. (dir, n)) ` fst ` set ws) s t"
    and h: "\<And>n. n \<in> fst ` set ws \<Longrightarrow> \<exists>b m. fs_files t (dir, n) = Some (b, m) \<and> holds C certs keys n b m" by blast
  have qt: "fs_quiet t" using keeps_quiet[OF t(2) q] .
  have id: "fs_files t (dir, nodeIDFile) = fs_files s (dir, nodeIDFile)"
    by (rule keeps_file[OF t(2)]) (use pki_names in \<open>simp add: names(1) image_iff\<close>)
  note reads = ReadCert_holds[OF h qt dist] ReadKey_holds[OF h qt dist]
  have keys: "\<forall>n \<in> {CAKeyFile, NodeKeyFile, AdminKeyFile}. \<exists>b. fs_files t (dir, n) = Some (b, perm_0600)"
    using reads(2)[THEN conjunct2] by (simp add: names(1) keys_def) blast
  show thesis
    by (rule that[OF t(1)[unfolded ws_def] qt id _ _ _ _ _ _ keys]) (use reads in \<open>simp_all add: names(1) certs_def keys_def\<close>)
qed

text \<open>A directory in which \<open>init\<close> can do its work, and inputs for which it does.\<close>

definition init_ready :: "crypto \<Rightarrow> init_options \<Rightarrow> init_inputs \<Rightarrow> fs \<Rightarrow> bool" where
  "init_ready C opts inp s \<longleftrightarrow> crypto_ok C \<and> fs_quiet s \<and>
     (\<forall>n \<in> {nodeIDFile, CACertFile, CAKeyFile, NodeCertFile, NodeKeyFile, AdminCertFile, AdminKeyFile}.
        fs_files s (io_DataDir opts, n) = None) \<and>
     is_ok (validateLabel (io_MeshID opts)) \<and> is_ok (validateLabel (io_AdminName opts)) \<and>
     (io_NodeID opts = [] \<or> is_ok (Validate (io_NodeID opts))) \<and>
     (\<exists>buf. in_Random (ii_Id inp) = Some buf \<and> length buf = 3) \<and>
     (\<forall>g \<in> {ii_CA inp, ii_Node inp, ii_Admin inp}. clock_ok (sg_Now g) \<and> sg_Key g \<noteq> None \<and> sg_Serial g \<noteq> None)"

lemma LoadIdentity_reads:
  assumes "ReadCert C dir CACertFile s = (Inr ca, s)" "ReadCert C dir cf s = (Inr c, s)" "ReadKey C dir kf s = (Inr k, s)"
    "PublicKey c = Some (pub_of C k)" "VerifyAgainst C ca c now = Inr p"
  shows "LoadIdentity C dir cf kf now s = (Inr (mk_identity p ca c k), s)"
  using assms by (simp add: LoadIdentity_def io_then_def io_err_def NewIdentity_def mk_identity_def)

lemma ReadCA_reads:
  assumes "crypto_ok C" "ca_wf C ca" "key_curve (ca_Key ca) = P256"
    "ReadCert C dir CACertFile s = (Inr (ca_Cert ca), s)" "ReadKey C dir CAKeyFile s = (Inr (ca_Key ca), s)"
  shows "ReadCA C dir s = (Inr ca, s)"
proof -
  obtain x y where "pub_of C (ca_Key ca) = EcdsaPub P256 x y" using crypto_ok_key[OF assms(1), of "ca_Key ca"] assms(3) by auto
  then show ?thesis using assms by (simp add: ReadCA_def io_then_def LoadCA_def ca_wf_def may_sign_def)
qed

text \<open>The times at which everything \<open>init\<close> issued is valid.\<close>

definition init_time :: "init_inputs \<Rightarrow> time \<Rightarrow> bool" where
  "init_time inp t \<longleftrightarrow> (\<forall>g \<in> {ii_CA inp, ii_Node inp, ii_Admin inp}.
     sg_Now g - backdate \<le> t \<and> t + Second \<le> sg_Now g + DefaultNodeCertTTL)"

abbreviation node_principal :: "init_options \<Rightarrow> string \<Rightarrow> principal" where
  "node_principal opts nodeID \<equiv> \<lparr>pr_MeshID = io_MeshID opts, pr_Role = RoleNode, pr_Name = nodeID\<rparr>"

abbreviation admin_principal :: "init_options \<Rightarrow> principal" where
  "admin_principal opts \<equiv> \<lparr>pr_MeshID = io_MeshID opts, pr_Role = RoleAdmin, pr_Name = io_AdminName opts\<rparr>"

lemma init_issue:
  assumes r: "init_ready C opts inp s" and nodeID: "is_ok (Validate nodeID)"
  obtains ca k1 c1 k2 c2 where
    "NewCA C (io_MeshID opts) (sg_Key (ii_CA inp)) (sg_Serial (ii_CA inp)) (sg_Now (ii_CA inp)) (sg_Entropy (ii_CA inp)) = Inr ca"
    "MeshID ca = io_MeshID opts" "ca_wf C ca" "key_curve (ca_Key ca) = P256"
    "issue_new C ca (node_principal opts nodeID) DefaultNodeCertTTL (ii_Node inp) = Inr (k1, c1)"
    "issue_new C ca (admin_principal opts) DefaultAdminCertTTL (ii_Admin inp) = Inr (k2, c2)"
    "ParseCertificate C (Raw c1) = Inr c1" "ParseCertificate C (Raw c2) = Inr c2"
    "\<forall>t. init_time inp t \<longrightarrow> time_valid t (ca_Cert ca) \<and> good_leaf C ca (node_principal opts nodeID) k1 t c1 \<and>
       good_leaf C ca (admin_principal opts) k2 t c2"
proof -
  have C: "crypto_ok C" and m: "is_ok (validateLabel (io_MeshID opts))" and a: "is_ok (validateLabel (io_AdminName opts))"
    and g: "clock_ok (sg_Now (ii_CA inp))" "clock_ok (sg_Now (ii_Node inp))" "clock_ok (sg_Now (ii_Admin inp))"
    using r by (simp_all add: init_ready_def)
  obtain d n d1 n1 d2 n2 where in1: "sg_Key (ii_CA inp) = Some d" "sg_Serial (ii_CA inp) = Some n"
    and in2: "sg_Key (ii_Node inp) = Some d1" "sg_Serial (ii_Node inp) = Some n1"
    and in3: "sg_Key (ii_Admin inp) = Some d2" "sg_Serial (ii_Admin inp) = Some n2" using r by (auto simp: init_ready_def)
  have v: "is_ok (validateLabel nodeID)" using nodeID by (simp add: id_label.valid_iff pki_label.valid_iff)
  obtain ca where ca: "NewCA C (io_MeshID opts) (Some d) (Some n) (sg_Now (ii_CA inp)) (sg_Entropy (ii_CA inp)) = Inr ca"
    "MeshID ca = io_MeshID opts" "ca_wf C ca" "ca_Key ca = PrivKey P256 d"
    "NotBefore (ca_Cert ca) = trunc_sec (sg_Now (ii_CA inp) - backdate)"
    "NotAfter (ca_Cert ca) = trunc_sec (sg_Now (ii_CA inp) + CACertTTL)"
    using NewCA_ok[OF C m g(1)] by metis
  have tca: "time_valid t (ca_Cert ca)" if "init_time inp t" for t
    using ca(5,6) that trunc_sec_bounds[of "sg_Now (ii_CA inp) - backdate"] trunc_sec_bounds[of "sg_Now (ii_CA inp) + CACertTTL"]
    by (simp add: time_valid_def init_time_def go_time)
  have w: "sg_Now (ii_Node inp) - backdate \<le> t \<and> t + Second \<le> sg_Now (ii_Node inp) + DefaultNodeCertTTL"
    "sg_Now (ii_Admin inp) - backdate \<le> t \<and> t + Second \<le> sg_Now (ii_Admin inp) + DefaultAdminCertTTL" if "init_time inp t" for t
    using that by (simp_all add: init_time_def go_time)
  obtain k1 c1 where c1: "issue_new C ca (node_principal opts nodeID) DefaultNodeCertTTL (ii_Node inp) = Inr (k1, c1)" "ParseCertificate C (Raw c1) = Inr c1"
    "\<And>t. init_time inp t \<Longrightarrow> good_leaf C ca (node_principal opts nodeID) k1 t c1"
    using issue_new_ok[OF C ca(3) g(2) _ _ _ _ _ in2, of "node_principal opts nodeID" DefaultNodeCertTTL] ca(2) v w(1) tca
    by (auto simp: role_ok_def go_time)
  obtain k2 c2 where c2: "issue_new C ca (admin_principal opts) DefaultAdminCertTTL (ii_Admin inp) = Inr (k2, c2)" "ParseCertificate C (Raw c2) = Inr c2"
    "\<And>t. init_time inp t \<Longrightarrow> good_leaf C ca (admin_principal opts) k2 t c2"
    using issue_new_ok[OF C ca(3) g(3) _ _ _ _ _ in3, of "admin_principal opts" DefaultAdminCertTTL] ca(2) a w(2) tca
    by (auto simp: role_ok_def go_time)
  have "\<forall>t. init_time inp t \<longrightarrow> time_valid t (ca_Cert ca) \<and> good_leaf C ca (node_principal opts nodeID) k1 t c1 \<and>
       good_leaf C ca (admin_principal opts) k2 t c2" using tca c1(3) c2(3) by blast
  then show thesis by (rule that[rotated 8]) (use ca c1(1,2) c2(1,2) in1 in simp_all)
qed

text \<open>What \<open>init\<close> leaves in the data directory.\<close>

definition initialised :: "crypto \<Rightarrow> init_options \<Rightarrow> string \<Rightarrow> CA \<Rightarrow> privkey \<Rightarrow> certificate \<Rightarrow> privkey \<Rightarrow> certificate \<Rightarrow> time \<Rightarrow> fs \<Rightarrow> bool" where
  "initialised C opts nodeID ca k1 c1 k2 c2 t s \<longleftrightarrow> crypto_ok C \<and> fs_quiet s \<and> is_ok (Validate nodeID) \<and>
     ReadCA C (io_DataDir opts) s = (Inr ca, s) \<and> ReadCert C (io_DataDir opts) NodeCertFile s = (Inr c1, s) \<and>
     MeshID ca = io_MeshID opts \<and> ca_wf C ca \<and> ParseCertificate C (Raw (ca_Cert ca)) = Inr (ca_Cert ca) \<and> time_valid t (ca_Cert ca) \<and>
     stores_id (io_DataDir opts) nodeID s \<and>
     LoadNodeIdentity C (io_DataDir opts) t s = (Inr (mk_identity (node_principal opts nodeID) (ca_Cert ca) c1 k1), s) \<and>
     good_leaf C ca (node_principal opts nodeID) k1 t c1 \<and>
     LoadAdminIdentity C (io_DataDir opts) t s = (Inr (mk_identity (admin_principal opts) (ca_Cert ca) c2 k2), s) \<and>
     good_leaf C ca (admin_principal opts) k2 t c2 \<and>
     (\<forall>n \<in> {CAKeyFile, NodeKeyFile, AdminKeyFile}. \<exists>b. fs_files s (io_DataDir opts, n) = Some (b, perm_0600))"

lemma cmdInit_result:
  assumes r: "init_ready C opts inp s"
  obtains out s' ca k1 c1 k2 c2 where "cmdInit C opts inp s = (Inr out, s')"
    "io_NodeID opts \<noteq> [] \<longrightarrow> out_NodeID out = io_NodeID opts"
    "\<forall>t. init_time inp t \<longrightarrow> initialised C opts (out_NodeID out) ca k1 c1 k2 c2 t s'"
proof -
  define dir where "dir = io_DataDir opts"
  have C: "crypto_ok C" and q: "fs_quiet s" and flag: "io_NodeID opts = [] \<or> is_ok (Validate (io_NodeID opts))"
    and none: "\<forall>n \<in> {nodeIDFile, CACertFile, CAKeyFile, NodeCertFile, NodeKeyFile, AdminCertFile, AdminKeyFile}.
        fs_files s (dir, n) = None"
    using r by (simp_all add: init_ready_def dir_def)
  obtain buf where rnd: "in_Random (ii_Id inp) = Some buf" "length buf = 3" using r by (auto simp: init_ready_def)
  have fresh: "fs_files s (dir, nodeIDFile) = None" using none by simp
  obtain nodeID s1 where id: "resolveNodeID dir (io_NodeID opts) (io_Force opts) (ii_Id inp) s = (Inr nodeID, s1)"
    "keeps {(dir, nodeIDFile)} s s1" "fs_quiet s1" "stores_id dir nodeID s1" "io_NodeID opts \<noteq> [] \<longrightarrow> nodeID = io_NodeID opts"
    by (rule resolveNodeID_fresh[OF q fresh flag rnd])
  have v: "is_ok (Validate nodeID)" using id(4) by (simp add: stores_id_def)
  obtain ca k1 c1 k2 c2 where i:
    "NewCA C (io_MeshID opts) (sg_Key (ii_CA inp)) (sg_Serial (ii_CA inp)) (sg_Now (ii_CA inp)) (sg_Entropy (ii_CA inp)) = Inr ca"
    "MeshID ca = io_MeshID opts" "ca_wf C ca" "key_curve (ca_Key ca) = P256"
    "issue_new C ca (node_principal opts nodeID) DefaultNodeCertTTL (ii_Node inp) = Inr (k1, c1)"
    "issue_new C ca (admin_principal opts) DefaultAdminCertTTL (ii_Admin inp) = Inr (k2, c2)"
    "ParseCertificate C (Raw c1) = Inr c1" "ParseCertificate C (Raw c2) = Inr c2"
    "\<forall>t. init_time inp t \<longrightarrow> time_valid t (ca_Cert ca) \<and> good_leaf C ca (node_principal opts nodeID) k1 t c1 \<and>
       good_leaf C ca (admin_principal opts) k2 t c2"
    by (rule init_issue[OF r v])
  have none1: "\<forall>n \<in> {CACertFile, CAKeyFile, NodeCertFile, NodeKeyFile, AdminCertFile, AdminKeyFile}. fs_files s1 (dir, n) = None"
    using none keeps_file[OF id(2)] pki_names_distinct by (metis distinct_length_2_or_more insert_iff prod.inject singletonD)
  obtain s2 where w: "write_all (init_writes C dir (io_Force opts) ca (k1, c1) (k2, c2)) s1 = (Inr (), s2)" "fs_quiet s2"
    "fs_files s2 (dir, nodeIDFile) = fs_files s1 (dir, nodeIDFile)"
    "ReadCert C dir CACertFile s2 = (Inr (ca_Cert ca), s2)" "ReadKey C dir CAKeyFile s2 = (Inr (ca_Key ca), s2)"
    "ReadCert C dir NodeCertFile s2 = (Inr c1, s2)" "ReadKey C dir NodeKeyFile s2 = (Inr k1, s2)"
    "ReadCert C dir AdminCertFile s2 = (Inr c2, s2)" "ReadKey C dir AdminKeyFile s2 = (Inr k2, s2)"
    "\<forall>n \<in> {CAKeyFile, NodeKeyFile, AdminKeyFile}. \<exists>b. fs_files s2 (dir, n) = Some (b, perm_0600)"
    by (rule init_writes_ok[OF C id(3) none1 NewCA_parse[OF i(1)] i(7,8)])
  have "io_MeshID opts \<noteq> []" using r by (auto simp: init_ready_def validateLabel_def)
  moreover have "os_Stat (dir, CAKeyFile) s = (Inl OsErrNotExist, s)" using q none by (simp add: os_Stat_def os_fault_def)
  ultimately obtain out where out: "cmdInit C opts inp s = (Inr out, s2)" "out_NodeID out = nodeID"
    using id(1) i(1,5,6) w(1) by (auto simp: cmdInit_def io_then_def dir_def)
  have "stores_id dir nodeID s2" using id(4) w(2,3) by (simp add: stores_id_def)
  moreover have "ReadCA C dir s2 = (Inr ca, s2)" by (rule ReadCA_reads[OF C i(3,4) w(4,5)])
  moreover have "LoadNodeIdentity C dir t s2 = (Inr (mk_identity (node_principal opts nodeID) (ca_Cert ca) c1 k1), s2)"
    "LoadAdminIdentity C dir t s2 = (Inr (mk_identity (admin_principal opts) (ca_Cert ca) c2 k2), s2)" if "init_time inp t" for t
    unfolding LoadNodeIdentity_def LoadAdminIdentity_def
    using LoadIdentity_reads[OF w(4,6,7)] LoadIdentity_reads[OF w(4,8,9)] i(9) that by (auto simp: good_leaf_def)
  ultimately have "\<forall>t. init_time inp t \<longrightarrow> initialised C opts nodeID ca k1 c1 k2 c2 t s2"
    unfolding initialised_def using C w(2,6,10) v i(2,3,9) NewCA_parse[OF i(1)] unfolding dir_def by blast
  then show thesis using that out id(5) by blast
qed

text \<open>The times of expiry that \<^verbatim>\<open>init\<close> prints, and what a reader makes of them.\<close>

lemma read_expiry:
  assumes "clock_ok now" "0 \<le> ttl" "ttl \<le> 20 * 365 * 24 * Hour"
  shows "read_RFC3339 (Format_RFC3339 (trunc_sec (now + ttl))) = trunc_sec (now + ttl)"
proof -
  let ?t = "trunc_sec (now + ttl)"
  have "0 \<le> ?t" "?t \<le> max_cert_time"
    using assms trunc_sec_bounds[of "now + ttl"] trunc_sec_nonneg[of "now + ttl"] by (simp_all add: clock_ok_def Hour_def Minute_def Second_def)
  then have "read_RFC3339 (Format_RFC3339 ?t) = ?t div Second * Second"
    by (intro read_Format) (simp_all add: epoch_day_def max_cert_time_def Second_def)
  then show ?thesis by (simp add: trunc_sec_def)
qed

lemma cmdInit_expires:
  assumes r: "init_ready C opts inp s" and i: "cmdInit C opts inp s = (Inr out, s')"
  shows "out_NodeExpires out = trunc_sec (sg_Now (ii_Node inp) + DefaultNodeCertTTL)"
    "out_AdminExpires out = trunc_sec (sg_Now (ii_Admin inp) + DefaultAdminCertTTL)"
proof -
  have C: "crypto_ok C" and m: "is_ok (validateLabel (io_MeshID opts))" and g: "clock_ok (sg_Now (ii_CA inp))"
    "clock_ok (sg_Now (ii_Node inp))" "clock_ok (sg_Now (ii_Admin inp))" "sg_Serial (ii_Node inp) \<noteq> None" "sg_Serial (ii_Admin inp) \<noteq> None"
    using r by (simp_all add: init_ready_def)
  obtain d n where in1: "sg_Key (ii_CA inp) = Some d" "sg_Serial (ii_CA inp) = Some n" using r by (auto simp: init_ready_def)
  obtain ca where ca: "NewCA C (io_MeshID opts) (Some d) (Some n) (sg_Now (ii_CA inp)) (sg_Entropy (ii_CA inp)) = Inr ca" "ca_wf C ca"
    using NewCA_ok[OF C m g(1)] by metis
  obtain p1 p2 k1 c1 k2 c2 where "issue_new C ca p1 DefaultNodeCertTTL (ii_Node inp) = Inr (k1, c1)"
    "issue_new C ca p2 DefaultAdminCertTTL (ii_Admin inp) = Inr (k2, c2)" "out_NodeExpires out = NotAfter c1" "out_AdminExpires out = NotAfter c2"
    using i ca(1) by (auto simp: cmdInit_def in1 io_then_def go_result split: prod.splits sum.splits if_splits)
  then show "out_NodeExpires out = trunc_sec (sg_Now (ii_Node inp) + DefaultNodeCertTTL)"
    "out_AdminExpires out = trunc_sec (sg_Now (ii_Admin inp) + DefaultAdminCertTTL)"
    using issue_new_expires[OF C ca(2)] g by (simp_all add: go_time)
qed

section \<open>What the commands leave alone\<close>

text \<open>From \<open>s\<close> to \<open>t\<close> files were only added: none was changed or removed.\<close>

definition grows :: "fs \<Rightarrow> fs \<Rightarrow> bool" where
  "grows s t \<longleftrightarrow> fs_files s \<subseteq>\<^sub>m fs_files t \<and> fs_fault t = fs_fault s"

lemma grows_refl [intro, simp]: "grows s s"
  by (simp add: grows_def)

lemma grows_trans: "grows s t \<Longrightarrow> grows t u \<Longrightarrow> grows s u"
  by (auto simp: grows_def intro: map_le_trans)

lemma grows_then:
  assumes "grows s (snd (m s))" "\<And>x. grows (snd (m s)) (snd (f x (snd (m s))))"
  shows "grows s (snd (io_then m f s))"
  using assms grows_trans by (fastforce simp: io_then_def split: prod.splits sum.splits)

lemma grows_err: "grows s (snd (m s)) \<Longrightarrow> grows s (snd (io_err w m s))"
  by (cases "m s") (simp add: io_err_def)

lemma grows_keeps:
  assumes "keeps {p} s t" "fs_files s p = None \<or> fs_files t p = fs_files s p"
  shows "grows s t"
proof -
  have "fs_files t q = fs_files s q" if "q \<in> dom (fs_files s)" for q
    using that assms(2) keeps_file[OF assms(1), of q] by (cases "q = p") auto
  then show ?thesis using keeps_fault[OF assms(1)] by (auto simp: grows_def map_le_def)
qed

lemma writeFile_grows: "grows s (snd (writeFile dir name data m False s))"
proof (cases "fs_files s (dir, name)")
  case None
  then show ?thesis using grows_keeps[OF writeFile_keeps] by blast
next
  case (Some f)
  then show ?thesis using writeFile_exists[OF Some, of data m] by (intro grows_keeps[OF writeFile_keeps]) auto
qed

lemma WriteCert_grows: "grows s (snd (WriteCert C dir name c False s))"
  unfolding WriteCert_def by (rule writeFile_grows)

lemma WriteKey_grows: "grows s (snd (WriteKey C dir name k False s))"
  unfolding WriteKey_def by (intro grows_then) (auto intro: writeFile_grows)

lemma write_id_grows: "fs_files s (dir, name) = None \<Longrightarrow> grows s (snd (write_id dir name data s))"
  using grows_keeps[OF write_id_keeps] by blast

lemma LoadOrCreate_grows: "grows s (snd (LoadOrCreate dir rnd host s))"
proof (cases "fs_files s (dir, nodeIDFile)")
  case None
  show ?thesis unfolding LoadOrCreate_missing[OF None]
    by (intro grows_then) (auto simp del: bytes_of_append intro: write_id_grows[OF None])
next
  case (Some f)
  then show ?thesis by (cases f) (auto simp: LoadOrCreate_def os_ReadFile_def os_fault_def Let_def split: option.splits)
qed

lemma identity_Set_grows:
  assumes "fs_fault s OpStat (dir, nodeIDFile) = None"
  shows "grows s (snd (identity_Set dir ident False rnd host s))"
proof -
  have "grows s (snd (case LoadOrCreate dir rnd host s of (ex, u) \<Rightarrow>
      if (case ex of Inr x \<Rightarrow> x | Inl _ \<Rightarrow> []) = ident then (Inr (), u) else (Inl e, u)))" for e :: err
    using LoadOrCreate_grows[of s dir rnd host] by (cases "LoadOrCreate dir rnd host s") (auto split: if_splits)
  moreover have "grows s (snd (write_id dir nodeIDFile d s))" if "fs_files s (dir, nodeIDFile) = None" for d
    by (rule write_id_grows[OF that])
  ultimately show ?thesis unfolding identity_Set_def using assms
    by (intro grows_then) (auto simp: os_Stat_def os_fault_def simp del: bytes_of_append)
qed

lemma resolveNodeID_grows:
  assumes "fs_fault s OpStat (dir, nodeIDFile) = None"
  shows "grows s (snd (resolveNodeID dir flag False inp s))"
  unfolding resolveNodeID_def
  by (intro grows_then LoadOrCreate_grows) (use identity_Set_grows[OF assms] in auto)

lemma write_all_grows: "\<forall>w \<in> set ws. \<forall>s. grows s (snd (snd w s)) \<Longrightarrow> grows s (snd (write_all ws s))"
  by (induction ws arbitrary: s) (auto intro!: grows_then grows_err)

lemma cmdInit_grows:
  assumes "fs_fault s OpStat (io_DataDir opts, nodeIDFile) = None" "\<not> io_Force opts"
  shows "grows s (snd (cmdInit C opts inp s))"
proof -
  have w: "grows s (snd (write_all (init_writes C (io_DataDir opts) False ca node adm) s))" for s ca node adm
    by (rule write_all_grows) (auto simp: init_writes_def intro: WriteCert_grows WriteKey_grows)
  show ?thesis unfolding cmdInit_def using assms
    by (auto simp: os_Stat_def split: option.splits intro!: grows_then w resolveNodeID_grows)
qed

lemma Persist_grows: "grows s (snd (Persist C r dir False s))"
  unfolding Persist_def by (intro grows_then WriteCert_grows WriteKey_grows)

lemma cmdJoin_grows:
  assumes "fs_fault s OpStat (jo_DataDir opts, nodeIDFile) = None" "\<not> jo_Force opts"
  shows "grows s (snd (cmdJoin C opts inp s))"
  unfolding cmdJoin_def using assms
  by (auto simp: os_Stat_def split: option.splits intro!: grows_then Persist_grows resolveNodeID_grows)

text \<open>
  A left-over CA certificate makes \<open>join\<close> fail, but only when the result is stored: the check before the
  pairing looks for a node key only. By then the code has been spent.
\<close>

lemma cmdJoin_leftover:
  assumes stat: "fs_fault s OpStat (jo_DataDir opts, nodeIDFile) = None" and force: "\<not> jo_Force opts"
    and ca: "fs_files s (jo_DataDir opts, CACertFile) = Some f"
  shows "\<not> is_ok (fst (cmdJoin C opts inp s))"
proof -
  let ?dir = "jo_DataDir opts"
  have persist: "\<not> is_ok (fst (Persist C r ?dir False u))" if some: "fs_files u (?dir, CACertFile) = Some f" for r u
  proof -
    obtain e t where "WriteCert C ?dir CACertFile (bd_CACert (jr_Bundle r)) False u = (Inl e, t)"
      using writeFile_exists[OF some] unfolding WriteCert_def by blast
    then show ?thesis by (simp add: Persist_def io_then_def)
  qed
  have "fs_files u (?dir, CACertFile) = Some f" if "resolveNodeID ?dir (jo_NodeID opts) False (ji_Id inp) s = (r, u)" for r u
    using resolveNodeID_grows[OF stat, of "jo_NodeID opts" "ji_Id inp"] ca that unfolding grows_def map_le_def by (metis domI snd_conv)
  moreover have "\<exists>nodeID u res v. resolveNodeID ?dir (jo_NodeID opts) False (ji_Id inp) s = (Inr nodeID, u) \<and>
      Persist C res ?dir False u = (Inr (), v)" if "cmdJoin C opts inp s = (Inr out, t)" for out t
  proof -
    have "(case os_Stat (?dir, NodeKeyFile) s of (r, s1) \<Rightarrow> s1) = s" by (simp add: os_Stat_def split: option.splits)
    then show ?thesis using that force
      unfolding cmdJoin_def io_then_ok by (auto simp: io_then_ok split: prod.splits if_splits)
  qed
  ultimately show ?thesis using persist by (metis is_ok_iff prod.collapse fst_conv)
qed

section \<open>Properties\<close>

text \<open>
  C17. \<^verbatim>\<open>meshctl init\<close> sets up a mesh. In a directory with none of the program's files, on a file
  system without faults, with valid names and working randomness, the command succeeds; the mesh CA
  can be read back and names the mesh; the directory holds a node identity for the node id that was
  chosen, or generated and stored, and an admin identity, both accepted under that CA whenever the
  certificates are in time; the three private keys are readable by the owner only; and the time of
  expiry that is printed for the node certificate, read back, is thirty days after it was issued, to
  the second.
\<close>

theorem cmdInit_ok:
  assumes "init_ready C opts inp s" "init_time inp t"
  shows "\<exists>out s' ca. cmdInit C opts inp s = (Inr out, s') \<and> ReadCA C (io_DataDir opts) s' = (Inr ca, s') \<and>
    MeshID ca = io_MeshID opts \<and> stores_id (io_DataDir opts) (out_NodeID out) s' \<and>
    (io_NodeID opts \<noteq> [] \<longrightarrow> out_NodeID out = io_NodeID opts) \<and>
    (\<exists>i. LoadNodeIdentity C (io_DataDir opts) t s' = (Inr i, s') \<and> id_CACert i = ca_Cert ca \<and>
       id_Principal i = \<lparr>pr_MeshID = io_MeshID opts, pr_Role = RoleNode, pr_Name = out_NodeID out\<rparr>) \<and>
    (\<exists>i. LoadAdminIdentity C (io_DataDir opts) t s' = (Inr i, s') \<and> id_CACert i = ca_Cert ca \<and>
       id_Principal i = \<lparr>pr_MeshID = io_MeshID opts, pr_Role = RoleAdmin, pr_Name = io_AdminName opts\<rparr>) \<and>
    (\<forall>n \<in> {CAKeyFile, NodeKeyFile, AdminKeyFile}. \<exists>b. fs_files s' (io_DataDir opts, n) = Some (b, perm_0600)) \<and>
    read_RFC3339 (drop (length ''  node cert       expires '') (init_lines wide opts out ! 3)) =
      trunc_sec (sg_Now (ii_Node inp) + DefaultNodeCertTTL)"
proof (rule cmdInit_result[OF assms(1)])
  fix out s' ca k1 c1 k2 c2
  assume i: "cmdInit C opts inp s = (Inr out, s')" "io_NodeID opts \<noteq> [] \<longrightarrow> out_NodeID out = io_NodeID opts"
    "\<forall>t. init_time inp t \<longrightarrow> initialised C opts (out_NodeID out) ca k1 c1 k2 c2 t s'"
  moreover have "clock_ok (sg_Now (ii_Node inp))" using assms(1) by (simp add: init_ready_def)
  then have "read_RFC3339 (drop (length ''  node cert       expires '') (init_lines wide opts out ! 3)) =
      trunc_sec (sg_Now (ii_Node inp) + DefaultNodeCertTTL)"
    using cmdInit_expires(1)[OF assms(1) i(1)] read_expiry[of "sg_Now (ii_Node inp)" DefaultNodeCertTTL] by (simp add: init_lines_def go_time)
  ultimately show ?thesis using assms(2) unfolding initialised_def
    by (intro exI[of _ out] exI[of _ s'] exI[of _ ca]) (simp add: mk_identity_def)
qed

definition demo_opts :: init_options where
  "demo_opts = \<lparr>io_DataDir = ''e'', io_MeshID = ''home'', io_AdminName = ''admin'', io_NodeID = [], io_Force = False\<rparr>"

definition demo_sign :: "nat \<Rightarrow> sign_inputs" where
  "demo_sign k = \<lparr>sg_Key = Some k, sg_Serial = Some k, sg_Now = demo_now, sg_Entropy = []\<rparr>"

definition demo_init :: init_inputs where
  "demo_init = \<lparr>ii_Id = \<lparr>in_Random = Some [1, 2, 3], in_Host = [104]\<rparr>, ii_CA = demo_sign 5, ii_Node = demo_sign 7,
     ii_Admin = demo_sign 9\<rparr>"

lemma demo_init_ready: "init_ready demo_crypto demo_opts demo_init demo_fs"
  unfolding init_ready_def demo_opts_def demo_init_def demo_sign_def
  using demo_crypto_ok demo_clock demo_fs_quiet by (simp add: validateLabel_iff label_char_ord) (simp add: demo_fs_def)

lemma demo_init_time: "init_time demo_init demo_now"
  by (simp add: init_time_def demo_init_def demo_sign_def go_time)

theorem cmdInit_ok_witness:
  "\<exists>out s' i. cmdInit demo_crypto demo_opts demo_init demo_fs = (Inr out, s') \<and>
     LoadAdminIdentity demo_crypto ''e'' demo_now s' = (Inr i, s') \<and> pr_Role (id_Principal i) = RoleAdmin"
  using cmdInit_ok[OF demo_init_ready demo_init_time] by (fastforce simp: demo_opts_def)



lemma CreatePairingCode_ok:
  assumes "uint (cpr_TtlSeconds req) \<le> 600"
  obtains code where "GenerateCode (Some n) = Inr code"
    "CreatePairingCode a (Some n) now_exp now_gc ctx req p =
       (Inr \<lparr>cps_Code = code,
             cps_ExpiresAt = time_Add now_exp (if cpr_TtlSeconds req = 0 then DefaultCodeTTL else uint (cpr_TtlSeconds req) * Second),
             cps_PairAddr = ad_pairAddr a\<rparr>,
        snd (Issue p (uint (cpr_TtlSeconds req) * Second) (Some n) now_exp now_gc))"
proof -
  obtain code where "GenerateCode (Some n) = Inr code" by (simp add: GenerateCode_def)
  moreover have "uint (cpr_TtlSeconds req) * Second \<le> 0 \<longleftrightarrow> cpr_TtlSeconds req = 0"
    using uint_ge_0[of "cpr_TtlSeconds req"] by (auto simp: Second_def mult_le_0_iff uint_0_iff)
  ultimately show thesis
    using that[of code] assms by (simp add: CreatePairingCode_def Let_def ttl_no_overflow ttl_too_long Issue_def)
qed

text \<open>
  \<^verbatim>\<open>meshctl pair\<close> prints the lifetime that was asked for, not the one the code has. For
  lifetimes that are not whole seconds the two differ: asked for half a second, the command says one
  second and the coordinator issues a code for its default of a minute; asked for 1.5 seconds, it says
  two seconds and the code lives one.
\<close>

lemma cmdPair_validity:
  "Duration_Round 500000000 Second = Second \<and>
   (\<exists>resp p1. CreatePairingCode a (Some n) now now ctx \<lparr>cpr_TtlSeconds = ttl_seconds conv 500000000\<rparr> p = (Inr resp, p1) \<and>
      cps_ExpiresAt resp = time_Add now (60 * Second)) \<and>
   Duration_Round 1500000000 Second = 2 * Second \<and>
   (\<exists>resp p1. CreatePairingCode a (Some n) now now ctx \<lparr>cpr_TtlSeconds = ttl_seconds conv 1500000000\<rparr> p = (Inr resp, p1) \<and>
      cps_ExpiresAt resp = time_Add now Second)"
proof -
  have t: "ttl_seconds conv 500000000 = 0" "ttl_seconds conv 1500000000 = 1" by (simp_all add: ttl_seconds_def Second_def)
  have "Duration_Round 500000000 Second = Second" "Duration_Round 1500000000 Second = 2 * Second"
    by (simp_all add: Duration_Round_def Second_def max_int64_def)
  moreover have "\<exists>resp p1. CreatePairingCode a (Some n) now now ctx \<lparr>cpr_TtlSeconds = ttl_seconds conv 500000000\<rparr> p = (Inr resp, p1) \<and>
      cps_ExpiresAt resp = time_Add now (60 * Second)"
    by (rule CreatePairingCode_ok[of "\<lparr>cpr_TtlSeconds = 0\<rparr>" n a now now ctx p]) (auto simp: t DefaultCodeTTL_def go_time)
  moreover have "\<exists>resp p1. CreatePairingCode a (Some n) now now ctx \<lparr>cpr_TtlSeconds = ttl_seconds conv 1500000000\<rparr> p = (Inr resp, p1) \<and>
      cps_ExpiresAt resp = time_Add now Second"
    by (rule CreatePairingCode_ok[of "\<lparr>cpr_TtlSeconds = 1\<rparr>" n a now now ctx p]) (auto simp: t)
  ultimately show ?thesis by blast
qed

end
