(* ===== verification/Meshd.thy ===== *)
theory Meshd
  imports Coordinator Mdns Pairing_Client Flag
begin

text \<open>
  \<^verbatim>\<open>cmd/meshd/main.go\<close>: the daemon. The network interfaces, the listeners,
  the clock, the environment variables and the zeroconf library are the record \<open>meshd_env\<close>. \<open>meshd_setup\<close> is the part of \<^verbatim>\<open>run\<close> up to the main loop; from then on the daemon is
  the state machine \<open>daemon_step\<close>, whose inputs are the calls that arrive at its two gRPC servers, the
  rounds of the discovery loop, the events the main loop takes, and the signal that ends it. Logging
  is left out.
\<close>

section \<open>Configuration\<close>

definition meshd_defaultGRPCPort :: int where "meshd_defaultGRPCPort = 7443"
definition meshd_defaultPairPort :: int where "meshd_defaultPairPort = 7444"

record meshd_config =
  cf_dataDir :: string
  cf_grpcPort :: int
  cf_pairPort :: int
  cf_coordinator :: bool
  cf_advertiseHost :: string
  cf_ifaces :: string
  cf_logLevel :: string
  cf_logFormat :: string

text \<open>\<open>env\<close> and \<open>home\<close> as in \<^verbatim>\<open>meshctl\<close>.\<close>

definition meshd_defaultDataDir :: "string \<Rightarrow> string option \<Rightarrow> string" where
  "meshd_defaultDataDir env home =
     (if env \<noteq> [] then env else case home of None \<Rightarrow> ''.lcm'' | Some h \<Rightarrow> if h = ''/'' then ''/.lcm'' else h @ ''/.lcm'')"

text \<open>The flags with their defaults, and the configuration and the version flag after parsing.\<close>

definition meshd_flags :: "string \<Rightarrow> flags" where
  "meshd_flags dd =
     [(''data-dir'', StringVal dd), (''grpc-port'', IntVal meshd_defaultGRPCPort), (''pair-port'', IntVal meshd_defaultPairPort),
      (''coordinator'', BoolVal False), (''advertise-host'', StringVal []), (''ifaces'', StringVal []),
      (''log-level'', StringVal ''info''), (''log-format'', StringVal ''json''), (''version'', BoolVal False)]"

definition parse_meshd :: "string \<Rightarrow> string list \<Rightarrow> err + meshd_config \<times> bool" where
  "parse_meshd dd args =
     (case flag_Parse (meshd_flags dd) args of (r, f) \<Rightarrow>
        let fl = fg_formal f in
        and_then r (\<lambda>_. Inr (\<lparr>cf_dataDir = string_flag fl ''data-dir'', cf_grpcPort = int_flag fl ''grpc-port'',
          cf_pairPort = int_flag fl ''pair-port'', cf_coordinator = bool_flag fl ''coordinator'',
          cf_advertiseHost = string_flag fl ''advertise-host'', cf_ifaces = string_flag fl ''ifaces'',
          cf_logLevel = string_flag fl ''log-level'', cf_logFormat = string_flag fl ''log-format''\<rparr>, bool_flag fl ''version'')))"

section \<open>Logger\<close>

text \<open>
  \<^verbatim>\<open>strings.ToUpper\<close> as far as the comparison with the level names can see it: of the code points
  outside ASCII only U+0131 and U+017F have an ASCII letter as upper case.
\<close>

fun to_upper :: "string \<Rightarrow> string" where
  "to_upper [] = []"
| "to_upper [c] = [if is_lower_char c then char_of (ord_of c - 32) else c]"
| "to_upper (c # d # s) =
     (if c = CHR 0xC4 \<and> d = CHR 0xB1 then CHR ''I'' # to_upper s
      else if c = CHR 0xC5 \<and> d = CHR 0xBF then CHR ''S'' # to_upper s
      else (if is_lower_char c then char_of (ord_of c - 32) else c) # to_upper (d # s))"

datatype log_format = JSONFormat | TextFormat

record logger =
  lg_Level :: int
  lg_Format :: log_format

text \<open>\<^verbatim>\<open>slog.Level.UnmarshalText\<close>: a name with an optional offset.\<close>

definition level_of_name :: "string \<Rightarrow> int option" where
  "level_of_name n =
     (let u = to_upper n
      in if u = ''DEBUG'' then Some (- 4) else if u = ''INFO'' then Some 0
         else if u = ''WARN'' then Some 4 else if u = ''ERROR'' then Some 8 else None)"

definition parse_level :: "string \<Rightarrow> int option" where
  "parse_level s =
     (let name = takeWhile (\<lambda>c. c \<noteq> CHR ''+'' \<and> c \<noteq> CHR ''-'') s; rest = drop (length name) s
      in case (if rest = [] then Some 0 else Atoi rest) of
           None \<Rightarrow> None
         | Some offset \<Rightarrow> map_option (\<lambda>l. wrap64 (l + offset)) (level_of_name name))"

definition newLogger :: "string \<Rightarrow> string \<Rightarrow> err + logger" where
  "newLogger level format =
     (case parse_level level of
        None \<Rightarrow> Inl (Msg ''bad --log-level'')
      | Some l \<Rightarrow>
          if format = ''json'' then Inr \<lparr>lg_Level = l, lg_Format = JSONFormat\<rparr>
          else if format = ''text'' then Inr \<lparr>lg_Level = l, lg_Format = TextFormat\<rparr>
          else Inl (Msg ''bad --log-format''))"

section \<open>Interfaces and addresses\<close>

text \<open>\<^verbatim>\<open>net.InterfaceByName\<close> over the interfaces of the host.\<close>

definition InterfaceByName :: "err + net_iface list \<Rightarrow> string \<Rightarrow> err + net_iface" where
  "InterfaceByName host name =
     (if name = [] then Inl (Msg ''invalid network interface name'')
      else and_then host (\<lambda>ifs. of_option (Msg ''no such network interface'') (find (\<lambda>i. if_Name i = name) ifs)))"

fun ifaces_loop :: "err + net_iface list \<Rightarrow> string list \<Rightarrow> err + net_iface list" where
  "ifaces_loop host [] = Inr []"
| "ifaces_loop host (n # ns) =
     (let name = TrimSpace n
      in if name = [] then ifaces_loop host ns
         else and_then (map_err (Wrap ''--ifaces'') (InterfaceByName host name)) (\<lambda>i.
                and_then (ifaces_loop host ns) (\<lambda>is. Inr (i # is))))"

definition parseIfaces :: "err + net_iface list \<Rightarrow> string \<Rightarrow> err + net_iface list option" where
  "parseIfaces host s =
     (if TrimSpace s = [] then Inr None
      else and_then (ifaces_loop host (Split CHR '','' s)) (\<lambda>out.
        if length out = 0 then Inl (Msg ''--ifaces: no interfaces given'') else Inr (Some out)))"

text \<open>The addresses of an interface are those of its \<^verbatim>\<open>net.IPNet\<close> entries.\<close>

fun lan_loop :: "net_iface list \<Rightarrow> string" where
  "lan_loop [] = ''127.0.0.1''"
| "lan_loop (i # is) =
     (case find (\<lambda>a. To4 a \<noteq> None) (case if_Addrs i of Inl _ \<Rightarrow> [] | Inr as \<Rightarrow> as) of
        Some a \<Rightarrow> ip_String a
      | None \<Rightarrow> lan_loop is)"

definition lanIPv4 :: "err + net_iface list \<Rightarrow> string" where
  "lanIPv4 host = (case DefaultInterfaces host of Inl _ \<Rightarrow> ''127.0.0.1'' | Inr ifs \<Rightarrow> lan_loop ifs)"

lemma lan_loop_plain: "plain_host (lan_loop ifs)"
  by (induction ifs) (auto simp: plain_host_def ip_String_plain[unfolded plain_host_def] split: option.splits)

lemma lanIPv4_plain: "plain_host (lanIPv4 host)"
  using lan_loop_plain by (auto simp: lanIPv4_def plain_host_def split: sum.splits)

lemma lan_loop_no_blank: "CHR '' '' \<notin> set (lan_loop ifs)"
  by (induction ifs) (auto simp: ip_String_no_blank split: option.splits)

lemma lanIPv4_no_blank: "CHR '' '' \<notin> set (lanIPv4 host)"
  using lan_loop_no_blank by (auto simp: lanIPv4_def split: sum.splits)

section \<open>Starting\<close>

record meshd_env =
  me_Now :: time
  me_Host :: "err + net_iface list"
  me_Listen :: "int \<Rightarrow> err option"
  me_Zeroconf :: zeroconf
  me_Env :: string
  me_Home :: "string option"

text \<open>
  The running daemon: what \<^verbatim>\<open>run\<close> holds in its local variables. \<open>dm_Admin\<close> and \<open>dm_Pairing\<close> are
  there for a coordinator only. \<open>dm_Running\<close> ends with the signal.
\<close>

record daemon =
  dm_Log :: logger
  dm_Identity :: mesh_identity
  dm_Server :: grpc_server
  dm_Pairing :: "pairing_server option"
  dm_Admin :: "admin option"
  dm_Mdns :: mdns
  dm_Running :: bool

definition listen :: "meshd_env \<Rightarrow> string \<Rightarrow> int \<Rightarrow> err + unit" where
  "listen env what port = (case me_Listen env port of Some e \<Rightarrow> Inl (Wrap what e) | None \<Rightarrow> Inr ())"

text \<open>The coordinator's part: the pairing server, the admin service and the pairing port.\<close>

definition coordinator_setup ::
  "crypto \<Rightarrow> meshd_config \<Rightarrow> meshd_env \<Rightarrow> mesh_identity \<Rightarrow> (fs, pairing_server \<times> admin) io" where
  "coordinator_setup C cfg env ident =
     io_then (io_err (Wrap ''coordinator needs the mesh CA'') (ReadCA C (cf_dataDir cfg))) (\<lambda>ca.
     io_then (io_of (pairing_NewServer \<lparr>sc_Identity = Some ident, sc_CA = Some ca, sc_GRPCPort = cf_grpcPort cfg, sc_NodeTTL = 0\<rparr>)) (\<lambda>ps.
     io_then (io_of (listen env ''listen pair port'' (cf_pairPort cfg))) (\<lambda>_.
       let host = (if cf_advertiseHost cfg = [] then lanIPv4 (me_Host env) else cf_advertiseHost cfg)
       in io_ret (ps, NewAdmin (JoinHostPort host (Itoa (cf_pairPort cfg)))))))"

definition meshd_mdns_config :: "meshd_config \<Rightarrow> mesh_identity \<Rightarrow> net_iface list option \<Rightarrow> mdns_config" where
  "meshd_mdns_config cfg ident ifs =
     \<lparr>mc_Advertisement =
        \<lparr>ad_NodeID = pr_Name (id_Principal ident), ad_MeshID = id_MeshID ident, ad_GRPCPort = cf_grpcPort cfg,
         ad_PairPort = (if cf_coordinator cfg then cf_pairPort cfg else 0), ad_Fingerprint = id_Fingerprint ident\<rparr>,
      mc_Interfaces = ifs, mc_ExpireAfter = 0, mc_EventBuffer = 0, mc_BrowseOnly = False\<rparr>"

definition meshd_setup :: "crypto \<Rightarrow> meshd_config \<Rightarrow> meshd_env \<Rightarrow> (fs, daemon) io" where
  "meshd_setup C cfg env =
     io_then (io_of (newLogger (cf_logLevel cfg) (cf_logFormat cfg))) (\<lambda>log.
     io_then (io_err (\<lambda>e. if errors_Is e OsErrNotExist then Msg ''no node identity'' else e)
               (LoadNodeIdentity C (cf_dataDir cfg) (me_Now env))) (\<lambda>ident.
     io_then (io_of (parseIfaces (me_Host env) (cf_ifaces cfg))) (\<lambda>ifs.
     io_then (io_of (listen env ''listen grpc port'' (cf_grpcPort cfg))) (\<lambda>_.
     let guard = (if cf_coordinator cfg then [role_check AdminServicePrefix [RoleAdmin]] else []);
         srv = transport_NewServer ident guard guard
     in
     io_then (if cf_coordinator cfg then io_then (coordinator_setup C cfg env ident) (\<lambda>(ps, adm). io_ret (Some ps, Some adm))
              else io_ret (None, None)) (\<lambda>(pairing, adm).
     io_then (io_of (NewMDNS (meshd_mdns_config cfg ident ifs))) (\<lambda>md.
       case mdns_Start (me_Zeroconf env) md of
         (Inl e, _) \<Rightarrow> io_of (Inl e)
       | (Inr _, md1) \<Rightarrow>
           io_ret \<lparr>dm_Log = log, dm_Identity = ident, dm_Server = srv, dm_Pairing = pairing, dm_Admin = adm,
                   dm_Mdns = md1, dm_Running = True\<rparr>))))))"

section \<open>Running\<close>

text \<open>
  What happens to a running daemon: a call of the admin service over a TLS connection on which the
  client showed \<open>certs\<close> at time \<open>t\<close>; the two calls of the pairing service, open to everyone; a browse
  result or a tick of the discovery loop; the main loop taking an event; the signal to stop. Random
  numbers and clock readings come with the input. Calls are taken one after the other (what can
  happen inside two overlapping calls of \<^verbatim>\<open>Complete\<close> is the subject of \<open>Pairer_Concurrent\<close>).
\<close>

datatype daemon_input =
    InCreate "certificate list" time create_request "nat option" time time
  | InBegin begin_request time "bytes option" "bytes option" time
  | InComplete complete_request complete_env
  | InEntry service_entry time
  | InTick time "(string \<times> peer) list \<Rightarrow> (string \<times> peer) list"
  | InTake
  | InSignal

datatype daemon_output =
    OutCreate "err + create_response"
  | OutBegin "err + begin_response"
  | OutComplete "err + complete_response"
  | OutEvent peer_event
  | OutNone

text \<open>A chain of interceptors lets a call through when each of them does.\<close>

fun run_checks :: "interceptor list \<Rightarrow> call_ctx \<Rightarrow> string \<Rightarrow> err + unit" where
  "run_checks [] ctx m = Inr ()"
| "run_checks (i # is) ctx m = and_then (i ctx m) (\<lambda>_. run_checks is ctx m)"

definition admin_call :: "crypto \<Rightarrow> daemon \<Rightarrow> certificate list \<Rightarrow> time \<Rightarrow> err + unit" where
  "admin_call C d certs t =
     and_then (tls_check_client C (gs_TLS (dm_Server d)) certs t) (\<lambda>_.
       run_checks (gs_Unary (dm_Server d)) (Some (TLSInfo certs)) CreatePairingCode_FullMethodName)"

text \<open>The main loop's \<^verbatim>\<open>select\<close> on the event channel: the first waiting event, if there is one.\<close>

definition take_event :: "daemon \<Rightarrow> daemon_output \<times> daemon" where
  "take_event d =
     (case md_events (dm_Mdns d) of
        [] \<Rightarrow> (OutNone, d)
      | ev # evs \<Rightarrow> (OutEvent ev, d\<lparr>dm_Mdns := (dm_Mdns d)\<lparr>md_events := evs\<rparr>\<rparr>))"

definition meshd_shutdown :: "daemon \<Rightarrow> daemon" where
  "meshd_shutdown d = d\<lparr>dm_Mdns := mdns_Stop (dm_Mdns d), dm_Running := False\<rparr>"

definition serve_create ::
  "crypto \<Rightarrow> daemon \<Rightarrow> certificate list \<Rightarrow> time \<Rightarrow> create_request \<Rightarrow> nat option \<Rightarrow> time \<Rightarrow> time \<Rightarrow> daemon_output \<times> daemon" where
  "serve_create C d certs t req n ne ng =
     (case (dm_Pairing d, dm_Admin d) of
        (Some ps, Some a) \<Rightarrow>
          (case admin_call C d certs t of
             Inl e \<Rightarrow> (OutCreate (Inl e), d)
           | Inr _ \<Rightarrow>
               (case CreatePairingCode a n ne ng (Some (TLSInfo certs)) req (server_Pairer ps) of
                  (r, p) \<Rightarrow> (OutCreate r, d\<lparr>dm_Pairing := Some (ps\<lparr>ps_Pairer := p\<rparr>)\<rparr>)))
      | _ \<Rightarrow> (OutCreate (Inl (Msg ''unknown service lcm.v1.AdminService'')), d))"

text \<open>\<^verbatim>\<open>Server.Serve\<close> of the pairing listener: its calls reach the handlers as they are.\<close>

definition serve_begin ::
  "daemon \<Rightarrow> begin_request \<Rightarrow> time \<Rightarrow> bytes option \<Rightarrow> bytes option \<Rightarrow> time \<Rightarrow> daemon_output \<times> daemon" where
  "serve_begin d req ng rid rsalt ne =
     (case dm_Pairing d of
        None \<Rightarrow> (OutNone, d)
      | Some ps \<Rightarrow> (case server_Begin req ng rid rsalt ne ps of (r, ps1) \<Rightarrow> (OutBegin r, d\<lparr>dm_Pairing := Some ps1\<rparr>)))"

definition serve_complete :: "crypto \<Rightarrow> daemon \<Rightarrow> complete_request \<Rightarrow> complete_env \<Rightarrow> daemon_output \<times> daemon" where
  "serve_complete C d req env =
     (case dm_Pairing d of
        None \<Rightarrow> (OutNone, d)
      | Some ps \<Rightarrow> (case server_Complete C req env ps of (r, ps1) \<Rightarrow> (OutComplete r, d\<lparr>dm_Pairing := Some ps1\<rparr>)))"

definition daemon_step :: "crypto \<Rightarrow> daemon_input \<Rightarrow> daemon \<Rightarrow> daemon_output \<times> daemon" where
  "daemon_step C i d =
     (if \<not> dm_Running d then (OutNone, d)
      else case i of
        InCreate certs t req n ne ng \<Rightarrow> serve_create C d certs t req n ne ng
      | InBegin req ng rid rsalt ne \<Rightarrow> serve_begin d req ng rid rsalt ne
      | InComplete req env \<Rightarrow> serve_complete C d req env
      | InEntry e now \<Rightarrow> (OutNone, d\<lparr>dm_Mdns := handleEntry e now (dm_Mdns d)\<rparr>)
      | InTick now order \<Rightarrow> (OutNone, d\<lparr>dm_Mdns := expire order now (dm_Mdns d)\<rparr>)
      | InTake \<Rightarrow> take_event d
      | InSignal \<Rightarrow> (OutNone, meshd_shutdown d))"

section \<open>What starting establishes\<close>

lemma ReadCert_state: "snd (ReadCert C dir n s) = s"
  by (auto simp: ReadCert_def io_then_def os_ReadFile_def os_fault_def split: option.splits sum.splits)

lemma ReadKey_state: "snd (ReadKey C dir n s) = s"
  by (auto simp: ReadKey_def io_then_def os_ReadFile_def os_fault_def split: option.splits sum.splits)

lemma LoadIdentity_state: "snd (LoadIdentity C dir cf kf now s) = s"
  using ReadCert_state[of C dir CACertFile s] ReadCert_state[of C dir cf s] ReadKey_state[of C dir kf s]
  by (auto simp: LoadIdentity_def io_then_def io_err_def split: prod.splits sum.splits)

lemma ReadCA_state: "snd (ReadCA C dir s) = s"
  using ReadCert_state[of C dir CACertFile s] ReadKey_state[of C dir CAKeyFile s]
  by (auto simp: ReadCA_def io_then_def split: prod.splits sum.splits)

lemma LoadNodeIdentity_ok:
  "LoadNodeIdentity C dir now s = (Inr i, t) \<Longrightarrow>
     \<exists>ca c k. NewIdentity C ca c k now = Inr i \<and> ReadCert C dir CACertFile s = (Inr ca, s) \<and> t = s"
  using ReadCert_state[of C dir CACertFile s] ReadCert_state[of C dir NodeCertFile s] ReadKey_state[of C dir NodeKeyFile s]
  by (fastforce simp: LoadNodeIdentity_def LoadIdentity_def io_then_ok io_err_ok)

lemma coordinator_setup_ok:
  assumes "coordinator_setup C cfg env i s = (Inr (ps, a), t)"
  shows "t = s \<and> (\<exists>ca. ReadCA C (cf_dataDir cfg) s = (Inr ca, s) \<and>
    pairing_NewServer \<lparr>sc_Identity = Some i, sc_CA = Some ca, sc_GRPCPort = cf_grpcPort cfg, sc_NodeTTL = 0\<rparr> = Inr ps \<and>
    a = NewAdmin (JoinHostPort (if cf_advertiseHost cfg = [] then lanIPv4 (me_Host env) else cf_advertiseHost cfg)
                   (Itoa (cf_pairPort cfg)))) \<and> me_Listen env (cf_pairPort cfg) = None"
  using assms ReadCA_state[of C "cf_dataDir cfg" s]
  by (auto simp: coordinator_setup_def io_then_ok io_err_ok Let_def listen_def split: option.splits)

lemma started_ok:
  "(case r of (Inl e, _) \<Rightarrow> io_of (Inl e) | (Inr _, md1) \<Rightarrow> io_ret (f md1)) s = (Inr d, t) \<longleftrightarrow>
     (\<exists>u md1. r = (Inr u, md1) \<and> d = f md1 \<and> t = s)"
  by (cases r) (auto split: sum.splits)

lemma meshd_setup_cases:
  assumes "meshd_setup C cfg env s = (Inr d, s')"
  obtains ifs md where "LoadNodeIdentity C (cf_dataDir cfg) (me_Now env) s = (Inr (dm_Identity d), s)" "s' = s"
    "parseIfaces (me_Host env) (cf_ifaces cfg) = Inr ifs"
    "NewMDNS (meshd_mdns_config cfg (dm_Identity d) ifs) = Inr md" "mdns_Start (me_Zeroconf env) md = (Inr (), dm_Mdns d)"
    "let g = (if cf_coordinator cfg then [role_check AdminServicePrefix [RoleAdmin]] else []) in
       dm_Server d = transport_NewServer (dm_Identity d) g g"
    "if cf_coordinator cfg then \<exists>ps a. coordinator_setup C cfg env (dm_Identity d) s = (Inr (ps, a), s) \<and>
         dm_Pairing d = Some ps \<and> dm_Admin d = Some a
     else dm_Pairing d = None \<and> dm_Admin d = None"
    "dm_Running d"
proof -
  let ?g = "if cf_coordinator cfg then [role_check AdminServicePrefix [RoleAdmin]] else []"
  let ?part = "\<lambda>ident. if cf_coordinator cfg then io_then (coordinator_setup C cfg env ident) (\<lambda>(ps, adm). io_ret (Some ps, Some adm))
              else io_ret (None, None)"
  have load: "snd (LoadNodeIdentity C (cf_dataDir cfg) (me_Now env) s) = s" by (simp add: LoadNodeIdentity_def LoadIdentity_state)
  from assms obtain log ident ifs pairing adm t md md1 where
    l: "LoadNodeIdentity C (cf_dataDir cfg) (me_Now env) s = (Inr ident, s)"
    and i: "parseIfaces (me_Host env) (cf_ifaces cfg) = Inr ifs"
    and part: "?part ident s = (Inr (pairing, adm), t)"
    and m: "NewMDNS (meshd_mdns_config cfg ident ifs) = Inr md" "mdns_Start (me_Zeroconf env) md = (Inr (), md1)"
    and d: "d = \<lparr>dm_Log = log, dm_Identity = ident, dm_Server = transport_NewServer ident ?g ?g, dm_Pairing = pairing,
      dm_Admin = adm, dm_Mdns = md1, dm_Running = True\<rparr>" "s' = t"
    using load unfolding meshd_setup_def io_then_ok io_err_ok Let_def
    by (auto simp: io_then_ok io_err_ok started_ok)
  have "t = s \<and> (if cf_coordinator cfg then \<exists>ps a. coordinator_setup C cfg env ident s = (Inr (ps, a), s) \<and>
      pairing = Some ps \<and> adm = Some a else pairing = None \<and> adm = None)"
    using part coordinator_setup_ok by (cases "cf_coordinator cfg") (auto simp: io_then_ok)
  then show thesis using l i m d by (intro that) (auto simp: Let_def)
qed

lemma NewMDNS_ok:
  assumes "NewMDNS cfg = Inr m"
  shows "mc_Advertisement (md_cfg m) = mc_Advertisement cfg" "mc_BrowseOnly (md_cfg m) = mc_BrowseOnly cfg"
    "mc_EventBuffer (md_cfg m) = (if mc_EventBuffer cfg \<le> 0 then 64 else mc_EventBuffer cfg)"
    "ad_NodeID (mc_Advertisement cfg) \<noteq> []" "ad_MeshID (mc_Advertisement cfg) \<noteq> []"
    "1 \<le> ad_GRPCPort (mc_Advertisement cfg)" "ad_GRPCPort (mc_Advertisement cfg) \<le> 65535"
    "mc_BrowseOnly cfg \<or> ad_MeshID (mc_Advertisement cfg) \<noteq> AnyMesh"
  using assms by (auto simp: NewMDNS_def Let_def split: if_splits)

lemma mdns_Start_ok:
  assumes "mdns_Start zc m = (Inr u, m1)"
  shows "md_cfg m1 = md_cfg m" "md_peers m1 = md_peers m" "md_events m1 = md_events m" "md_cancel m1"
    "\<not> mc_BrowseOnly (md_cfg m) \<Longrightarrow> md_server m1 = Some (TXT (mc_Advertisement (md_cfg m)))"
  using assms by (auto simp: mdns_Start_def Let_def split: sum.splits if_splits option.splits)

text \<open>What \<^verbatim>\<open>net.Listen\<close> documents: a port above 65535 cannot be listened on.\<close>

definition listen_ok :: "meshd_env \<Rightarrow> bool" where
  "listen_ok env \<longleftrightarrow> (\<forall>p. 65535 < p \<longrightarrow> me_Listen env p \<noteq> None)"

lemma meshd_advert:
  assumes up: "meshd_setup C cfg env s = (Inr d, s')" and lis: "listen_ok env"
  shows "\<exists>txt p. md_server (dm_Mdns d) = Some txt \<and> ParseTXT txt = Inr p \<and>
    pe_NodeID p = pr_Name (id_Principal (dm_Identity d)) \<and> pe_MeshID p = id_MeshID (dm_Identity d) \<and>
    pe_Fingerprint p = Fingerprint (id_Cert (dm_Identity d)) \<and> pe_GRPCPort p = cf_grpcPort cfg \<and>
    (IsCoordinator p \<longleftrightarrow> cf_coordinator cfg \<and> 0 < cf_pairPort cfg) \<and> (IsCoordinator p \<longrightarrow> pe_PairPort p = cf_pairPort cfg)"
proof (rule meshd_setup_cases[OF up])
  fix ifs md
  let ?cfg = "meshd_mdns_config cfg (dm_Identity d) ifs"
  let ?ad = "mc_Advertisement ?cfg"
  assume md: "NewMDNS ?cfg = Inr md" and start: "mdns_Start (me_Zeroconf env) md = (Inr (), dm_Mdns d)"
    and c: "if cf_coordinator cfg then \<exists>ps a. coordinator_setup C cfg env (dm_Identity d) s = (Inr (ps, a), s) \<and>
         dm_Pairing d = Some ps \<and> dm_Admin d = Some a else dm_Pairing d = None \<and> dm_Admin d = None"
  have "cf_coordinator cfg \<Longrightarrow> me_Listen env (cf_pairPort cfg) = None" using c coordinator_setup_ok by fastforce
  then have port: "cf_coordinator cfg \<Longrightarrow> cf_pairPort cfg \<le> 65535" using lis unfolding listen_ok_def by (meson not_le)
  have adv: "md_server (dm_Mdns d) = Some (TXT ?ad)"
    using mdns_Start_ok(5)[OF start] NewMDNS_ok(1,2)[OF md] by (simp add: meshd_mdns_config_def)
  have b: "min_int64 \<le> ad_GRPCPort ?ad" "ad_GRPCPort ?ad \<le> max_int64" "ad_PairPort ?ad \<le> max_int64"
    using NewMDNS_ok(6,7)[OF md] port by (auto simp: meshd_mdns_config_def min_int64_def max_int64_def)
  have parsed: "ParseTXT (TXT ?ad) = Inr \<lparr>pe_NodeID = ad_NodeID ?ad, pe_MeshID = ad_MeshID ?ad, pe_Fingerprint = ad_Fingerprint ?ad,
      pe_Hostname = [], pe_Addrs = [], pe_GRPCPort = ad_GRPCPort ?ad, pe_PairPort = max 0 (ad_PairPort ?ad), pe_LastSeen = 0\<rparr>"
    using ParseTXT_TXT_result[OF b] NewMDNS_ok(4-7)[OF md] port by (auto simp: meshd_mdns_config_def)
  show ?thesis
    unfolding adv using parsed by (auto simp: meshd_mdns_config_def IsCoordinator_def id_Fingerprint_def max_def)
qed

section \<open>Frames and the invariant of a running daemon\<close>

lemma handleEntry_cfg [simp]: "md_cfg (handleEntry e now m) = md_cfg m"
  by (cases rule: handleEntry_cases[of e now m]) (auto simp: emits_sel)

lemma expire_cfg [simp]: "md_cfg (expire order now m) = md_cfg m"
  by (simp add: expire_def Let_def emits_sel)

lemma mdns_Stop_sel [simp]: "md_cfg (mdns_Stop m) = md_cfg m" "md_peers (mdns_Stop m) = md_peers m"
  "md_events (mdns_Stop m) = md_events m" "\<not> md_cancel (mdns_Stop m)" "md_server (mdns_Stop m) = None"
  by (simp_all add: mdns_Stop_def Let_def)

lemma CreatePairingCode_state:
  "CreatePairingCode a n ne ng ctx req p = (r, p') \<Longrightarrow> p' = p \<or> (\<exists>ttl r'. Issue p ttl n ne ng = (r', p'))"
  by (auto simp: CreatePairingCode_def Let_def split: if_splits prod.splits sum.splits)

lemma server_Begin_state:
  "server_Begin req ng rid rsalt ne ps = (r, ps') \<Longrightarrow>
     \<exists>r' p. Begin (ps_Pairer ps) ng rid rsalt ne = (r', p) \<and> ps' = ps\<lparr>ps_Pairer := p\<rparr>"
  by (auto simp: server_Begin_def split: prod.splits sum.splits)

lemma server_Complete_state:
  "server_Complete C req env ps = (r, ps') \<Longrightarrow>
     \<exists>r' p. Complete C (ps_Pairer ps) (crq_SessionId req) (crq_CsrDer req) (crq_ClientMac req) env = (r', p) \<and>
       ps' = ps\<lparr>ps_Pairer := p\<rparr> \<and> (is_ok r \<longleftrightarrow> is_ok r')"
  by (auto simp: server_Complete_def split: prod.splits sum.splits)

text \<open>The pairer behind a daemon changes in one of these ways; nothing else about the server does.\<close>

inductive served :: "crypto \<Rightarrow> pairer \<Rightarrow> daemon_input \<Rightarrow> pairer \<Rightarrow> bool" for C where
  sv_same: "served C p i p"
| sv_issue: "Issue p ttl n ne ng = (r, p') \<Longrightarrow> served C p (InCreate certs t req n ne ng) p'"
| sv_begin: "Begin p ng rid rsalt ne = (r, p') \<Longrightarrow> served C p (InBegin req ng rid rsalt ne) p'"
| sv_complete: "Complete C p (crq_SessionId req) (crq_CsrDer req) (crq_ClientMac req) env = (r, p') \<Longrightarrow>
    served C p (InComplete req env) p'"

lemma daemon_step_frame:
  assumes "daemon_step C i d = (out, d')"
  shows "dm_Identity d' = dm_Identity d \<and> dm_Server d' = dm_Server d \<and> md_cfg (dm_Mdns d') = md_cfg (dm_Mdns d) \<and>
    (dm_Pairing d = None \<longrightarrow> dm_Pairing d' = None) \<and>
    (\<forall>ps. dm_Pairing d = Some ps \<longrightarrow> (\<exists>p. dm_Pairing d' = Some (ps\<lparr>ps_Pairer := p\<rparr>) \<and> served C (ps_Pairer ps) i p))"
proof -
  have same: "\<exists>p. ps = ps\<lparr>ps_Pairer := p\<rparr> \<and> served C (ps_Pairer ps) i p" for ps :: pairing_server and i
    by (rule exI[of _ "ps_Pairer ps"]) (simp add: served.sv_same)
  show ?thesis
  proof (cases "dm_Running d")
    case False
    then show ?thesis using assms same by (auto simp: daemon_step_def)
  next
    case True
    show ?thesis
    proof (cases i)
      case (InCreate certs t req n ne ng)
      then have "serve_create C d certs t req n ne ng = (out, d')" using assms True by (simp add: daemon_step_def)
      moreover have "\<exists>q. ps\<lparr>ps_Pairer := p\<rparr> = ps\<lparr>ps_Pairer := q\<rparr> \<and> served C (ps_Pairer ps) i q"
        if "CreatePairingCode a n ne ng ctx req (ps_Pairer ps) = (r, p)" for a ctx ps r p
        using CreatePairingCode_state[OF that] served.sv_issue served.sv_same InCreate by blast
      ultimately show ?thesis unfolding serve_create_def server_Pairer_def using same
        by (auto split: option.splits sum.splits prod.splits)
    next
      case (InBegin req ng rid rsalt ne)
      then have "serve_begin d req ng rid rsalt ne = (out, d')" using assms True by (simp add: daemon_step_def)
      then show ?thesis unfolding serve_begin_def InBegin
        by (auto split: option.splits prod.splits dest!: server_Begin_state intro: served.sv_begin)
    next
      case (InComplete req env)
      then have "serve_complete C d req env = (out, d')" using assms True by (simp add: daemon_step_def)
      then show ?thesis unfolding serve_complete_def InComplete
        by (auto split: option.splits prod.splits dest!: server_Complete_state intro: served.sv_complete)
    qed (use assms True same in \<open>auto simp: daemon_step_def take_event_def meshd_shutdown_def split: list.splits\<close>)
  qed
qed

text \<open>The random numbers that an input brings have the size the program asks for.\<close>

definition input_ok :: "daemon_input \<Rightarrow> bool" where
  "input_ok i =
     (case i of
        InCreate certs t req (Some k) ne ng \<Rightarrow> k < codeSpace
      | InBegin req ng rid rsalt ne \<Rightarrow>
          (case rid of None \<Rightarrow> True | Some x \<Rightarrow> length x = SessionIDLen) \<and> (case rsalt of None \<Rightarrow> True | Some x \<Rightarrow> length x = SaltLen)
      | _ \<Rightarrow> True)"

lemma served_inv:
  assumes "served C p i p'" "pairer_inv p" "input_ok i"
  shows "pairer_inv p' \<and> pa_ca p' = pa_ca p"
  using assms
proof (cases rule: served.cases)
  case (sv_issue ttl n ne ng r certs t req)
  then have "\<forall>k. n = Some k \<longrightarrow> k < codeSpace" using assms(3) by (auto simp: input_ok_def)
  moreover have "pa_ca p' = pa_ca p" using sv_issue(2) by (cases rule: Issue_cases) auto
  ultimately show ?thesis using sv_issue(2) assms(2) Issue_inv[of p n ttl ne ng r p'] by simp
next
  case (sv_begin ng rid rsalt ne r req)
  then have "\<forall>x. rid = Some x \<longrightarrow> length x = SessionIDLen" "\<forall>x. rsalt = Some x \<longrightarrow> length x = SaltLen"
    using assms(3) by (auto simp: input_ok_def)
  moreover have "pa_ca p' = pa_ca p" using sv_begin(2) by (cases rule: Begin_cases) (auto simp: begin_state_def)
  ultimately show ?thesis using sv_begin(2) assms(2) Begin_inv[of p rid rsalt ng ne r p'] by simp
next
  case (sv_complete req env r)
  obtain q where q: "complete_claim C p (crq_SessionId req) (crq_CsrDer req) (crq_ClientMac req) env = (q, p')"
    using sv_complete(2) Complete_state[of C p "crq_SessionId req" "crq_CsrDer req" "crq_ClientMac req" env]
    by (metis prod.collapse snd_conv)
  then show ?thesis using complete_claim_inv[OF assms(2) q] complete_claim_state[OF q] by simp
qed simp

text \<open>What every step of a daemon with the identity \<open>i\<close> keeps.\<close>

definition daemon_inv :: "mesh_identity \<Rightarrow> daemon \<Rightarrow> bool" where
  "daemon_inv i d \<longleftrightarrow> dm_Identity d = i \<and> mdns_inv (dm_Mdns d) \<and> mc_EventBuffer (md_cfg (dm_Mdns d)) = 64 \<and>
     (let ad = mc_Advertisement (md_cfg (dm_Mdns d)) in
        ad_NodeID ad = pr_Name (id_Principal i) \<and> ad_MeshID ad = id_MeshID i \<and> id_MeshID i \<noteq> AnyMesh) \<and>
     (\<forall>ps. dm_Pairing d = Some ps \<longrightarrow> pairer_inv (ps_Pairer ps) \<and> pa_ca (ps_Pairer ps) = ps_CA ps \<and>
        ps_Identity ps = i \<and> MeshID (ps_CA ps) = id_MeshID i)"

lemma serve_mdns [simp]:
  "dm_Mdns (snd (serve_create C d certs t req n ne ng)) = dm_Mdns d"
  "dm_Mdns (snd (serve_begin d breq ng rid rsalt ne)) = dm_Mdns d"
  "dm_Mdns (snd (serve_complete C d creq env)) = dm_Mdns d"
  by (simp_all add: serve_create_def serve_begin_def serve_complete_def split: option.split sum.split prod.split)

lemma take_event_mdns: "mdns_inv (dm_Mdns d) \<Longrightarrow> mdns_inv (dm_Mdns (snd (take_event d)))"
  by (cases "md_events (dm_Mdns d)") (simp_all add: take_event_def mdns_inv_def)

lemma daemon_step_mdns:
  assumes "daemon_step C i d = (out, d')" "mdns_inv (dm_Mdns d)"
  shows "mdns_inv (dm_Mdns d')"
proof -
  have "d' = snd (daemon_step C i d)" using assms(1) by simp
  moreover have "mdns_inv (mdns_Stop (dm_Mdns d))" using assms(2) by (simp add: mdns_inv_def)
  ultimately show ?thesis using assms(2)
    by (cases i) (simp_all add: daemon_step_def handleEntry_inv expire_inv take_event_mdns meshd_shutdown_def)
qed

lemma daemon_step_inv:
  assumes "daemon_step C i d = (out, d')" "daemon_inv ident d" "input_ok i"
  shows "daemon_inv ident d'"
proof -
  note f = daemon_step_frame[OF assms(1)]
  have "pairer_inv (ps_Pairer ps') \<and> pa_ca (ps_Pairer ps') = ps_CA ps' \<and> ps_Identity ps' = ident \<and>
      MeshID (ps_CA ps') = id_MeshID ident" if some: "dm_Pairing d' = Some ps'" for ps'
  proof -
    obtain ps where ps: "dm_Pairing d = Some ps" using f some by (cases "dm_Pairing d") auto
    with f some obtain p where "ps' = ps\<lparr>ps_Pairer := p\<rparr>" "served C (ps_Pairer ps) i p" by auto
    then show ?thesis using assms(2,3) ps served_inv[of C "ps_Pairer ps" i p] by (auto simp: daemon_inv_def)
  qed
  moreover have "mdns_inv (dm_Mdns d')" using daemon_step_mdns[OF assms(1)] assms(2) by (simp add: daemon_inv_def)
  moreover have "dm_Identity d' = dm_Identity d" "md_cfg (dm_Mdns d') = md_cfg (dm_Mdns d)" using f by simp_all
  ultimately show ?thesis using assms(2) by (simp add: daemon_inv_def Let_def)
qed

lemma meshd_setup_inv:
  assumes "meshd_setup C cfg env s = (Inr d, s')"
  shows "daemon_inv (dm_Identity d) d"
proof (rule meshd_setup_cases[OF assms])
  fix ifs md
  assume md: "NewMDNS (meshd_mdns_config cfg (dm_Identity d) ifs) = Inr md"
    and start: "mdns_Start (me_Zeroconf env) md = (Inr (), dm_Mdns d)"
    and c: "if cf_coordinator cfg then \<exists>ps a. coordinator_setup C cfg env (dm_Identity d) s = (Inr (ps, a), s) \<and>
         dm_Pairing d = Some ps \<and> dm_Admin d = Some a else dm_Pairing d = None \<and> dm_Admin d = None"
  have "mdns_inv (dm_Mdns d)" using NewMDNS_inv[OF md] mdns_Start_ok(1-3)[OF start] by (simp add: mdns_inv_def)
  moreover have "pairer_inv (ps_Pairer ps) \<and> pa_ca (ps_Pairer ps) = ps_CA ps \<and> ps_Identity ps = dm_Identity d \<and>
      MeshID (ps_CA ps) = id_MeshID (dm_Identity d)" if "dm_Pairing d = Some ps" for ps
  proof -
    have "\<exists>ca. pairing_NewServer \<lparr>sc_Identity = Some (dm_Identity d), sc_CA = Some ca, sc_GRPCPort = cf_grpcPort cfg, sc_NodeTTL = 0\<rparr> = Inr ps"
      using c that coordinator_setup_ok by (fastforce split: if_splits)
    then show ?thesis using pairing_NewServer_ok unfolding pairer_wf_def by fastforce
  qed
  ultimately show ?thesis
    using mdns_Start_ok(1)[OF start] NewMDNS_ok(1,3,8)[OF md] by (simp add: daemon_inv_def meshd_mdns_config_def Let_def)
qed

section \<open>Certificates are paid for\<close>

lemma zip_count:
  "length xs = length ys \<Longrightarrow> length (filter (\<lambda>e. P (fst e)) (zip xs ys)) = length (filter P xs) \<and>
     length (filter (\<lambda>e. Q (snd e)) (zip xs ys)) = length (filter Q ys)"
  by (induction xs ys rule: list_induct2) auto

text \<open>A call of the admin service by a certificate that verifies as an administrator of the mesh.\<close>

definition by_admin :: "crypto \<Rightarrow> mesh_identity \<Rightarrow> daemon_input \<Rightarrow> bool" where
  "by_admin C i inp =
     (case inp of
        InCreate (leaf # _) t _ _ _ _ \<Rightarrow>
          (case VerifyAgainst C (id_CACert i) leaf t of Inl _ \<Rightarrow> False | Inr p \<Rightarrow> pr_Role p = RoleAdmin \<and> pr_MeshID p = id_MeshID i)
      | _ \<Rightarrow> False)"

definition is_paired :: "daemon_output \<Rightarrow> bool" where
  "is_paired out = (case out of OutComplete r \<Rightarrow> is_ok r | _ \<Rightarrow> False)"

definition active_codes :: "daemon \<Rightarrow> nat" where
  "active_codes d = (case dm_Pairing d of None \<Rightarrow> 0 | Some ps \<Rightarrow> length (pa_codes (ps_Pairer ps)))"

text \<open>A daemon whose admin service is guarded, as \<open>meshd_setup\<close> leaves it.\<close>

definition daemon_guarded :: "crypto \<Rightarrow> mesh_identity \<Rightarrow> daemon \<Rightarrow> bool" where
  "daemon_guarded C i d \<longleftrightarrow> dm_Identity d = i \<and> (\<exists>ca c k now. NewIdentity C ca c k now = Inr i) \<and>
     (dm_Pairing d \<noteq> None \<longrightarrow> dm_Server d = transport_NewServer i [role_check AdminServicePrefix [RoleAdmin]]
        [role_check AdminServicePrefix [RoleAdmin]])"

lemma admin_call_by_admin:
  assumes "daemon_guarded C i d" "dm_Pairing d \<noteq> None" "admin_call C d certs t = Inr ()"
  shows "by_admin C i (InCreate certs t req n ne ng)"
proof -
  obtain ca c k now where i: "NewIdentity C ca c k now = Inr i" using assms(1) by (auto simp: daemon_guarded_def)
  have srv: "gs_TLS (dm_Server d) = ServerTLS i" "gs_Unary (dm_Server d) = [role_check AdminServicePrefix [RoleAdmin]]"
    using assms(1,2) by (auto simp: daemon_guarded_def transport_NewServer_def)
  have "tls_check_client C (ServerTLS i) certs t = Inr ()"
    and role: "role_check AdminServicePrefix [RoleAdmin] (Some (TLSInfo certs)) CreatePairingCode_FullMethodName = Inr ()"
    using assms(3) by (auto simp: admin_call_def srv go_result)
  then obtain leaf rest p where leaf: "certs = leaf # rest" "VerifyAgainst C ca leaf t = Inr p"
    using tls_check_client_iff[OF i] by blast
  have ca: "id_CACert i = ca" using i by (auto simp: NewIdentity_Inr mk_identity_def)
  have "PeerPrincipal (Some (TLSInfo certs)) = Some p"
    using pki_verify.verify_principal[OF leaf(2)] leaf(1) by (simp add: PeerPrincipal_def)
  then have "pr_Role p = RoleAdmin"
    using role_checked.check_guarded[of AdminServicePrefix CreatePairingCode_FullMethodName "[RoleAdmin]" "Some (TLSInfo certs)"] role
    by (simp add: AdminServicePrefix_def CreatePairingCode_FullMethodName_def)
  moreover have "pr_MeshID p = id_MeshID i"
    using pki_verify.verify_mesh[OF leaf(2)] identity_pool(3)[OF i] by simp
  ultimately show ?thesis using leaf ca by (simp add: by_admin_def)
qed

lemma Issue_codes: "Issue p ttl n ne ng = (r, p') \<Longrightarrow> length (pa_codes p') \<le> Suc (length (pa_codes p))"
proof (erule Issue_cases, goal_cases)
  case (2 k i)
  then have "length (pa_codes p') \<le> Suc (length (pa_codes (gcLocked ng p)))" by (simp add: length_update_le del: gcLocked_sel)
  moreover have "length (pa_codes (gcLocked ng p)) \<le> length (pa_codes p)" by simp
  ultimately show ?case by linarith
qed simp

lemma Begin_codes: "Begin p ng rid rsalt ne = (r, p') \<Longrightarrow> length (pa_codes p') \<le> length (pa_codes p)"
  by (erule Begin_cases) (simp_all add: begin_state_def)

lemma Complete_codes:
  assumes "Complete C p sid csr mac env = (r, p')"
  shows "(if is_ok r then 1 else 0) + length (pa_codes p') \<le> length (pa_codes p)"
proof -
  let ?g = "gcLocked (ce_now_gc env) p"
  obtain q where q: "complete_claim C p sid csr mac env = (q, p')"
    using assms Complete_state[of C p sid csr mac env] by (metis prod.collapse snd_conv)
  note st = complete_claim_state[OF q]
  have g: "length (pa_codes ?g) \<le> length (pa_codes p)" by simp
  show ?thesis
  proof (cases q)
    case (Inl e)
    then have "r = Inl e" using assms q by (simp add: Complete_def)
    then show ?thesis using st Inl by (simp del: gcLocked_sel) (use g in simp)
  next
    case (Inr x)
    obtain s c k where x: "x = (s, c, k)" by (cases x) auto
    obtain r1 p1 where l1: "complete_lock1 p sid (ce_order env) (ce_now_gc env) = (r1, p1)" by fastforce
    have "map_of (pa_codes p1) c \<noteq> None"
      using q l1 Inr x by (auto simp: complete_claim_def complete_lock2_def Let_def split: sum.splits prod.splits if_splits)
    then have "length (AList.delete c (pa_codes ?g)) < length (pa_codes ?g)"
      using lock1_inv_state(1)[OF l1] delete_length_less[of "pa_codes ?g" c] by (auto simp del: gcLocked_sel)
    then show ?thesis using st Inr x g by (simp del: gcLocked_sel)
  qed
qed

lemma serve_not_paired [simp]:
  "\<not> is_paired (fst (serve_create C d certs t req n ne ng))"
  "\<not> is_paired (fst (serve_begin d breq ng rid rsalt ne))"
  "\<not> is_paired (fst (take_event d))"
  "dm_Pairing d = None \<Longrightarrow> \<not> is_paired (fst (serve_complete C d creq env))"
  by (simp_all add: serve_create_def serve_begin_def take_event_def serve_complete_def is_paired_def
      split: option.split sum.split prod.split list.split)

lemma paired_needs_pairer:
  assumes "daemon_step C i d = (out, d')" "dm_Pairing d = None"
  shows "\<not> is_paired out"
proof -
  have "out = fst (daemon_step C i d)" using assms(1) by simp
  moreover have "\<not> is_paired OutNone" by (simp add: is_paired_def)
  ultimately show ?thesis using assms(2) by (cases i) (simp_all add: daemon_step_def)
qed

lemma create_meter:
  assumes sc: "serve_create C d certs t req n ne ng = (out, d')" and guarded: "daemon_guarded C ident d"
    and ps: "dm_Pairing d = Some ps" and p: "dm_Pairing d' = Some (ps\<lparr>ps_Pairer := p\<rparr>)"
    and served: "served C (ps_Pairer ps) (InCreate certs t req n ne ng) p"
  shows "(if is_paired out then 1 else 0) + active_codes d' \<le>
    active_codes d + (if by_admin C ident (InCreate certs t req n ne ng) then 1 else 0)"
proof -
  have np: "\<not> is_paired out" using sc serve_not_paired(1) by (metis fst_conv)
  show ?thesis
  proof (cases "admin_call C d certs t")
    case (Inl e)
    then have "d' = d" using sc ps by (auto simp: serve_create_def split: option.splits)
    then show ?thesis using np by simp
  next
    case (Inr u)
    then have "by_admin C ident (InCreate certs t req n ne ng)" using admin_call_by_admin[OF guarded] ps by simp
    moreover have "length (pa_codes p) \<le> Suc (length (pa_codes (ps_Pairer ps)))"
      using served Issue_codes by (cases rule: served.cases) auto
    ultimately show ?thesis using np ps p by (simp add: active_codes_def)
  qed
qed

lemma daemon_step_meter:
  assumes step: "daemon_step C i d = (out, d')" and guarded: "daemon_guarded C ident d"
  shows "(if is_paired out then 1 else 0) + active_codes d' \<le> active_codes d + (if by_admin C ident i then 1 else 0)"
proof (cases "\<exists>ps. dm_Pairing d = Some ps \<and> dm_Running d")
  case False
  show ?thesis
  proof (cases "dm_Running d")
    case True
    then have "dm_Pairing d = None" using False by (cases "dm_Pairing d") auto
    then show ?thesis using daemon_step_frame[OF step] paired_needs_pairer[OF step] by (simp add: active_codes_def)
  qed (use step in \<open>simp add: daemon_step_def is_paired_def\<close>)
next
  case True
  then obtain ps where ps: "dm_Pairing d = Some ps" and run: "dm_Running d" by blast
  obtain p where p: "dm_Pairing d' = Some (ps\<lparr>ps_Pairer := p\<rparr>)" and served: "served C (ps_Pairer ps) i p"
    using daemon_step_frame[OF step] ps by blast
  show ?thesis
  proof (cases i)
    case (InCreate certs t req n ne ng)
    then show ?thesis using create_meter[OF _ guarded ps p] served step run by (simp add: daemon_step_def)
  next
    case (InBegin req ng rid rsalt ne)
    have "serve_begin d req ng rid rsalt ne = (out, d')" using step run InBegin by (simp add: daemon_step_def)
    then show ?thesis using ps
      by (auto simp: serve_begin_def is_paired_def active_codes_def split: prod.splits dest!: server_Begin_state Begin_codes)
  next
    case (InComplete req env)
    have "serve_complete C d req env = (out, d')" using step run InComplete by (simp add: daemon_step_def)
    then show ?thesis using ps
      by (auto simp: serve_complete_def is_paired_def active_codes_def split: prod.splits dest!: server_Complete_state Complete_codes)
  qed (use step run ps in \<open>auto simp: daemon_step_def active_codes_def is_paired_def take_event_def meshd_shutdown_def split: list.splits\<close>)
qed

section \<open>Starting succeeds\<close>

text \<open>A host on which nothing stands in the way of a daemon with these options.\<close>

definition host_ready :: "meshd_config \<Rightarrow> meshd_env \<Rightarrow> bool" where
  "host_ready cfg env \<longleftrightarrow>
     is_ok (newLogger (cf_logLevel cfg) (cf_logFormat cfg)) \<and> is_ok (parseIfaces (me_Host env) (cf_ifaces cfg)) \<and>
     (\<exists>i ifs. DefaultInterfaces (zc_Interfaces (me_Zeroconf env)) = Inr (i # ifs)) \<and>
     1 \<le> cf_grpcPort cfg \<and> cf_grpcPort cfg \<le> 65535 \<and> me_Listen env (cf_grpcPort cfg) = None \<and>
     (cf_coordinator cfg \<longrightarrow> me_Listen env (cf_pairPort cfg) = None) \<and>
     (\<forall>n ty dom port ts ifs. zc_Register (me_Zeroconf env) n ty dom port ts ifs = None) \<and>
     (\<forall>ifs. zc_NewResolver (me_Zeroconf env) ifs = None) \<and> (\<forall>ty dom. zc_Browse (me_Zeroconf env) ty dom = None)"

lemma mdns_starts:
  assumes h: "host_ready cfg env" and p: "parseIfaces (me_Host env) (cf_ifaces cfg) = Inr ifs"
    and n: "pr_Name (id_Principal i) \<noteq> []" "id_MeshID i \<noteq> []" "id_MeshID i \<noteq> AnyMesh"
  obtains md md1 where "NewMDNS (meshd_mdns_config cfg i ifs) = Inr md" "mdns_Start (me_Zeroconf env) md = (Inr (), md1)"
proof -
  obtain md where md: "NewMDNS (meshd_mdns_config cfg i ifs) = Inr md" "mc_Interfaces (md_cfg md) = ifs" "\<not> mc_BrowseOnly (md_cfg md)"
    using h n by (simp add: NewMDNS_def meshd_mdns_config_def host_ready_def Let_def)
  obtain j js where d: "DefaultInterfaces (zc_Interfaces (me_Zeroconf env)) = Inr (j # js)" using h by (auto simp: host_ready_def)
  have "ifs \<noteq> Some []" using p by (auto simp: parseIfaces_def go_result split: if_splits)
  then have "\<exists>md1. mdns_Start (me_Zeroconf env) md = (Inr (), md1)"
    using h md(2,3) d by (cases ifs) (simp_all add: mdns_Start_def Let_def host_ready_def)
  then show thesis using that md(1) by blast
qed

lemma coordinator_starts:
  assumes h: "host_ready cfg env" "cf_coordinator cfg" and ca: "ReadCA C (cf_dataDir cfg) s = (Inr ca, s)" "MeshID ca = id_MeshID i"
  obtains ps where "coordinator_setup C cfg env i s =
      (Inr (ps, NewAdmin (JoinHostPort (if cf_advertiseHost cfg = [] then lanIPv4 (me_Host env) else cf_advertiseHost cfg)
        (Itoa (cf_pairPort cfg)))), s)"
    "ps_Identity ps = i" "ps_CA ps = ca" "ps_GRPCPort ps = cf_grpcPort cfg"
    "ps_Pairer ps = \<lparr>pa_ca = ca, pa_serverCert = id_Cert i, pa_nodeTTL = DefaultNodeCertTTL,
       pa_codes = [], pa_sessions = [], pa_failures = []\<rparr>"
proof -
  obtain ps where ps: "pairing_NewServer \<lparr>sc_Identity = Some i, sc_CA = Some ca, sc_GRPCPort = cf_grpcPort cfg, sc_NodeTTL = 0\<rparr> = Inr ps"
    "ps_Identity ps = i" "ps_CA ps = ca" "ps_GRPCPort ps = cf_grpcPort cfg"
    "ps_Pairer ps = \<lparr>pa_ca = ca, pa_serverCert = id_Cert i, pa_nodeTTL = DefaultNodeCertTTL, pa_codes = [], pa_sessions = [], pa_failures = []\<rparr>"
    using ca(2) by (simp add: pairing_NewServer_def NewPairer_def)
  have "me_Listen env (cf_pairPort cfg) = None" using h by (simp add: host_ready_def)
  then have "listen env what (cf_pairPort cfg) = Inr ()" for what by (simp add: listen_def)
  then show thesis using that ps ca(1) by (simp add: coordinator_setup_def io_then_def io_err_def Let_def)
qed

lemma meshd_starts:
  assumes h: "host_ready cfg env" "cf_coordinator cfg" and load: "LoadNodeIdentity C (cf_dataDir cfg) (me_Now env) s = (Inr i, s)"
    and n: "pr_Name (id_Principal i) \<noteq> []" "id_MeshID i \<noteq> []" "id_MeshID i \<noteq> AnyMesh"
    and ca: "ReadCA C (cf_dataDir cfg) s = (Inr ca, s)" "MeshID ca = id_MeshID i"
  obtains d ps where "meshd_setup C cfg env s = (Inr d, s)" "dm_Identity d = i" "dm_Running d" "dm_Pairing d = Some ps"
    "dm_Admin d = Some (NewAdmin (JoinHostPort (if cf_advertiseHost cfg = [] then lanIPv4 (me_Host env) else cf_advertiseHost cfg)
        (Itoa (cf_pairPort cfg))))"
    "dm_Server d = transport_NewServer i [role_check AdminServicePrefix [RoleAdmin]] [role_check AdminServicePrefix [RoleAdmin]]"
    "ps_Identity ps = i" "ps_CA ps = ca" "ps_GRPCPort ps = cf_grpcPort cfg"
    "ps_Pairer ps = \<lparr>pa_ca = ca, pa_serverCert = id_Cert i, pa_nodeTTL = DefaultNodeCertTTL,
       pa_codes = [], pa_sessions = [], pa_failures = []\<rparr>"
proof -
  obtain log ifs where l: "newLogger (cf_logLevel cfg) (cf_logFormat cfg) = Inr log"
    and p: "parseIfaces (me_Host env) (cf_ifaces cfg) = Inr ifs" using h(1) by (auto simp: host_ready_def is_ok_iff)
  have g: "listen env what (cf_grpcPort cfg) = Inr ()" for what using h(1) by (simp add: host_ready_def listen_def)
  obtain md md1 where m: "NewMDNS (meshd_mdns_config cfg i ifs) = Inr md" "mdns_Start (me_Zeroconf env) md = (Inr (), md1)"
    by (rule mdns_starts[OF h(1) p n])
  show thesis
  proof (rule coordinator_starts[OF h ca], goal_cases)
    case (1 ps)
    show thesis
      by (rule that[OF _ _ _ _ _ _ 1(2-5), of "\<lparr>dm_Log = log, dm_Identity = i, dm_Server = _, dm_Pairing = Some ps,
          dm_Admin = Some _, dm_Mdns = md1, dm_Running = True\<rparr>"])
        (use 1(1) l load p g m h(2) in \<open>simp_all add: meshd_setup_def io_then_def io_err_def Let_def\<close>)
  qed
qed

section \<open>Runs of a started daemon\<close>

lemma daemon_inv_use:
  assumes "daemon_inv i d"
  shows "dm_Identity d = i \<and>
    (\<forall>p \<in> set (Peers (dm_Mdns d)). pe_MeshID p = id_MeshID i \<and> pe_NodeID p \<noteq> pr_Name (id_Principal i)) \<and>
    length (md_events (dm_Mdns d)) \<le> 64 \<and>
    (\<forall>ps. dm_Pairing d = Some ps \<longrightarrow> pairer_inv (ps_Pairer ps) \<and> pa_ca (ps_Pairer ps) = ps_CA ps \<and>
       MeshID (ps_CA ps) = id_MeshID i)"
  using assms by (auto simp: daemon_inv_def mdns_inv_def Peers_def list_all_iff peer_entry_ok_def Let_def)

lemma meshd_setup_guarded:
  assumes "meshd_setup C cfg env s = (Inr d, s')"
  shows "daemon_guarded C (dm_Identity d) d"
  by (rule meshd_setup_cases[OF assms])
    (auto simp: daemon_guarded_def Let_def dest!: LoadNodeIdentity_ok split: if_splits)

lemma meshd_setup_no_codes:
  assumes "meshd_setup C cfg env s = (Inr d, s')"
  shows "active_codes d = 0"
proof (rule meshd_setup_cases[OF assms])
  assume c: "if cf_coordinator cfg then \<exists>ps a. coordinator_setup C cfg env (dm_Identity d) s = (Inr (ps, a), s) \<and>
         dm_Pairing d = Some ps \<and> dm_Admin d = Some a else dm_Pairing d = None \<and> dm_Admin d = None"
  show ?thesis
  proof (cases "dm_Pairing d")
    case (Some ps)
    then have "\<exists>ca. pairing_NewServer \<lparr>sc_Identity = Some (dm_Identity d), sc_CA = Some ca, sc_GRPCPort = cf_grpcPort cfg, sc_NodeTTL = 0\<rparr> = Inr ps"
      using c coordinator_setup_ok by (fastforce split: if_splits)
    then show ?thesis using Some by (auto simp: pairing_NewServer_def NewPairer_def active_codes_def split: if_splits)
  qed (simp add: active_codes_def)
qed

section \<open>The interfaces option\<close>

definition named :: "net_iface list \<Rightarrow> string \<Rightarrow> net_iface option" where
  "named ifs n = find (\<lambda>i. if_Name i = n) ifs"

lemma ifaces_loop_spec:
  "ifaces_loop (Inr ifs) ns =
     (let names = filter (\<lambda>n. n \<noteq> []) (map TrimSpace ns)
      in if \<exists>n \<in> set names. named ifs n = None then Inl (Wrap ''--ifaces'' (Msg ''no such network interface''))
         else Inr (map (\<lambda>n. the (named ifs n)) names))"
proof (induction ns)
  case (Cons n ns)
  show ?case
  proof (cases "TrimSpace n = [] \<or> named ifs (TrimSpace n) = None")
    case True
    then show ?thesis using Cons by (auto simp: InterfaceByName_def named_def Let_def)
  next
    case False
    then obtain i where "named ifs (TrimSpace n) = Some i" by blast
    then show ?thesis using False Cons by (simp add: InterfaceByName_def named_def[symmetric] Let_def)
  qed
qed simp


end
