(* ===== verification/Meshd_Concurrent.thy ===== *)
theory Meshd_Concurrent
  imports Meshd Pairer_Concurrent
begin

text \<open>
  The running daemon with overlapping calls. gRPC runs every call in a goroutine of its own, and a
  \<^verbatim>\<open>Complete\<close> holds the lock of the pairer twice, with the key derivation between. Here such a call
  takes two inputs, \<open>Start\<close> up to the end of the first critical section and \<open>Finish\<close> for the rest, and any
  other inputs can come between them. \<open>Whole\<close> is an input of \<open>daemon_step\<close>, taken without interruption:
  the other calls hold the lock once. \<open>meshd_run\<close> is the whole program.
\<close>

section \<open>Steps\<close>

record cdaemon =
  cd_daemon :: daemon
  cd_flight :: "flight list"

datatype cinput =
    Whole daemon_input
  | Start complete_request "string list \<Rightarrow> string list" time
  | Finish nat complete_env

text \<open>What the handler \<^verbatim>\<open>Server.Complete\<close> makes of the pairer's answer.\<close>

definition complete_reply :: "pairing_server \<Rightarrow> err + pair_bundle \<Rightarrow> err + complete_response" where
  "complete_reply s r =
     (case r of
        Inl e \<Rightarrow> Inl (toStatus e)
      | Inr b \<Rightarrow>
          Inr \<lparr>crs_CaCertDer = Raw (bd_CACert b), crs_NodeCertDer = Raw (bd_NodeCert b), crs_MeshId = bd_MeshID b,
               crs_CoordinatorNodeId = pr_Name (id_Principal (ps_Identity s)),
               crs_CoordinatorGrpcAddr = '':'' @ Itoa (ps_GRPCPort s), crs_ServerMac = bd_ServerMAC b\<rparr>)"

definition with_pairer :: "daemon \<Rightarrow> pairing_server \<Rightarrow> pairer \<Rightarrow> daemon" where
  "with_pairer d ps p = d\<lparr>dm_Pairing := Some (ps\<lparr>ps_Pairer := p\<rparr>)\<rparr>"

definition complete_start ::
  "complete_request \<Rightarrow> (string list \<Rightarrow> string list) \<Rightarrow> time \<Rightarrow> cdaemon \<Rightarrow> daemon_output \<times> cdaemon" where
  "complete_start req order now st =
     (case dm_Pairing (cd_daemon st) of
        None \<Rightarrow> (OutNone, st)
      | Some ps \<Rightarrow>
          (case complete_lock1 (ps_Pairer ps) (crq_SessionId req) order now of
             (Inl e, p) \<Rightarrow> (OutComplete (complete_reply ps (Inl e)), st\<lparr>cd_daemon := with_pairer (cd_daemon st) ps p\<rparr>)
           | (Inr (s, cs), p) \<Rightarrow>
               (OutNone, st\<lparr>cd_daemon := with_pairer (cd_daemon st) ps p,
                  cd_flight := cd_flight st @
                    [\<lparr>fl_session = s, fl_candidates = cs, fl_csr = crq_CsrDer req, fl_mac = crq_ClientMac req\<rparr>]\<rparr>)))"

definition drop_nth :: "nat \<Rightarrow> 'a list \<Rightarrow> 'a list" where
  "drop_nth i xs = take i xs @ drop (Suc i) xs"

definition complete_finish :: "crypto \<Rightarrow> nat \<Rightarrow> complete_env \<Rightarrow> cdaemon \<Rightarrow> daemon_output \<times> cdaemon" where
  "complete_finish C i env st =
     (case dm_Pairing (cd_daemon st) of
        None \<Rightarrow> (OutNone, st)
      | Some ps \<Rightarrow>
          if length (cd_flight st) \<le> i then (OutNone, st)
          else let f = cd_flight st ! i; (matched, key) = flight_match C (ps_Pairer ps) f in
            (case complete_lock2 (ps_Pairer ps) matched (ce_now_fail env) of
               (r, p) \<Rightarrow>
                 (OutComplete (complete_reply ps (and_then r (\<lambda>_.
                    complete_issue C (pa_ca p) (pa_nodeTTL p) (fl_session f) key (fl_csr f) (ce_serial env) (ce_now_sign env)
                      (ce_entropy env)))),
                  \<lparr>cd_daemon = with_pairer (cd_daemon st) ps p, cd_flight = drop_nth i (cd_flight st)\<rparr>)))"

definition cdaemon_step :: "crypto \<Rightarrow> cinput \<Rightarrow> cdaemon \<Rightarrow> daemon_output \<times> cdaemon" where
  "cdaemon_step C i st =
     (if \<not> dm_Running (cd_daemon st) then (OutNone, st)
      else case i of
        Whole j \<Rightarrow> (case daemon_step C j (cd_daemon st) of (out, d) \<Rightarrow> (out, st\<lparr>cd_daemon := d\<rparr>))
      | Start req order now \<Rightarrow> complete_start req order now st
      | Finish n env \<Rightarrow> complete_finish C n env st)"

fun cdaemon_run :: "crypto \<Rightarrow> cinput list \<Rightarrow> cdaemon \<Rightarrow> daemon_output list \<times> cdaemon" where
  "cdaemon_run C [] st = ([], st)"
| "cdaemon_run C (i # is) st =
     (case cdaemon_step C i st of (out, st1) \<Rightarrow> case cdaemon_run C is st1 of (outs, st2) \<Rightarrow> (out # outs, st2))"

definition calm :: "daemon \<Rightarrow> cdaemon" where
  "calm d = \<lparr>cd_daemon = d, cd_flight = []\<rparr>"

text \<open>The whole program: flags, version, start, run until the inputs end.\<close>

datatype meshd_result = PrintedVersion | Ran "daemon_output list" daemon

definition meshd_run :: "crypto \<Rightarrow> meshd_env \<Rightarrow> cinput list \<Rightarrow> string list \<Rightarrow> (fs, meshd_result) io" where
  "meshd_run C env inputs args =
     io_then (io_of (parse_meshd (meshd_defaultDataDir (me_Env env) (me_Home env)) args)) (\<lambda>(cfg, showVersion).
       if showVersion then io_ret PrintedVersion
       else io_then (meshd_setup C cfg env) (\<lambda>d.
              case cdaemon_run C inputs (calm d) of (outs, st) \<Rightarrow> io_ret (Ran outs (cd_daemon st))))"

text \<open>The process: the exit status and the error it reports, if any.\<close>

definition meshd_main :: "crypto \<Rightarrow> meshd_env \<Rightarrow> cinput list \<Rightarrow> string list \<Rightarrow> fs \<Rightarrow> (int \<times> (err + meshd_result)) \<times> fs" where
  "meshd_main C env inputs args s =
     (case meshd_run C env inputs args s of (r, s1) \<Rightarrow> ((case r of Inl _ \<Rightarrow> 1 | Inr _ \<Rightarrow> 0, r), s1))"

section \<open>Calls that do not overlap\<close>

lemma complete_reply_pairer [simp]: "complete_reply (ps\<lparr>ps_Pairer := p\<rparr>) r = complete_reply ps r"
  by (cases r) (simp_all add: complete_reply_def)

lemma complete_reply_ok [simp]: "is_ok (complete_reply ps r) \<longleftrightarrow> is_ok r"
  by (cases r) (simp_all add: complete_reply_def)

lemma server_Complete_reply:
  "server_Complete C req env ps =
     (case Complete C (ps_Pairer ps) (crq_SessionId req) (crq_CsrDer req) (crq_ClientMac req) env of
        (r, p) \<Rightarrow> (complete_reply ps r, ps\<lparr>ps_Pairer := p\<rparr>))"
  by (simp add: server_Complete_def complete_reply_def split: prod.split sum.split)

text \<open>
  A \<open>Start\<close> followed by its \<open>Finish\<close> is the uninterrupted call: it leaves the same daemon and sends the same
  answer, once.
\<close>

lemma start_finish_is_complete:
  assumes run: "dm_Running d" and ps: "dm_Pairing d = Some ps"
    and step: "daemon_step C (InComplete req env) d = (out, d')"
    and runs: "cdaemon_run C [Start req (ce_order env) (ce_now_gc env), Finish (length fl) env] \<lparr>cd_daemon = d, cd_flight = fl\<rparr> = (outs, st)"
  shows "st = \<lparr>cd_daemon = d', cd_flight = fl\<rparr> \<and> filter (\<lambda>x. x \<noteq> OutNone) outs = [out]"
proof -
  obtain r p where c: "Complete C (ps_Pairer ps) (crq_SessionId req) (crq_CsrDer req) (crq_ClientMac req) env = (r, p)" by fastforce
  then have o: "out = OutComplete (complete_reply ps r)" "d' = with_pairer d ps p"
    using step run ps by (auto simp: daemon_step_def serve_complete_def server_Complete_reply with_pairer_def)
  obtain r1 p1 where l1: "complete_lock1 (ps_Pairer ps) (crq_SessionId req) (ce_order env) (ce_now_gc env) = (r1, p1)" by fastforce
  show ?thesis
  proof (cases r1)
    case (Inl e)
    then have "r = Inl e" "p = p1" using c l1 by (simp_all add: Complete_def complete_claim_def)
    then show ?thesis using runs run ps l1 Inl o
      by (auto simp: cdaemon_step_def complete_start_def complete_finish_def with_pairer_def)
  next
    case (Inr x)
    obtain s cs where x: "x = (s, cs)" by (cases x)
    obtain m k where mk: "match_loop C (CertHash (pa_serverCert p1)) s (crq_CsrDer req) (crq_ClientMac req) cs = (m, k)" by fastforce
    obtain r2 p2 where l2: "complete_lock2 p1 m (ce_now_fail env) = (r2, p2)" by fastforce
    have "p = p2" "r = and_then r2 (\<lambda>_. complete_issue C (pa_ca p2) (pa_nodeTTL p2) s k (crq_CsrDer req) (ce_serial env)
        (ce_now_sign env) (ce_entropy env))"
      using c l1 Inr x mk l2 by (cases r2; simp add: Complete_def complete_claim_def)+
    then show ?thesis using runs run ps l1 Inr x mk l2 o
      by (auto simp: cdaemon_step_def complete_start_def complete_finish_def with_pairer_def flight_match_def drop_nth_def)
  qed
qed

section \<open>What every step keeps\<close>

text \<open>The two halves of a call change the pairer only, each by one critical section.\<close>

inductive half :: "pairer \<Rightarrow> pairer \<Rightarrow> bool" where
  half_same: "half p p"
| half_lock1: "complete_lock1 p sid order now = (r, p') \<Longrightarrow> half p p'"
| half_lock2: "complete_lock2 p c now = (r, p') \<Longrightarrow> half p p'"

lemma lock2_ca: "complete_lock2 p c now = (r, p') \<Longrightarrow> pa_ca p' = pa_ca p"
  by (auto simp: complete_lock2_def split: if_splits)

lemma half_inv: "half p p' \<Longrightarrow> pairer_inv p \<Longrightarrow> pairer_inv p' \<and> pa_ca p' = pa_ca p"
  by (induction rule: half.induct) (auto dest: lock1_inv lock2_inv lock2_ca lock1_inv_state(4))

lemma half_frame:
  assumes "complete_start req order now st = (out, st') \<or> complete_finish C i env st = (out, st')"
  shows "cd_daemon st' = cd_daemon st \<or>
    (\<exists>ps p. dm_Pairing (cd_daemon st) = Some ps \<and> cd_daemon st' = with_pairer (cd_daemon st) ps p \<and> half (ps_Pairer ps) p)"
  using assms
  by (auto simp: complete_start_def complete_finish_def Let_def split: option.splits prod.splits sum.splits if_splits
      intro: half.intros)

lemma cdaemon_step_cases:
  assumes "cdaemon_step C i st = (out, st')"
  obtains (whole) j where "i = Whole j" "daemon_step C j (cd_daemon st) = (out, cd_daemon st')"
  | (same) "cd_daemon st' = cd_daemon st" "\<not> is_paired out"
  | (start) req order now where "i = Start req order now" "complete_start req order now st = (out, st')"
  | (finish) n env where "i = Finish n env" "complete_finish C n env st = (out, st')"
  using assms by (cases i) (auto simp: cdaemon_step_def is_paired_def split: if_splits prod.splits)

lemma with_pairer_sel [simp]:
  "dm_Identity (with_pairer d ps p) = dm_Identity d" "dm_Server (with_pairer d ps p) = dm_Server d"
  "dm_Mdns (with_pairer d ps p) = dm_Mdns d" "dm_Pairing (with_pairer d ps p) = Some (ps\<lparr>ps_Pairer := p\<rparr>)"
  by (simp_all add: with_pairer_def)

definition cinput_ok :: "cinput \<Rightarrow> bool" where
  "cinput_ok i = (case i of Whole j \<Rightarrow> input_ok j | _ \<Rightarrow> True)"

lemma half_daemon_inv:
  assumes "half (ps_Pairer ps) p" "dm_Pairing d = Some ps" "daemon_inv ident d"
  shows "daemon_inv ident (with_pairer d ps p)"
  using assms half_inv[OF assms(1)] by (simp add: daemon_inv_def)

lemma cdaemon_step_inv:
  assumes step: "cdaemon_step C i st = (out, st')" and inv: "daemon_inv ident (cd_daemon st)" and ok: "cinput_ok i"
  shows "daemon_inv ident (cd_daemon st')"
  using step
proof (cases rule: cdaemon_step_cases)
  case (whole j)
  then show ?thesis using daemon_step_inv[OF _ inv] ok by (auto simp: cinput_ok_def)
next
  case (start req order now)
  then show ?thesis using half_frame[of req order now st out st'] half_daemon_inv[OF _ _ inv] inv by auto
next
  case (finish n env)
  then show ?thesis using half_frame[of _ _ _ st out st' C n env] half_daemon_inv[OF _ _ inv] inv by auto
qed (use inv in simp)

lemma cdaemon_run_inv:
  "cdaemon_run C is st = (outs, st') \<Longrightarrow> list_all cinput_ok is \<Longrightarrow> daemon_inv ident (cd_daemon st) \<Longrightarrow>
     daemon_inv ident (cd_daemon st')"
  by (induction "is" arbitrary: st outs) (auto split: prod.splits dest: cdaemon_step_inv)

section \<open>Certificates are paid for\<close>

definition by_admin_call :: "crypto \<Rightarrow> mesh_identity \<Rightarrow> cinput \<Rightarrow> bool" where
  "by_admin_call C ident i = (case i of Whole j \<Rightarrow> by_admin C ident j | _ \<Rightarrow> False)"

lemma lock1_fewer: "complete_lock1 p sid order now = (r, p') \<Longrightarrow> length (pa_codes p') \<le> length (pa_codes p)"
  using lock1_inv_state(1) by fastforce

lemma lock2_fewer:
  "complete_lock2 p c now = (r, p') \<Longrightarrow> (if is_ok r then 1 else 0) + length (pa_codes p') \<le> length (pa_codes p)"
  using delete_length_less[of "pa_codes p" c] by (auto simp: complete_lock2_def split: if_splits)

lemma start_meter:
  "complete_start req order now st = (out, st') \<Longrightarrow>
     \<not> is_paired out \<and> active_codes (cd_daemon st') \<le> active_codes (cd_daemon st)"
  by (auto simp: complete_start_def active_codes_def is_paired_def split: option.splits prod.splits sum.splits)
    (erule lock1_fewer)+

lemma finish_meter:
  assumes "complete_finish C i env st = (out, st')"
  shows "(if is_paired out then 1 else 0) + active_codes (cd_daemon st') \<le> active_codes (cd_daemon st)"
proof (cases "dm_Pairing (cd_daemon st) = None \<or> length (cd_flight st) \<le> i")
  case True
  then show ?thesis using assms by (auto simp: complete_finish_def is_paired_def split: option.splits)
next
  case False
  then obtain ps where ps: "dm_Pairing (cd_daemon st) = Some ps" by auto
  obtain m k where mk: "flight_match C (ps_Pairer ps) (cd_flight st ! i) = (m, k)" by fastforce
  obtain r p where l2: "complete_lock2 (ps_Pairer ps) m (ce_now_fail env) = (r, p)" by fastforce
  have st': "cd_daemon st' = with_pairer (cd_daemon st) ps p"
    and out: "\<exists>q. out = OutComplete (complete_reply ps (and_then r q))"
    using assms False ps mk l2 by (auto simp: complete_finish_def Let_def)
  have "is_ok r" if "is_paired out" using out that by (cases r) (auto simp: is_paired_def)
  moreover have "active_codes (cd_daemon st') = length (pa_codes p)" "active_codes (cd_daemon st) = length (pa_codes (ps_Pairer ps))"
    using st' ps by (simp_all add: active_codes_def)
  ultimately show ?thesis using lock2_fewer[OF l2] by (cases "is_paired out") auto
qed

definition cdaemon_trans :: "crypto \<Rightarrow> cdaemon \<Rightarrow> cinput \<times> daemon_output \<Rightarrow> cdaemon \<Rightarrow> bool" where
  "cdaemon_trans C st e st' \<longleftrightarrow> cdaemon_step C (fst e) st = (snd e, st')"

lemma cdaemon_run_trans:
  "cdaemon_run C is st = (outs, st') \<Longrightarrow> run (cdaemon_trans C) st (zip is outs) st' \<and> length outs = length is"
proof (induction "is" arbitrary: st outs)
  case (Cons i "is")
  then obtain out st1 outs1 where "cdaemon_step C i st = (out, st1)" "cdaemon_run C is st1 = (outs1, st')" "outs = out # outs1"
    by (auto split: prod.splits)
  then show ?case using Cons.IH[of st1 outs1] by (auto simp: cdaemon_trans_def)
qed auto

lemma cdaemon_step_guarded:
  assumes "cdaemon_step C i st = (out, st')" "daemon_guarded C ident (cd_daemon st)"
  shows "daemon_guarded C ident (cd_daemon st')"
  using assms(1)
proof (cases rule: cdaemon_step_cases)
  case (whole j)
  then show ?thesis using daemon_step_frame[OF whole(2)] assms(2) by (auto simp: daemon_guarded_def)
next
  case (start req order now)
  then show ?thesis using half_frame[of req order now st out st'] assms(2) by (auto simp: daemon_guarded_def)
next
  case (finish n env)
  then show ?thesis using half_frame[of _ _ _ st out st' C n env] assms(2) by (auto simp: daemon_guarded_def)
qed (use assms(2) in simp)

lemma cdaemon_step_meter:
  assumes "cdaemon_step C i st = (out, st')" "daemon_guarded C ident (cd_daemon st)"
  shows "(if is_paired out then 1 else 0) + active_codes (cd_daemon st') \<le>
    active_codes (cd_daemon st) + (if by_admin_call C ident i then 1 else 0)"
  using assms(1)
proof (cases rule: cdaemon_step_cases)
  case (whole j)
  then show ?thesis using daemon_step_meter[OF whole(2) assms(2)] by (simp add: by_admin_call_def)
next
  case (start req order now)
  then show ?thesis using start_meter[OF start(2)] by simp
next
  case (finish n env)
  then show ?thesis using finish_meter[OF finish(2)] by simp
qed simp

interpretation daemon_meter: metered "cdaemon_trans C" "\<lambda>st. daemon_guarded C ident (cd_daemon st)" "\<lambda>st. active_codes (cd_daemon st)"
  "\<lambda>e. by_admin_call C ident (fst e)" "\<lambda>e. is_paired (snd e)" for C ident
  by unfold_locales (auto simp: cdaemon_trans_def dest: cdaemon_step_guarded cdaemon_step_meter[of C _ _ _ _ ident])

end
