(* ===== verification/Commandline.thy ===== *)
theory Commandline
  imports Meshctl Meshd_Concurrent
begin

text \<open>
  Command lines of the two programs: for given options there are words that parse to them, and the line
  that \<^verbatim>\<open>meshctl pair\<close> prints for the other machine is a command line for the printed code and address.
\<close>

section \<open>Words for options\<close>

definition set_arg :: "string \<Rightarrow> string \<Rightarrow> setting" where
  "set_arg n t = \<lparr>st_name = n, st_text = t, st_separate = True\<rparr>"

definition force_args :: "bool \<Rightarrow> setting list" where
  "force_args b = (if b then [\<lparr>st_name = ''force'', st_text = ''true'', st_separate = False\<rparr>] else [])"

definition words_of :: "setting list \<Rightarrow> string list" where
  "words_of ss = concat (map render ss)"

definition init_words :: "init_options \<Rightarrow> string list" where
  "init_words opts =
     words_of ([set_arg ''data-dir'' (io_DataDir opts), set_arg ''mesh-id'' (io_MeshID opts), set_arg ''admin-name'' (io_AdminName opts),
       set_arg ''node-id'' (io_NodeID opts)] @ force_args (io_Force opts))"

definition pair_words :: "pair_options \<Rightarrow> string list" where
  "pair_words opts =
     words_of [set_arg ''data-dir'' (po_DataDir opts), set_arg ''addr'' (po_Addr opts), set_arg ''ttl'' (Duration_String (po_TTL opts))]"

text \<open>The words that follow the printed line to choose the directory and the name of the new node.\<close>

definition place_words :: "join_options \<Rightarrow> string list" where
  "place_words opts =
     words_of ([set_arg ''data-dir'' (jo_DataDir opts), set_arg ''node-id'' (jo_NodeID opts)] @ force_args (jo_Force opts))"

lemmas setting_simps = set_arg_def force_args_def setting_ok_def flag_name_def flag_Set_def ParseBool_def no_flag_def

lemma parse_words:
  assumes "list_all (setting_ok formal) ss"
  obtains f where "flag_Parse formal (words_of ss) = (Inr (), f)"
    "\<forall>n. map_of (fg_formal f) n = (case last_setting ss n of None \<Rightarrow> map_of formal n
        | Some s \<Rightarrow> flag_Set (the (map_of formal n)) (st_text s))"
  using flag_Parse_settings[OF assms, of "[]"] by (auto simp: words_of_def no_flag_def)

lemma parse_init_words: "parse_init dd (init_words opts) = Inr opts"
proof -
  let ?ss = "[set_arg ''data-dir'' (io_DataDir opts), set_arg ''mesh-id'' (io_MeshID opts), set_arg ''admin-name'' (io_AdminName opts),
       set_arg ''node-id'' (io_NodeID opts)] @ force_args (io_Force opts)"
  have "list_all (setting_ok (init_flags dd)) ?ss" by (simp add: setting_simps init_flags_def)
  then obtain f where f: "flag_Parse (init_flags dd) (init_words opts) = (Inr (), f)"
    "\<forall>n. map_of (fg_formal f) n = (case last_setting ?ss n of None \<Rightarrow> map_of (init_flags dd) n
        | Some s \<Rightarrow> flag_Set (the (map_of (init_flags dd) n)) (st_text s))"
    unfolding init_words_def by (rule parse_words)
  show ?thesis using f(1)
    by (simp add: parse_init_def flag_reads f(2)[rule_format] last_setting_def set_arg_def force_args_def init_flags_def flag_Set_def ParseBool_def)
qed

lemma parse_pair_words:
  assumes "po_TTL opts = k * Second" "abs k * Second \<le> max_int64"
  shows "parse_pair dd (pair_words opts) = Inr opts"
proof -
  let ?ss = "[set_arg ''data-dir'' (po_DataDir opts), set_arg ''addr'' (po_Addr opts), set_arg ''ttl'' (Duration_String (po_TTL opts))]"
  have ttl: "ParseDuration (Duration_String (po_TTL opts)) = Some (po_TTL opts)" using ParseDuration_String[OF assms(2)] assms(1) by simp
  have "list_all (setting_ok (pair_flags dd)) ?ss" by (simp add: setting_simps pair_flags_def ttl)
  then obtain f where f: "flag_Parse (pair_flags dd) (pair_words opts) = (Inr (), f)"
    "\<forall>n. map_of (fg_formal f) n = (case last_setting ?ss n of None \<Rightarrow> map_of (pair_flags dd) n
        | Some s \<Rightarrow> flag_Set (the (map_of (pair_flags dd) n)) (st_text s))"
    unfolding pair_words_def by (rule parse_words)
  show ?thesis using f(1)
    by (simp add: parse_pair_def flag_reads f(2)[rule_format] last_setting_def set_arg_def pair_flags_def flag_Set_def ttl)
qed

lemma parse_join_words:
  "parse_join dd (words_of [set_arg ''code'' code, set_arg ''coordinator'' addr] @ place_words opts) =
     Inr (opts\<lparr>jo_Code := code, jo_Coordinator := addr\<rparr>)"
proof -
  let ?ss = "[set_arg ''code'' code, set_arg ''coordinator'' addr, set_arg ''data-dir'' (jo_DataDir opts),
      set_arg ''node-id'' (jo_NodeID opts)] @ force_args (jo_Force opts)"
  have w: "words_of [set_arg ''code'' code, set_arg ''coordinator'' addr] @ place_words opts = words_of ?ss"
    by (simp add: place_words_def words_of_def)
  have "list_all (setting_ok (join_flags dd)) ?ss" by (simp add: setting_simps join_flags_def)
  then obtain f where f: "flag_Parse (join_flags dd) (words_of ?ss) = (Inr (), f)"
    "\<forall>n. map_of (fg_formal f) n = (case last_setting ?ss n of None \<Rightarrow> map_of (join_flags dd) n
        | Some s \<Rightarrow> flag_Set (the (map_of (join_flags dd) n)) (st_text s))"
    by (rule parse_words)
  show ?thesis using f(1) unfolding w
    by (simp add: parse_join_def flag_reads f(2)[rule_format] last_setting_def set_arg_def force_args_def join_flags_def flag_Set_def ParseBool_def)
qed

text \<open>The words for a configuration of the daemon.\<close>

definition meshd_words :: "meshd_config \<Rightarrow> string list" where
  "meshd_words cfg =
     words_of [set_arg ''data-dir'' (cf_dataDir cfg), set_arg ''grpc-port'' (Itoa (cf_grpcPort cfg)), set_arg ''pair-port'' (Itoa (cf_pairPort cfg)),
       \<lparr>st_name = ''coordinator'', st_text = (if cf_coordinator cfg then ''true'' else ''false''), st_separate = False\<rparr>,
       set_arg ''advertise-host'' (cf_advertiseHost cfg), set_arg ''ifaces'' (cf_ifaces cfg), set_arg ''log-level'' (cf_logLevel cfg),
       set_arg ''log-format'' (cf_logFormat cfg)]"

lemma parse_meshd_words:
  assumes "int64_ok (cf_grpcPort cfg)" "int64_ok (cf_pairPort cfg)"
  shows "parse_meshd dd (meshd_words cfg) = Inr (cfg, False)"
proof -
  let ?ss = "[set_arg ''data-dir'' (cf_dataDir cfg), set_arg ''grpc-port'' (Itoa (cf_grpcPort cfg)), set_arg ''pair-port'' (Itoa (cf_pairPort cfg)),
       \<lparr>st_name = ''coordinator'', st_text = (if cf_coordinator cfg then ''true'' else ''false''), st_separate = False\<rparr>,
       set_arg ''advertise-host'' (cf_advertiseHost cfg), set_arg ''ifaces'' (cf_ifaces cfg), set_arg ''log-level'' (cf_logLevel cfg),
       set_arg ''log-format'' (cf_logFormat cfg)]"
  have ports: "ParseInt0 (Itoa (cf_grpcPort cfg)) = Some (cf_grpcPort cfg)" "ParseInt0 (Itoa (cf_pairPort cfg)) = Some (cf_pairPort cfg)"
    using assms ParseInt0_Itoa by (simp_all add: int64_ok_def)
  have "list_all (setting_ok (meshd_flags dd)) ?ss" by (auto simp: setting_simps meshd_flags_def ports)
  then obtain f where f: "flag_Parse (meshd_flags dd) (meshd_words cfg) = (Inr (), f)"
    "\<forall>n. map_of (fg_formal f) n = (case last_setting ?ss n of None \<Rightarrow> map_of (meshd_flags dd) n
        | Some s \<Rightarrow> flag_Set (the (map_of (meshd_flags dd) n)) (st_text s))"
    unfolding meshd_words_def by (rule parse_words)
  show ?thesis using f(1)
    by (simp add: parse_meshd_def flag_reads f(2)[rule_format] last_setting_def set_arg_def meshd_flags_def flag_Set_def ParseBool_def ports)
qed

text \<open>Runs of the programs on these words.\<close>

lemma run_init_words:
  "cmdInit C opts inp s = (Inr out, s1) \<Longrightarrow> meshctl_run C (ctl\<lparr>ci_Init := inp\<rparr>) (''init'' # init_words opts) s = (Inr (OutInit out), s1)"
  by (simp add: meshctl_run_def Let_def parse_init_words io_then_def io_of_def)

lemma run_pair_words:
  assumes "po_TTL opts = k * Second" "abs k * Second \<le> max_int64" "cmdPair C conv target create opts t s = (Inr out, s1)"
  shows "meshctl_run C (ctl\<lparr>ci_Conv := conv, ci_Target := target, ci_Create := create, ci_Now := t\<rparr>) (''pair'' # pair_words opts) s =
    (Inr (OutPair out), s1)"
  using assms(3) parse_pair_words[OF assms(1,2)] by (simp add: meshctl_run_def Let_def io_then_def io_of_def)

lemma run_join_words:
  assumes "cmdJoin C (opts\<lparr>jo_Code := code, jo_Coordinator := addr\<rparr>) inp s = (Inr out, s1)"
  shows "meshctl_run C (ctl\<lparr>ci_Join := inp\<rparr>)
    ((''join'' # words_of [set_arg ''code'' code, set_arg ''coordinator'' addr]) @ place_words opts) s = (Inr (OutJoin out), s1)"
  using assms by (simp add: meshctl_run_def Let_def parse_join_words io_then_def io_of_def)

lemma run_meshd_words:
  assumes "meshd_setup C cfg env s = (Inr d, s1)" "int64_ok (cf_grpcPort cfg)" "int64_ok (cf_pairPort cfg)"
  shows "meshd_run C env [] (meshd_words cfg) s = (Inr (Ran [] d), s1)"
  using assms by (simp add: meshd_run_def parse_meshd_words calm_def io_then_def io_of_def)

section \<open>The flags of the programs\<close>

lemma defaults_ok:
  "list_all (\<lambda>x. value_ok (snd x)) (init_flags dd)" "list_all (\<lambda>x. value_ok (snd x)) (pair_flags dd)"
  "list_all (\<lambda>x. value_ok (snd x)) (join_flags dd)" "list_all (\<lambda>x. value_ok (snd x)) (meshd_flags dd)"
  by (simp_all add: init_flags_def pair_flags_def join_flags_def meshd_flags_def int64_ok_def min_int64_def max_int64_def
      DefaultCodeTTL_def Second_def meshd_defaultGRPCPort_def meshd_defaultPairPort_def)

lemma flag_read_ok: "list_all (\<lambda>x. value_ok (snd x)) fl \<Longrightarrow> int64_ok (int_flag fl n) \<and> int64_ok (duration_flag fl n)"
proof -
  assume ok: "list_all (\<lambda>x. value_ok (snd x)) fl"
  have "value_ok v" if "map_of fl n = Some v" for v using ok map_of_SomeD[OF that] by (auto simp: list_all_iff)
  moreover have "int64_ok 0" by (simp add: int64_ok_def min_int64_def max_int64_def)
  ultimately show ?thesis by (auto simp: int_flag_def duration_flag_def split: option.split flag_value.split)
qed





section \<open>The printed line\<close>

text \<open>The words of a line, as a shell splits a line that has no quotes or other special characters.\<close>

definition shell_words :: "string \<Rightarrow> string list" where
  "shell_words l = filter (\<lambda>w. w \<noteq> []) (Split CHR '' '' l)"

definition plain_word :: "string \<Rightarrow> bool" where
  "plain_word w \<longleftrightarrow> w \<noteq> [] \<and> CHR '' '' \<notin> set w"

lemma shell_words_space: "CHR '' '' \<notin> set a \<Longrightarrow> shell_words (a @ CHR '' '' # b) = (if a = [] then shell_words b else a # shell_words b)"
  by (simp add: shell_words_def Split_append)

lemma shell_words_last: "plain_word w \<Longrightarrow> shell_words w = [w]"
  by (simp add: shell_words_def plain_word_def)

lemma pair_line_words:
  assumes "plain_word (pout_Code out)" "plain_word (pout_PairAddr out)"
  shows "shell_words (last (pair_lines out)) =
    ''meshctl'' # ''join'' # words_of [set_arg ''code'' (pout_Code out), set_arg ''coordinator'' (pout_PairAddr out)]"
proof -
  let ?c = "pout_Code out" and ?a = "pout_PairAddr out"
  have l: "last (pair_lines out) = [] @ CHR '' '' # [] @ CHR '' '' # ''meshctl'' @ CHR '' '' # ''join'' @ CHR '' '' # ''--code'' @
      CHR '' '' # ?c @ CHR '' '' # ''--coordinator'' @ CHR '' '' # ?a"
    by (simp add: pair_lines_def)
  have c: "CHR '' '' \<notin> set ?c" "?c \<noteq> []" using assms(1) by (simp_all add: plain_word_def)
  show ?thesis unfolding l using c shell_words_last[OF assms(2)]
    by (simp add: shell_words_space[of "[]", simplified] shell_words_space[of "''meshctl''", simplified]
        shell_words_space[of "''join''", simplified] shell_words_space[of "''--code''", simplified] shell_words_space
        shell_words_space[of "''--coordinator''", simplified] words_of_def render_def set_arg_def)
qed

lemma parse_join_bare:
  "parse_join dd (words_of [set_arg ''code'' code, set_arg ''coordinator'' addr]) =
     Inr \<lparr>jo_DataDir = dd, jo_Code = code, jo_Coordinator = addr, jo_NodeID = [], jo_Force = False\<rparr>"
proof -
  let ?ss = "[set_arg ''code'' code, set_arg ''coordinator'' addr]"
  have "list_all (setting_ok (join_flags dd)) ?ss" by (simp add: setting_simps join_flags_def)
  then obtain f where f: "flag_Parse (join_flags dd) (words_of ?ss) = (Inr (), f)"
    "\<forall>n. map_of (fg_formal f) n = (case last_setting ?ss n of None \<Rightarrow> map_of (join_flags dd) n
        | Some s \<Rightarrow> flag_Set (the (map_of (join_flags dd) n)) (st_text s))"
    by (rule parse_words)
  show ?thesis using f(1)
    by (simp add: parse_join_def flag_reads f(2)[rule_format] last_setting_def set_arg_def join_flags_def flag_Set_def)
qed



section \<open>Lines that do not say what they seem to\<close>

text \<open>Asking a command for its flags is an error with exit status 1.\<close>

lemma init_help: "meshctl_main C inp [''init'', ''-h''] s = ((1, Inl (FlagErr ErrHelp)), s)"
proof -
  have "parseOne \<lparr>fg_formal = init_flags dd, fg_args = [''-h'']\<rparr> = (Inl (FlagErr ErrHelp), \<lparr>fg_formal = init_flags dd, fg_args = []\<rparr>)" for dd
    by (simp add: parseOne_def split_name_def apply_flag_def init_flags_def)
  then have "\<exists>f. flag_Parse (init_flags dd) [''-h''] = (Inl (FlagErr ErrHelp), f)" for dd
    by (simp add: flag_Parse_def parse_loop.simps)
  then have "parse_init dd [''-h''] = Inl (FlagErr ErrHelp)" for dd
    unfolding parse_init_def by (elim allE[of _ dd] meta_allE[of _ dd] exE) (simp add: Let_def)
  then show ?thesis by (simp add: meshctl_main_def meshctl_run_def Let_def io_then_def io_of_def)
qed

text \<open>
  Words after the flags are ignored, so that a value for \<^verbatim>\<open>--force\<close> in a word of its own does not
  switch it off.
\<close>

lemma init_force_false:
  "parse_init dd [''--mesh-id'', m, ''--force'', ''false''] =
     Inr \<lparr>io_DataDir = dd, io_MeshID = m, io_AdminName = ''admin'', io_NodeID = [], io_Force = True\<rparr>"
proof -
  let ?fl = "AList.update ''mesh-id'' (StringVal m) (init_flags dd)"
  have "setting_ok (init_flags dd) (set_arg ''mesh-id'' m)" "flag_name ''force''" by (simp_all add: setting_simps init_flags_def)
  then have "flag_Parse (init_flags dd) [''--mesh-id'', m, ''--force'', ''false''] = flag_Parse ?fl [''--force'', ''false'']"
    using parse_loop_setting[of "\<lparr>fg_formal = init_flags dd, fg_args = [''--mesh-id'', m, ''--force'', ''false'']\<rparr>"
        "set_arg ''mesh-id'' m" "[''--force'', ''false'']" "StringVal []" "StringVal m"]
    by (simp add: flag_Parse_def render_def set_arg_def flag_Set_def init_flags_def)
  also have "\<dots> = (Inr (), \<lparr>fg_formal = AList.update ''force'' (BoolVal True) ?fl, fg_args = [''false'']\<rparr>)"
    using bool_flag_separate[of ?fl "''force''" False "[]"] \<open>flag_name ''force''\<close> by (simp add: init_flags_def)
  finally show ?thesis by (simp add: parse_init_def flag_reads init_flags_def)
qed

end
