(* ===== verification/Bootstrap.thy ===== *)
theory Bootstrap
  imports Commandline
begin

text \<open>
  The commands and the daemon together: a mesh is initialised, its coordinator is started on the same
  data directory, \<^verbatim>\<open>meshctl pair\<close> asks it for a code, and \<^verbatim>\<open>meshctl join\<close> uses the code on
  another machine. The connections are modelled by the certificates each side presents and checks.
\<close>

section \<open>\<^verbatim>\<open>meshctl pair\<close> talks to the daemon\<close>

text \<open>
  The call over an mTLS connection at time \<open>t\<close>: the client checks the daemon's certificate, the daemon
  checks the client's, then the daemon serves the call. \<open>admin_after\<close> is the daemon afterwards.
\<close>

definition admin_rpc ::
  "crypto \<Rightarrow> daemon \<Rightarrow> time \<Rightarrow> nat option \<Rightarrow> time \<Rightarrow> time \<Rightarrow> grpc_conn \<Rightarrow> create_request \<Rightarrow> err + create_response" where
  "admin_rpc C d t n ne ng conn req =
     and_then (tls_check_server C (gc_TLS conn) (map tc_Leaf (tls_Certificates (gs_TLS (dm_Server d)))) t) (\<lambda>_.
       case fst (daemon_step C (InCreate (map tc_Leaf (tls_Certificates (gc_TLS conn))) t req n ne ng) d) of
         OutCreate r \<Rightarrow> r
       | _ \<Rightarrow> Inl (Msg ''connection closed''))"

definition admin_after :: "crypto \<Rightarrow> daemon \<Rightarrow> time \<Rightarrow> nat option \<Rightarrow> time \<Rightarrow> time \<Rightarrow> mesh_identity \<Rightarrow> create_request \<Rightarrow> daemon" where
  "admin_after C d t n ne ng adm req = snd (daemon_step C (InCreate [id_Cert adm] t req n ne ng) d)"

definition pair_host :: "meshd_config \<Rightarrow> meshd_env \<Rightarrow> string" where
  "pair_host cfg env = (if cf_advertiseHost cfg = [] then lanIPv4 (me_Host env) else cf_advertiseHost cfg)"

lemma pair_host_plain: "plain_host (cf_advertiseHost cfg) \<Longrightarrow> plain_host (pair_host cfg env)"
  using lanIPv4_plain by (simp add: pair_host_def)

text \<open>A coordinator on an initialised directory, before anything happened to it.\<close>

definition fresh_coordinator ::
  "meshd_config \<Rightarrow> meshd_env \<Rightarrow> init_options \<Rightarrow> string \<Rightarrow> CA \<Rightarrow> privkey \<Rightarrow> certificate \<Rightarrow> daemon \<Rightarrow> pairing_server \<Rightarrow> bool" where
  "fresh_coordinator cfg env opts nodeID ca k1 c1 d ps \<longleftrightarrow>
     dm_Identity d = mk_identity (node_principal opts nodeID) (ca_Cert ca) c1 k1 \<and> dm_Running d \<and> dm_Pairing d = Some ps \<and>
     dm_Admin d = Some (NewAdmin (JoinHostPort (pair_host cfg env) (Itoa (cf_pairPort cfg)))) \<and>
     dm_Server d = transport_NewServer (dm_Identity d) [role_check AdminServicePrefix [RoleAdmin]]
       [role_check AdminServicePrefix [RoleAdmin]] \<and>
     ps_Identity ps = dm_Identity d \<and> ps_CA ps = ca \<and> ps_GRPCPort ps = cf_grpcPort cfg \<and>
     ps_Pairer ps = \<lparr>pa_ca = ca, pa_serverCert = c1, pa_nodeTTL = DefaultNodeCertTTL,
       pa_codes = [], pa_sessions = [], pa_failures = []\<rparr>"

lemma valid_not_star: "is_ok (validateLabel m) \<Longrightarrow> m \<noteq> [] \<and> m \<noteq> AnyMesh"
  by (auto simp: pki_label.valid_iff AnyMesh_def label_char_ord)

lemma initialised_starts:
  assumes i: "initialised C opts nodeID ca k1 c1 k2 c2 t s" and h: "host_ready cfg env" "cf_coordinator cfg"
    and env: "cf_dataDir cfg = io_DataDir opts" "me_Now env = t"
  obtains d ps where "meshd_setup C cfg env s = (Inr d, s)" "fresh_coordinator cfg env opts nodeID ca k1 c1 d ps"
proof -
  let ?i = "mk_identity (node_principal opts nodeID) (ca_Cert ca) c1 k1"
  have load: "LoadNodeIdentity C (cf_dataDir cfg) (me_Now env) s = (Inr ?i, s)"
    and ca: "ReadCA C (cf_dataDir cfg) s = (Inr ca, s)" "MeshID ca = id_MeshID ?i"
    and wf: "is_ok (validateLabel (io_MeshID opts))"
    using i env by (auto simp: initialised_def id_MeshID_def mk_identity_def ca_wf_def)
  have "nodeID \<noteq> []" using i by (auto simp: initialised_def id_label.valid_nonempty)
  then have n: "pr_Name (id_Principal ?i) \<noteq> []" "id_MeshID ?i \<noteq> []" "id_MeshID ?i \<noteq> AnyMesh"
    using valid_not_star[OF wf] by (simp_all add: mk_identity_def id_MeshID_def)
  show thesis
  proof (rule meshd_starts[OF h load n ca], goal_cases)
    case (1 d ps)
    then show thesis using that[of d ps] by (simp add: fresh_coordinator_def pair_host_def mk_identity_def)
  qed
qed

text \<open>The administrator's call goes through and leaves one active code.\<close>

definition code_expiry :: "create_request \<Rightarrow> time \<Rightarrow> time" where
  "code_expiry req ne = time_Add ne (if cpr_TtlSeconds req = 0 then DefaultCodeTTL else uint (cpr_TtlSeconds req) * Second)"

lemma admin_call_ok:
  assumes i: "initialised C opts nodeID ca k1 c1 k2 c2 t s" and f: "fresh_coordinator cfg env opts nodeID ca k1 c1 d ps"
  shows "admin_call C d [c2] t = Inr ()"
proof -
  let ?i = "mk_identity (node_principal opts nodeID) (ca_Cert ca) c1 k1"
  have g: "good_leaf C ca (node_principal opts nodeID) k1 t c1" "good_leaf C ca (admin_principal opts) k2 t c2" "ca_wf C ca"
    using i by (auto simp: initialised_def)
  then have ident: "NewIdentity C (ca_Cert ca) c1 k1 t = Inr ?i" by (auto simp: NewIdentity_Inr good_leaf_def)
  have tls: "tls_check_client C (ServerTLS ?i) [c2] t = Inr ()"
    unfolding tls_check_client_iff[OF ident] using g by (auto simp: good_leaf_def eku_ok_def ca_wf_def)
  have "PrincipalFromCert c2 = Inr (admin_principal opts)"
    using g(2) pki_verify.verify_principal unfolding good_leaf_def by blast
  then have "PeerPrincipal (Some (TLSInfo [c2])) = Some (admin_principal opts)" by (simp add: PeerPrincipal_def)
  then have "role_check AdminServicePrefix [RoleAdmin] (Some (TLSInfo [c2])) CreatePairingCode_FullMethodName = Inr ()"
    by (simp add: role_check_def)
  then show ?thesis using f tls by (simp add: admin_call_def fresh_coordinator_def transport_NewServer_def)
qed

lemma admin_creates:
  assumes i: "initialised C opts nodeID ca k1 c1 k2 c2 t s" and f: "fresh_coordinator cfg env opts nodeID ca k1 c1 d ps"
    and ttl: "uint (cpr_TtlSeconds req) \<le> 600"
  shows "daemon_step C (InCreate [c2] t req (Some n) ne ng) d =
    (OutCreate (Inr \<lparr>cps_Code = pad_decimal CodeDigits n, cps_ExpiresAt = code_expiry req ne,
                     cps_PairAddr = JoinHostPort (pair_host cfg env) (Itoa (cf_pairPort cfg))\<rparr>),
     d\<lparr>dm_Pairing := Some (ps\<lparr>ps_Pairer := (ps_Pairer ps)\<lparr>pa_codes := [(pad_decimal CodeDigits n, code_expiry req ne)]\<rparr>\<rparr>)\<rparr>)"
proof -
  let ?p = "ps_Pairer ps" let ?a = "NewAdmin (JoinHostPort (pair_host cfg env) (Itoa (cf_pairPort cfg)))"
  let ?secs = "uint (cpr_TtlSeconds req)"
  have p: "gcLocked ng ?p = ?p" "pa_codes ?p = []" using f by (simp_all add: fresh_coordinator_def gcLocked_def)
  have z: "?secs * Second \<le> 0 \<longleftrightarrow> cpr_TtlSeconds req = 0"
    using uint_ge_0[of "cpr_TtlSeconds req"] by (auto simp: Second_def mult_le_0_iff uint_0_iff)
  have "CreatePairingCode ?a (Some n) ne ng (Some (TLSInfo [c2])) req ?p =
      (Inr \<lparr>cps_Code = pad_decimal CodeDigits n, cps_ExpiresAt = code_expiry req ne,
            cps_PairAddr = JoinHostPort (pair_host cfg env) (Itoa (cf_pairPort cfg))\<rparr>,
       ?p\<lparr>pa_codes := [(pad_decimal CodeDigits n, code_expiry req ne)]\<rparr>)"
    using ttl by (simp add: CreatePairingCode_def Let_def ttl_no_overflow ttl_too_long Issue_def GenerateCode_def p z NewAdmin_def
        code_expiry_def)
  then show ?thesis
    using f admin_call_ok[OF i f] by (simp add: daemon_step_def serve_create_def server_Pairer_def fresh_coordinator_def)
qed

lemma ttl_seconds_bound:
  assumes "0 \<le> d" "d \<le> 600 * Second"
  shows "uint (ttl_seconds conv d) \<le> 600"
proof -
  have "0 \<le> d div Second" "d div Second \<le> 600" using assms by (simp_all add: Second_def)
  then have "uint (word_of_int (d div Second) :: 32 word) = d div Second" by (simp add: unsigned_of_int take_bit_int_eq_self)
  then show ?thesis using assms \<open>d div Second \<le> 600\<close> by (simp add: ttl_seconds_def Second_def)
qed

lemma pair_addr_splits:
  assumes "plain_host h" "0 \<le> n"
  shows "SplitHostPort (JoinHostPort h (Itoa n)) = Inr (h, Itoa n)"
  using SplitHostPort_JoinHostPort[OF assms(1) digits_plain] Itoa_nonneg_digits[OF assms(2)] digit_notin
  by (auto simp: is_digit_char_def)

text \<open>The whole command \<^verbatim>\<open>meshctl pair\<close> against that daemon.\<close>

lemma pair_ok:
  assumes i: "initialised C opts nodeID ca k1 c1 k2 c2 t s" and f: "fresh_coordinator cfg env opts nodeID ca k1 c1 d ps"
    and dir: "po_DataDir popts = io_DataDir opts" and tgt: "target (po_Addr popts) = None"
    and ttl: "0 \<le> po_TTL popts" "po_TTL popts \<le> 600 * Second"
  shows "cmdPair C conv target (admin_rpc C d t (Some n) ne ng) popts t s =
    (Inr \<lparr>pout_Code = pad_decimal CodeDigits n, pout_ValidFor = Duration_Round (po_TTL popts) Second,
          pout_PairAddr = JoinHostPort (pair_host cfg env) (Itoa (cf_pairPort cfg))\<rparr>, s)"
proof -
  let ?np = "node_principal opts nodeID" let ?adm = "mk_identity (admin_principal opts) (ca_Cert ca) c2 k2"
  let ?conn = "\<lparr>gc_Addr = po_Addr popts, gc_TLS = ClientTLS ?adm nodeID,
     gc_Keepalive = \<lparr>ka_Time = 30 * Second, ka_Timeout = 10 * Second, ka_PermitWithoutStream = True\<rparr>\<rparr>"
  have g: "good_leaf C ca ?np k1 t c1" "good_leaf C ca (admin_principal opts) k2 t c2" "ca_wf C ca"
    using i by (auto simp: initialised_def)
  have ident: "NewIdentity C (ca_Cert ca) c2 k2 t = Inr ?adm" using g(2) by (auto simp: NewIdentity_Inr good_leaf_def)
  have tls: "tls_check_server C (ClientTLS ?adm nodeID) [c1] t = Inr ()"
    unfolding tls_check_server_iff[OF ident] using g by (auto simp: good_leaf_def eku_ok_def ca_wf_def)
  have certs: "map tc_Leaf (tls_Certificates (gs_TLS (dm_Server d))) = [c1]" "map tc_Leaf (tls_Certificates (gc_TLS ?conn)) = [c2]"
    using f by (simp_all add: fresh_coordinator_def transport_NewServer_def ServerTLS_def ClientTLS_def mk_identity_def)
  have "uint (ttl_seconds conv (po_TTL popts)) \<le> 600" by (rule ttl_seconds_bound[OF ttl])
  then have rpc: "admin_rpc C d t (Some n) ne ng ?conn \<lparr>cpr_TtlSeconds = ttl_seconds conv (po_TTL popts)\<rparr> =
      Inr \<lparr>cps_Code = pad_decimal CodeDigits n, cps_ExpiresAt = code_expiry \<lparr>cpr_TtlSeconds = ttl_seconds conv (po_TTL popts)\<rparr> ne,
           cps_PairAddr = JoinHostPort (pair_host cfg env) (Itoa (cf_pairPort cfg))\<rparr>"
    unfolding admin_rpc_def certs using admin_creates[OF i f] tls by simp
  have "PrincipalFromCert c1 = Inr ?np" using g(1) pki_verify.verify_principal unfolding good_leaf_def by blast
  moreover have "Dial target ?adm (po_Addr popts) nodeID = Inr ?conn" using tgt by (simp add: Dial_def)
  ultimately show ?thesis
    using i rpc dir by (simp add: cmdPair_def initialised_def io_then_def io_err_def)
qed

section \<open>\<^verbatim>\<open>meshctl join\<close> on another machine\<close>

definition with_code :: "pairing_server \<Rightarrow> string \<Rightarrow> time \<Rightarrow> pairing_server" where
  "with_code ps code exp = ps\<lparr>ps_Pairer := (ps_Pairer ps)\<lparr>pa_codes := [(code, exp)]\<rparr>\<rparr>"

text \<open>A directory for a new node, a chosen id, and working randomness.\<close>

definition joiner_ready :: "join_options \<Rightarrow> join_inputs \<Rightarrow> fs \<Rightarrow> bool" where
  "joiner_ready jo ji s \<longleftrightarrow> fs_quiet s \<and>
     (\<forall>n \<in> {nodeIDFile, CACertFile, NodeCertFile, NodeKeyFile}. fs_files s (jo_DataDir jo, n) = None) \<and>
     jo_NodeID jo \<noteq> [] \<and> is_ok (Validate (jo_NodeID jo)) \<and>
     (\<exists>buf. in_Random (ji_Id ji) = Some buf \<and> length buf = 3) \<and> ji_Key ji \<noteq> None"

text \<open>Coordinator inputs of the right size, and both calls before the code and the session expire.\<close>

definition join_timely :: "server_inputs \<Rightarrow> time \<Rightarrow> time \<Rightarrow> bool" where
  "join_timely sinp exp t1 \<longleftrightarrow> length (si_id sinp) = SessionIDLen \<and> length (si_salt sinp) = SaltLen \<and>
     si_now_gc sinp \<le> exp \<and> ce_now_gc (si_env sinp) \<le> exp \<and> ce_now_gc (si_env sinp) \<le> si_now_exp sinp + DefaultSessionTTL \<and>
     (\<forall>xs. set (ce_order (si_env sinp) xs) = set xs) \<and> clock_ok (ce_now_sign (si_env sinp)) \<and> ce_serial (si_env sinp) \<noteq> None \<and>
     ce_now_sign (si_env sinp) - backdate \<le> t1 \<and> t1 + Second \<le> ce_now_sign (si_env sinp) + DefaultNodeCertTTL"

lemma coordinator_honest:
  assumes i: "initialised C opts nodeID ca k1 c1 k2 c2 t s" and f: "fresh_coordinator cfg env opts nodeID ca k1 c1 d ps"
    and n: "n < codeSpace" and tm: "join_timely sinp exp t1"
  shows "honest_ready C sinp (with_code ps (pad_decimal CodeDigits n) exp) (pad_decimal CodeDigits n)"
    "no_collision C sinp (with_code ps (pad_decimal CodeDigits n) exp) (pad_decimal CodeDigits n)"
proof -
  let ?c = "pad_decimal CodeDigits n" let ?ps = "with_code ps ?c exp" let ?p = "ps_Pairer ?ps"
  have p: "?p = \<lparr>pa_ca = ca, pa_serverCert = c1, pa_nodeTTL = DefaultNodeCertTTL, pa_codes = [(?c, exp)], pa_sessions = [],
      pa_failures = []\<rparr>" "ps_CA ?ps = ca" "id_Cert (ps_Identity ?ps) = c1"
    using f by (simp_all add: fresh_coordinator_def with_code_def mk_identity_def)
  have "pairer_inv ?p" using GenerateCode_format[OF n] by (simp add: p pairer_inv_def code_ok_def go_time)
  moreover have "{sid. session_at (si_now_gc sinp) ?p sid \<noteq> None} = {}" by (simp add: p session_at_def)
  moreover have "code_at (si_now_gc sinp) ?p ?c" "code_at (ce_now_gc (si_env sinp)) ?p ?c"
    using tm by (simp_all add: p code_at_def join_timely_def)
  moreover have "recent_failures (si_now_gc sinp) ?p < maxFailuresPerMin" by (simp add: p recent_failures_def maxFailuresPerMin_def)
  moreover have "Second \<le> pa_nodeTTL ?p" "pa_nodeTTL ?p \<le> 20 * 365 * 24 * Hour" by (simp_all add: p go_time)
  moreover have "(0::nat) < maxSessions" by (simp add: maxSessions_def)
  ultimately show "honest_ready C sinp ?ps ?c"
    unfolding honest_ready_def using i tm p by (auto simp: initialised_def join_timely_def)
  show "no_collision C sinp ?ps ?c" by (auto simp: no_collision_def p code_at_def split: if_splits)
qed

lemma joiner_resolves:
  assumes "joiner_ready jo ji s"
  obtains s1 where "resolveNodeID (jo_DataDir jo) (jo_NodeID jo) (jo_Force jo) (ji_Id ji) s = (Inr (jo_NodeID jo), s1)" "fs_quiet s1"
    "\<forall>n \<in> {CACertFile, NodeCertFile, NodeKeyFile}. fs_files s1 (jo_DataDir jo, n) = None"
    "os_Stat (jo_DataDir jo, NodeKeyFile) s = (Inl OsErrNotExist, s)"
proof -
  let ?dir = "jo_DataDir jo"
  have q: "fs_quiet s" and none: "fs_files s (?dir, nodeIDFile) = None" and flag: "jo_NodeID jo = [] \<or> is_ok (Validate (jo_NodeID jo))"
    using assms by (auto simp: joiner_ready_def)
  obtain buf where rnd: "in_Random (ji_Id ji) = Some buf" "length buf = 3" using assms by (auto simp: joiner_ready_def)
  obtain nodeID s1 where r: "resolveNodeID ?dir (jo_NodeID jo) (jo_Force jo) (ji_Id ji) s = (Inr nodeID, s1)"
    "keeps {(?dir, nodeIDFile)} s s1" "fs_quiet s1" "jo_NodeID jo \<noteq> [] \<longrightarrow> nodeID = jo_NodeID jo"
    by (rule resolveNodeID_fresh[OF q none flag rnd])
  have "fs_files s1 (?dir, n) = None" if "n \<in> {CACertFile, NodeCertFile, NodeKeyFile}" for n
  proof -
    have "n \<noteq> nodeIDFile" using that pki_names by auto
    then show ?thesis using keeps_file[OF r(2), of "(?dir, n)"] assms that by (auto simp: joiner_ready_def)
  qed
  moreover have "os_Stat (?dir, NodeKeyFile) s = (Inl OsErrNotExist, s)"
    using q assms by (simp add: os_Stat_def os_fault_def joiner_ready_def)
  ultimately show thesis using that r assms by (auto simp: joiner_ready_def)
qed

lemma join_ok:
  assumes i: "initialised C opts nodeID ca k1 c1 k2 c2 (ji_Now1 ji) s" "initialised C opts nodeID ca k1 c1 k2 c2 (ji_Now2 ji) s"
    and f: "fresh_coordinator cfg env opts nodeID ca k1 c1 d ps" and port: "0 \<le> cf_grpcPort cfg"
    and n: "n < codeSpace" and tm: "join_timely sinp exp (ji_Now1 ji)" and jr: "joiner_ready jo ji s2"
    and jo: "jo_Code jo = pad_decimal CodeDigits n" "jo_Coordinator jo \<noteq> []" "SplitHostPort (jo_Coordinator jo) = Inr (host, hp)"
    and net: "ji_Net ji (jo_Coordinator jo) = honest_rpc C sinp (jo_NodeID jo) (with_code ps (pad_decimal CodeDigits n) exp)"
  shows "\<exists>jout s3 ident. cmdJoin C jo ji s2 = (Inr jout, s3) \<and> jout_MeshID jout = io_MeshID opts \<and> jout_NodeID jout = jo_NodeID jo \<and>
    jout_Coordinator jout = nodeID \<and> jout_CoordinatorAddr jout = JoinHostPort host (Itoa (cf_grpcPort cfg)) \<and>
    LoadNodeIdentity C (jo_DataDir jo) (ji_Now1 ji) s3 = (Inr ident, s3) \<and>
    id_Principal ident = \<lparr>pr_MeshID = io_MeshID opts, pr_Role = RoleNode, pr_Name = jo_NodeID jo\<rparr>"
proof -
  let ?ps = "with_code ps (pad_decimal CodeDigits n) exp" let ?id = "jo_NodeID jo"
  obtain x where x: "ji_Key ji = Some x" using jr by (auto simp: joiner_ready_def)
  have C: "crypto_ok C" using i(1) by (simp add: initialised_def)
  have sel: "ps_CA ?ps = ca" "id_Cert (ps_Identity ?ps) = c1" "id_Principal (ps_Identity ?ps) = node_principal opts nodeID"
    "ps_GRPCPort ?ps = cf_grpcPort cfg" "pa_nodeTTL (ps_Pairer ?ps) = DefaultNodeCertTTL" "MeshID ca = io_MeshID opts"
    using f i(1) by (auto simp: fresh_coordinator_def with_code_def mk_identity_def initialised_def)
  note h = coordinator_honest[OF i(1) f n tm]
  have name: "is_ok (validateLabel ?id)" using jr by (simp add: joiner_ready_def id_label.valid_iff pki_label.valid_iff)
  have ver: "VerifyAgainst C (ca_Cert ca) c1 (ji_Now2 ji) = Inr (node_principal opts nodeID)" "time_valid (ji_Now1 ji) (ca_Cert ca)"
    using i by (auto simp: initialised_def good_leaf_def)
  obtain res where res: "Join C (ji_Net ji (jo_Coordinator jo)) (jo_Coordinator jo) (jo_Code jo) ?id (ji_Key ji) (ji_Entropy ji)
      (ji_Now1 ji) (ji_Now2 ji) = Inr res" "bd_CACert (jr_Bundle res) = ca_Cert ca" "bd_MeshID (jr_Bundle res) = io_MeshID opts"
    "jr_CoordinatorNodeID res = nodeID" "jr_CoordinatorGRPCAddr res = JoinHostPort host (Itoa (cf_grpcPort cfg))"
    using honest_join[OF h name _ _ _ jo(3), unfolded sel principal.select_convs, OF ver(1) refl port _ _ ver(2)] tm
    unfolding net x jo(1) join_timely_def by blast
  obtain s1 where r: "resolveNodeID (jo_DataDir jo) ?id (jo_Force jo) (ji_Id ji) s2 = (Inr ?id, s1)" "fs_quiet s1"
    "\<forall>n \<in> {CACertFile, NodeCertFile, NodeKeyFile}. fs_files s1 (jo_DataDir jo, n) = None"
    "os_Stat (jo_DataDir jo, NodeKeyFile) s2 = (Inl OsErrNotExist, s2)"
    by (rule joiner_resolves[OF jr])
  have free: "n \<in> {CACertFile, NodeCertFile, NodeKeyFile} \<Longrightarrow> fs_files s1 (jo_DataDir jo, n) = None \<or> jo_Force jo" for n
    using r(3) by auto
  obtain s3 where p: "Persist C res (jo_DataDir jo) (jo_Force jo) s1 = (Inr (), s3)"
    using Persist_succeeds[OF C r(2), of "jo_DataDir jo" "jo_Force jo" res] free by metis
  have "ValidateCodeFormat (jo_Code jo) = Inr ()" using GenerateCode_format[OF n] jo(1) by (auto simp: is_ok_iff)
  then have "cmdJoin C jo ji s2 = (Inr \<lparr>jout_MeshID = io_MeshID opts, jout_NodeID = ?id, jout_Coordinator = nodeID,
      jout_CoordinatorAddr = JoinHostPort host (Itoa (cf_grpcPort cfg)), jout_CAFingerprint = Fingerprint (ca_Cert ca),
      jout_NodeExpires = NotAfter (bd_NodeCert (jr_Bundle res))\<rparr>, s3)"
    using r(1,4) res p jo(2) by (simp add: cmdJoin_def io_then_def)
  moreover obtain ident where "LoadNodeIdentity C (jo_DataDir jo) (ji_Now1 ji) s3 = (Inr ident, s3)"
    "id_Principal ident = \<lparr>pr_MeshID = io_MeshID opts, pr_Role = RoleNode, pr_Name = ?id\<rparr>"
    using Join_stored[OF C res(1) r(2) p] res(3) by auto
  ultimately show ?thesis by simp
qed

section \<open>All the commands in a row\<close>

lemma commands_in_a_row:
  assumes r: "init_ready C opts inp s" and h: "host_ready cfg env" "cf_coordinator cfg" "cf_dataDir cfg = io_DataDir opts"
    and times: "init_time inp (me_Now env)" "init_time inp t" "init_time inp (ji_Now1 ji)" "init_time inp (ji_Now2 ji)"
    and po: "po_DataDir popts = io_DataDir opts" "target (po_Addr popts) = None" "0 \<le> po_TTL popts" "po_TTL popts \<le> 600 * Second"
    and n: "n < codeSpace" and jr: "joiner_ready jo ji s2" and addr: "plain_host (cf_advertiseHost cfg)" "0 \<le> cf_pairPort cfg"
    and tm: "join_timely sinp (code_expiry \<lparr>cpr_TtlSeconds = ttl_seconds conv (po_TTL popts)\<rparr> ne) (ji_Now1 ji)"
  shows "\<exists>out s1 d pout adm ps jout s3 ident.
    cmdInit C opts inp s = (Inr out, s1) \<and> meshd_setup C cfg env s1 = (Inr d, s1) \<and>
    cmdPair C conv target (admin_rpc C d t (Some n) ne ng) popts t s1 = (Inr pout, s1) \<and>
    pout_Code pout = pad_decimal CodeDigits n \<and> pout_PairAddr pout = JoinHostPort (pair_host cfg env) (Itoa (cf_pairPort cfg)) \<and>
    LoadAdminIdentity C (io_DataDir opts) t s1 = (Inr adm, s1) \<and>
    dm_Pairing (admin_after C d t (Some n) ne ng adm \<lparr>cpr_TtlSeconds = ttl_seconds conv (po_TTL popts)\<rparr>) = Some ps \<and>
    cmdJoin C (jo\<lparr>jo_Code := pout_Code pout, jo_Coordinator := pout_PairAddr pout\<rparr>)
      (ji\<lparr>ji_Net := (\<lambda>_. honest_rpc C sinp (jo_NodeID jo) ps)\<rparr>) s2 = (Inr jout, s3) \<and>
    jout_MeshID jout = io_MeshID opts \<and> jout_Coordinator jout = out_NodeID out \<and>
    LoadNodeIdentity C (jo_DataDir jo) (ji_Now1 ji) s3 = (Inr ident, s3) \<and>
    id_Principal ident = \<lparr>pr_MeshID = io_MeshID opts, pr_Role = RoleNode, pr_Name = jo_NodeID jo\<rparr>"
proof (rule cmdInit_result[OF r])
  fix out s1 ca k1 c1 k2 c2
  assume init: "cmdInit C opts inp s = (Inr out, s1)"
    and i: "\<forall>t. init_time inp t \<longrightarrow> initialised C opts (out_NodeID out) ca k1 c1 k2 c2 t s1"
  let ?req = "\<lparr>cpr_TtlSeconds = ttl_seconds conv (po_TTL popts)\<rparr>" and ?code = "pad_decimal CodeDigits n"
  let ?addr = "JoinHostPort (pair_host cfg env) (Itoa (cf_pairPort cfg))" and ?adm = "mk_identity (admin_principal opts) (ca_Cert ca) c2 k2"
  obtain d ps where d: "meshd_setup C cfg env s1 = (Inr d, s1)" "fresh_coordinator cfg env opts (out_NodeID out) ca k1 c1 d ps"
    by (rule initialised_starts[OF _ h refl]) (use i times(1) in auto)
  have it: "initialised C opts (out_NodeID out) ca k1 c1 k2 c2 t s1" using i times(2) by blast
  note pair = pair_ok[where target = target, OF it d(2) po, of conv n ne ng]
  have after: "dm_Pairing (admin_after C d t (Some n) ne ng ?adm ?req) = Some (with_code ps ?code (code_expiry ?req ne))"
    using admin_creates[OF it d(2), of ?req n ne ng] ttl_seconds_bound[OF po(3,4)]
    by (simp add: admin_after_def mk_identity_def with_code_def)
  have split: "SplitHostPort ?addr = Inr (pair_host cfg env, Itoa (cf_pairPort cfg))" by (rule pair_addr_splits[OF pair_host_plain[OF addr(1)] addr(2)])
  have ne: "?addr \<noteq> []" by (simp add: JoinHostPort_def)
  let ?jo = "jo\<lparr>jo_Code := ?code, jo_Coordinator := ?addr\<rparr>"
  let ?ji = "ji\<lparr>ji_Net := (\<lambda>_. honest_rpc C sinp (jo_NodeID jo) (with_code ps ?code (code_expiry ?req ne)))\<rparr>"
  have j: "initialised C opts (out_NodeID out) ca k1 c1 k2 c2 (ji_Now1 ?ji) s1"
    "initialised C opts (out_NodeID out) ca k1 c1 k2 c2 (ji_Now2 ?ji) s1" using i times(3,4) by simp_all
  have "\<exists>jout s3 ident. cmdJoin C ?jo ?ji s2 = (Inr jout, s3) \<and> jout_MeshID jout = io_MeshID opts \<and> jout_NodeID jout = jo_NodeID ?jo \<and>
      jout_Coordinator jout = out_NodeID out \<and> jout_CoordinatorAddr jout = JoinHostPort (pair_host cfg env) (Itoa (cf_grpcPort cfg)) \<and>
      LoadNodeIdentity C (jo_DataDir ?jo) (ji_Now1 ?ji) s3 = (Inr ident, s3) \<and>
      id_Principal ident = \<lparr>pr_MeshID = io_MeshID opts, pr_Role = RoleNode, pr_Name = jo_NodeID ?jo\<rparr>"
    by (rule join_ok[OF j d(2) _ n, where exp = "code_expiry ?req ne" and sinp = sinp])
      (use tm jr split ne h(1) in \<open>simp_all add: joiner_ready_def host_ready_def\<close>)
  moreover have "LoadAdminIdentity C (io_DataDir opts) t s1 = (Inr ?adm, s1)" using it by (simp add: initialised_def)
  ultimately show ?thesis using init d(1) pair after by fastforce
qed

text \<open>The printed code and address are words of their own.\<close>

lemma printed_words:
  assumes "CHR '' '' \<notin> set (cf_advertiseHost cfg)" "0 \<le> cf_pairPort cfg"
  shows "plain_word (pad_decimal CodeDigits n)" "plain_word (JoinHostPort (pair_host cfg env) (Itoa (cf_pairPort cfg)))"
proof -
  have "CHR '' '' \<notin> set (pair_host cfg env)" using assms(1) lanIPv4_no_blank by (simp add: pair_host_def)
  moreover have "CHR '' '' \<notin> set (Itoa (cf_pairPort cfg))" using digits_no_blank[OF Itoa_nonneg_digits[OF assms(2)]] .
  ultimately show "plain_word (JoinHostPort (pair_host cfg env) (Itoa (cf_pairPort cfg)))" by (simp add: plain_word_def JoinHostPort_def)
  show "plain_word (pad_decimal CodeDigits n)"
    using digits_no_blank[OF pad_decimal_all_digits] by (simp add: plain_word_def) (simp add: pad_decimal_def)
qed

section \<open>A concrete host\<close>

definition demo_meshd :: meshd_config where
  "demo_meshd = \<lparr>cf_dataDir = ''e'', cf_grpcPort = 7443, cf_pairPort = 7444, cf_coordinator = True,
     cf_advertiseHost = ''10.0.0.5'', cf_ifaces = [], cf_logLevel = ''info'', cf_logFormat = ''json''\<rparr>"

definition demo_iface :: net_iface where
  "demo_iface = \<lparr>if_Name = ''en0'', if_Flags = 17, if_Addrs = Inr [[10, 0, 0, 5]]\<rparr>"

definition demo_env_meshd :: meshd_env where
  "demo_env_meshd = \<lparr>me_Now = demo_now, me_Host = Inr [demo_iface],
     me_Listen = (\<lambda>p. if 0 \<le> p \<and> p \<le> 65535 then None else Some (Msg ''invalid port'')),
     me_Zeroconf = \<lparr>zc_Interfaces = Inr [demo_iface], zc_Register = (\<lambda>_ _ _ _ _ _. None), zc_NewResolver = (\<lambda>_. None),
       zc_Browse = (\<lambda>_ _. None)\<rparr>, me_Env = [], me_Home = Some ''/root''\<rparr>"

lemma demo_host_ready: "host_ready demo_meshd demo_env_meshd"
proof -
  have l: "is_ok (newLogger ''info'' ''json'')" "TrimSpace [] = []" by code_simp+
  have "DefaultInterfaces (Inr [demo_iface]) = Inr [demo_iface]" by code_simp
  then show ?thesis
    using l by (simp add: host_ready_def demo_meshd_def demo_env_meshd_def parseIfaces_def)
qed

lemma demo_listen_ok: "listen_ok demo_env_meshd"
  by (simp add: listen_ok_def demo_env_meshd_def)

lemma demo_coordinator_runs:
  obtains s1 d where "meshd_setup demo_crypto demo_meshd demo_env_meshd s1 = (Inr d, s1)" "id_MeshID (dm_Identity d) = ''home''"
proof (rule cmdInit_result[OF demo_init_ready], goal_cases)
  case (1 out s' ca k1 c1 k2 c2)
  then have i: "initialised demo_crypto demo_opts (out_NodeID out) ca k1 c1 k2 c2 demo_now s'" using demo_init_time by blast
  show thesis
    by (rule initialised_starts[OF i demo_host_ready])
      (use that in \<open>auto simp: demo_meshd_def demo_opts_def demo_env_meshd_def fresh_coordinator_def mk_identity_def id_MeshID_def\<close>)
qed

text \<open>The same coordinator with the certificate of its administrator.\<close>

lemma demo_admin_runs:
  obtains s1 d c where "meshd_setup demo_crypto demo_meshd demo_env_meshd s1 = (Inr d, s1)" "dm_Pairing d \<noteq> None"
    "admin_call demo_crypto d [c] demo_now = Inr ()"
proof (rule cmdInit_result[OF demo_init_ready], goal_cases)
  case (1 out s' ca k1 c1 k2 c2)
  then have i: "initialised demo_crypto demo_opts (out_NodeID out) ca k1 c1 k2 c2 demo_now s'" using demo_init_time by blast
  show thesis
  proof (rule initialised_starts[OF i demo_host_ready], goal_cases)
    case (4 d ps)
    then show thesis using that[OF 4(1)] admin_call_ok[OF i 4(2)] by (auto simp: fresh_coordinator_def)
  qed (simp_all add: demo_meshd_def demo_opts_def demo_env_meshd_def)
qed

text \<open>A joiner for the coordinator above.\<close>

definition demo_pair_opts :: pair_options where
  "demo_pair_opts = \<lparr>po_DataDir = ''e'', po_Addr = ''127.0.0.1:7443'', po_TTL = 60 * Second\<rparr>"

definition demo_join_opts :: join_options where
  "demo_join_opts = \<lparr>jo_DataDir = ''f'', jo_Code = [], jo_Coordinator = [], jo_NodeID = ''desk'', jo_Force = False\<rparr>"

definition demo_join_inputs :: join_inputs where
  "demo_join_inputs = \<lparr>ji_Id = \<lparr>in_Random = Some [1, 2, 3], in_Host = []\<rparr>, ji_Zeroconf = me_Zeroconf demo_env_meshd, ji_Events = [],
     ji_Net = (\<lambda>_. \<lparr>rpc_NewClient = (\<lambda>_. None), rpc_Begin = (\<lambda>_. Inl (Msg ''unreachable'')),
       rpc_Complete = (\<lambda>_. Inl (Msg ''unreachable''))\<rparr>),
     ji_Key = Some 11, ji_Entropy = [], ji_Now1 = demo_now, ji_Now2 = demo_now\<rparr>"

definition demo_ctl :: ctl_inputs where
  "demo_ctl = \<lparr>ci_Env = [], ci_Home = Some ''/root'', ci_Init = demo_init, ci_Join = demo_join_inputs, ci_Conv = (\<lambda>_. 0),
     ci_Target = (\<lambda>_. None), ci_Create = (\<lambda>_ _. Inl (Msg ''unreachable'')), ci_Now = demo_now\<rparr>"

lemma demo_joiner_ready: "joiner_ready demo_join_opts demo_join_inputs demo_fs"
proof -
  have "Validate ''desk'' = Inr ()" by (simp add: Validate_def validNodeID_iff label_char_ord)
  then show ?thesis using demo_fs_quiet unfolding joiner_ready_def demo_join_opts_def demo_join_inputs_def
    by simp (simp add: demo_fs_def)
qed

lemma demo_timely: "join_timely demo_inp (code_expiry \<lparr>cpr_TtlSeconds = ttl_seconds conv (60 * Second)\<rparr> demo_now) demo_now"
proof -
  have "ttl_seconds conv (60 * Second) = 60" by (simp add: ttl_seconds_def Second_def)
  then show ?thesis using demo_clock
    by (simp add: join_timely_def demo_inp_def demo_env_def code_expiry_def go_time demo_sid_def SessionIDLen_def SaltLen_def)
qed

end
