(* ===== verification/Channel_Binding.thy ===== *)
theory Channel_Binding
  imports Pairing_Client
begin

text \<open>
  A relay between the joiner and the coordinator, with a TLS certificate of its own. The joiner's MAC
  covers the certificate of the connection it sees, so that it is worth nothing on another connection:
  if the coordinator accepts it, the certificate was the coordinator's own. What is asked of SHA-256 is
  said for the strings at hand: that three pairs of strings, which the two ends hash, are no
  collisions. The joiner does not check the length of the session id it is given, and without that
  the messages are not apart. The last section is the other direction: the MAC of the answer.
\<close>

section \<open>What the joiner sends\<close>

definition join_request :: "crypto \<Rightarrow> string \<Rightarrow> begin_response \<Rightarrow> certificate \<Rightarrow> bytes \<Rightarrow> complete_request" where
  "join_request C code resp cert csr =
     \<lparr>crq_SessionId = brs_SessionId resp, crq_CsrDer = csr,
      crq_ClientMac = ClientMAC (DeriveKey C code (brs_Salt resp)) (brs_SessionId resp) (CertHash cert) csr\<rparr>"

text \<open>This request is all that \<^verbatim>\<open>Join\<close> says in its second call.\<close>

lemma Join_sends:
  assumes "NewKey d = Inr key" "NewCSR C nodeID key ent = Inr csr" "rpc_Begin net \<lparr>brq_NodeId = nodeID\<rparr> = Inr (resp, peer)"
    "certFromPeer peer = Inr cert" "rpc_Complete net (join_request C code resp cert csr) = rpc_Complete net' (join_request C code resp cert csr)"
    "rpc_NewClient net' = rpc_NewClient net" "rpc_Begin net' = rpc_Begin net"
  shows "Join C net addr code nodeID d ent t1 t2 = Join C net' addr code nodeID d ent t1 t2"
  using assms by (simp add: Join_def join_request_def Let_def)

section \<open>HMAC and collisions\<close>

definition hmac_inner :: "bytes \<Rightarrow> bytes \<Rightarrow> bytes" where
  "hmac_inner k m = map (\<lambda>b. b XOR 0x36) (hmac_key k) @ m"

definition hmac_outer :: "bytes \<Rightarrow> bytes \<Rightarrow> bytes" where
  "hmac_outer k m = map (\<lambda>b. b XOR 0x5c) (hmac_key k) @ Sum256 (hmac_inner k m)"

lemma HMAC_outer: "HMAC_SHA256 k m = Sum256 (hmac_outer k m)"
  by (simp add: HMAC_SHA256_def hmac_outer_def hmac_inner_def)

definition no_clash :: "bytes \<Rightarrow> bytes \<Rightarrow> bool" where
  "no_clash a b \<longleftrightarrow> (Sum256 a = Sum256 b \<longrightarrow> a = b)"

lemma HMAC_message:
  assumes "HMAC_SHA256 k m = HMAC_SHA256 k' m'" "no_clash (hmac_outer k m) (hmac_outer k' m')" "no_clash (hmac_inner k m) (hmac_inner k' m')"
  shows "m = m'"
proof -
  have "hmac_outer k m = hmac_outer k' m'" using assms(1,2) by (simp add: HMAC_outer no_clash_def)
  then have "Sum256 (hmac_inner k m) = Sum256 (hmac_inner k' m')"
    by (simp add: hmac_outer_def append_eq_append_conv length_hmac_key)
  then have "hmac_inner k m = hmac_inner k' m'" using assms(3) by (simp add: no_clash_def)
  then show ?thesis by (simp add: hmac_inner_def append_eq_append_conv length_hmac_key)
qed

section \<open>The relay\<close>

lemma claim_proves_code:
  assumes "pairer_inv p" "\<And>xs. set (ce_order env xs) = set xs" "complete_claim C p sid csr mac env = (Inr (s, c, k), p')"
  shows "ss_ID s = sid \<and> length sid = SessionIDLen \<and> ClientMAC (DeriveKey C c (ss_Salt s)) sid (CertHash (pa_serverCert p)) csr = mac"
proof -
  have "Inr (s, c, k) \<in> complete_outcomes C (ce_now_gc env) p sid csr mac"
    using complete_claim_outcome[OF assms(1,2), of C sid csr mac] assms(3) by simp
  then have s: "session_at (ce_now_gc env) p sid = Some s"
    and m: "ClientMAC (DeriveKey C c (ss_Salt s)) (ss_ID s) (CertHash (pa_serverCert p)) csr = mac"
    by (auto simp: complete_outcomes_def proves_code_def split: option.splits if_splits)
  have "map_of (pa_sessions p) sid = Some s" using s by (auto simp: session_at_def split: option.splits if_splits)
  then have "session_ok (sid, s)" using assms(1) map_of_SomeD by (fastforce simp: pairer_inv_def list_all_iff)
  then show ?thesis using m by (simp add: session_ok_def)
qed

text \<open>The strings under two MACs are no collisions, on either level of HMAC.\<close>

definition macs_apart :: "bytes \<Rightarrow> bytes \<Rightarrow> bytes \<Rightarrow> bytes \<Rightarrow> bool" where
  "macs_apart k m k' m' \<longleftrightarrow> no_clash (hmac_outer k m) (hmac_outer k' m') \<and> no_clash (hmac_inner k m) (hmac_inner k' m')"

lemma macs_apart_message: "HMAC_SHA256 k m = HMAC_SHA256 k' m' \<Longrightarrow> macs_apart k m k' m' \<Longrightarrow> m = m'"
  using HMAC_message by (simp add: macs_apart_def)



text \<open>
  C21. A relay can spend the code. The joiner takes any string for a session id. A relay with a
  certificate of its own opens a session at the coordinator and tells the joiner a session id that goes
  on with the hash of the coordinator's certificate and any bytes \<open>x\<close>. The joiner's MAC is then one for
  the coordinator's session and certificate and for a certificate request that begins with \<open>x\<close>: the
  coordinator accepts it and deletes the code. (It issues nothing unless those bytes are a signed request.)
\<close>

theorem relay_spends_code:
  assumes inv: "pairer_inv p" and order: "\<And>xs. set (ce_order env xs) = set xs"
    and open_session: "session_at (ce_now_gc env) p sid = Some s" "recent_failures (ce_now_gc env) p < maxFailuresPerMin"
    and code: "code_at (ce_now_gc env) p code"
    and told: "brs_SessionId resp = sid @ CertHash (pa_serverCert p) @ x" "brs_Salt resp = ss_Salt s"
  shows "\<exists>c k p'. complete_claim C p sid (x @ CertHash cert @ csr) (crq_ClientMac (join_request C code resp cert csr)) env = (Inr (s, c, k), p') \<and>
    code_at (ce_now_gc env) p c \<and> map_of (pa_codes p') c = None"
proof -
  let ?csr = "x @ CertHash cert @ csr" and ?mac = "crq_ClientMac (join_request C code resp cert csr)" and ?now = "ce_now_gc env"
  have sid: "ss_ID s = sid"
  proof -
    have "map_of (pa_sessions p) sid = Some s" using open_session(1) by (auto simp: session_at_def split: option.splits if_splits)
    then have "session_ok (sid, s)" using inv map_of_SomeD by (fastforce simp: pairer_inv_def list_all_iff)
    then show ?thesis by (simp add: session_ok_def)
  qed
  have "proves_code C p s ?csr ?mac code"
    using sid told by (simp add: proves_code_def join_request_def ClientMAC_def client_message_def)
  then have out: "complete_outcomes C ?now p sid ?csr ?mac =
      (\<lambda>c. Inr (s, c, DeriveKey C c (ss_Salt s))) ` {c. code_at ?now p c \<and> proves_code C p s ?csr ?mac c}"
    using open_session code by (auto simp: complete_outcomes_def)
  obtain r p' where claim: "complete_claim C p sid ?csr ?mac env = (r, p')" by fastforce
  then obtain c k where r: "r = Inr (s, c, k)" "code_at ?now p c"
    using complete_claim_outcome[OF inv order, of C sid ?csr ?mac] out by auto
  have "pa_codes p' = AList.delete c (pa_codes (gcLocked ?now p))" using complete_claim_state[OF claim] r(1) by simp
  then have "map_of (pa_codes p') c = None" by (simp add: delete_conv' del: gcLocked_sel)
  then show ?thesis using claim r by blast
qed

theorem relay_spends_code_witness:
  "\<exists>resp cert c k p'. Raw cert \<noteq> Raw (pa_serverCert demo_ready) \<and>
     complete_claim demo_crypto demo_ready demo_sid ([] @ CertHash cert @ []) (crq_ClientMac (join_request demo_crypto demo_code resp cert [])) demo_env =
       (Inr (demo_session, c, k), p') \<and> map_of (pa_codes p') c = None"
proof -
  let ?resp = "\<lparr>brs_SessionId = demo_sid @ CertHash (pa_serverCert demo_ready) @ [], brs_Salt = ss_Salt demo_session, brs_MeshId = ''home'',
     brs_ExpiresAt = demo_now\<rparr>"
  let ?cert = "(ca_Cert demo_ca)\<lparr>Raw := 0 # Raw (pa_serverCert demo_ready)\<rparr>"
  have order: "\<And>xs. set (ce_order demo_env xs) = set xs" and now: "ce_now_gc demo_env = demo_now" by (simp_all add: demo_env_def)
  have "recent_failures demo_now demo_ready < maxFailuresPerMin"
    by (simp add: recent_failures_def demo_ready_def demo_pairer_def maxFailuresPerMin_def)
  then have "\<exists>c k p'. complete_claim demo_crypto demo_ready demo_sid ([] @ CertHash ?cert @ [])
      (crq_ClientMac (join_request demo_crypto demo_code ?resp ?cert [])) demo_env = (Inr (demo_session, c, k), p') \<and> map_of (pa_codes p') c = None"
    using relay_spends_code[OF demo_ready_inv order, unfolded now, OF demo_ready_session, of demo_code ?resp "[]" demo_crypto ?cert "[]"]
      demo_ready_code by auto
  moreover have "Raw ?cert \<noteq> Raw (pa_serverCert demo_ready)" by simp
  ultimately show ?thesis by blast
qed

section \<open>The other direction\<close>

text \<open>
  DER encodings carry their length, and \<^verbatim>\<open>x509.ParseCertificate\<close> refuses trailing data: of two
  certificates neither is a proper beginning of the other.
\<close>

definition framed :: "bytes \<Rightarrow> bytes \<Rightarrow> bool" where
  "framed a b \<longleftrightarrow> (\<forall>x y. a @ x = b @ y \<longrightarrow> a = b)"

lemma Sign_parse: "Sign C ca req r now ent = Inr c \<Longrightarrow> ParseCertificate C (Raw c) = Inr c"
  using ParseCertificate_Raw by (fastforce simp: Sign_def go_result split: if_splits option.splits)

lemma issue_parse: "complete_issue C ca ttl s key csr r now ent = Inr b \<Longrightarrow> ParseCertificate C (Raw (bd_NodeCert b)) = Inr (bd_NodeCert b)"
  by (elim complete_issue_Inr) (auto simp: SignCSR_Inr dest: Sign_parse)

lemma Join_parses: "Join C net addr code nodeID d ent t1 t2 = Inr res \<Longrightarrow>
    ParseCertificate C (Raw (bd_NodeCert (jr_Bundle res))) = Inr (bd_NodeCert (jr_Bundle res))"
  by (elim Join_Inr) (metis ParseCertificate_Raw)

text \<open>
  C6. The joiner takes what the coordinator issued. Let a joiner accept an answer with a MAC that the
  coordinator made when it completed some session, however the answer reached it. Unless one of two
  pairs of strings that the two ends hash is a collision of SHA-256, the session is the joiner's own, the node
  certificate is the one the coordinator issued there, and the CA certificate is the coordinator's.
\<close>

theorem bundle_authentic:
  assumes join: "Join C net addr code nodeID d ent t1 t2 = Inr res" and told: "rpc_Begin net \<lparr>brq_NodeId = nodeID\<rparr> = Inr (br, pr)"
    and inv: "pairer_inv p" and order: "\<And>xs. set (ce_order env xs) = set xs"
    and claim: "complete_claim C p sid csr mac env = (Inr (s, c, k), p')" and issue: "fst (Complete C p sid csr mac env) = Inr b"
    and same: "bd_ServerMAC (jr_Bundle res) = bd_ServerMAC b"
    and len: "length (brs_SessionId br) = SessionIDLen"
    and der: "framed (Raw (bd_CACert (jr_Bundle res))) (Raw (ca_Cert (pa_ca p)))"
    and macs: "macs_apart (DeriveKey C code (brs_Salt br))
        (server_message (brs_SessionId br) (Raw (bd_CACert (jr_Bundle res))) (Raw (bd_NodeCert (jr_Bundle res))))
      k (server_message sid (Raw (ca_Cert (pa_ca p))) (Raw (bd_NodeCert b)))"
  shows "brs_SessionId br = sid \<and> Raw (bd_CACert (jr_Bundle res)) = Raw (ca_Cert (pa_ca p)) \<and> bd_NodeCert (jr_Bundle res) = bd_NodeCert b"
proof -
  let ?B = "jr_Bundle res"
  have i: "complete_issue C (pa_ca p) (pa_nodeTTL p) s k csr (ce_serial env) (ce_now_sign env) (ce_entropy env) = Inr b"
    using issue claim complete_claim_state[OF claim] by (simp add: Complete_def)
  have sid: "ss_ID s = sid" "length sid = SessionIDLen" using claim_proves_code[OF inv order claim] by simp_all
  have "bd_ServerMAC b = ServerMAC k sid (Raw (ca_Cert (pa_ca p))) (Raw (bd_NodeCert b))"
    using i sid(1) by (elim complete_issue_Inr) simp
  moreover have "bd_ServerMAC ?B = ServerMAC (DeriveKey C code (brs_Salt br)) (brs_SessionId br) (Raw (bd_CACert ?B)) (Raw (bd_NodeCert ?B))"
    using join told by (elim Join_Inr) (simp add: VerifyBundle_Inr)
  ultimately have "HMAC_SHA256 (DeriveKey C code (brs_Salt br)) (server_message (brs_SessionId br) (Raw (bd_CACert ?B)) (Raw (bd_NodeCert ?B))) =
      HMAC_SHA256 k (server_message sid (Raw (ca_Cert (pa_ca p))) (Raw (bd_NodeCert b)))"
    using same by (simp add: ServerMAC_def)
  then have "server_message (brs_SessionId br) (Raw (bd_CACert ?B)) (Raw (bd_NodeCert ?B)) =
      server_message sid (Raw (ca_Cert (pa_ca p))) (Raw (bd_NodeCert b))"
    using macs by (rule macs_apart_message)
  then have m: "brs_SessionId br = sid" "Raw (bd_CACert ?B) @ Raw (bd_NodeCert ?B) = Raw (ca_Cert (pa_ca p)) @ Raw (bd_NodeCert b)"
    using len sid(2) by (simp_all add: server_message_def append_eq_append_conv)
  then have "Raw (bd_CACert ?B) = Raw (ca_Cert (pa_ca p))" using der[unfolded framed_def, rule_format, OF m(2)] by simp
  moreover from this m(2) have "Raw (bd_NodeCert ?B) = Raw (bd_NodeCert b)" by simp
  then have "bd_NodeCert ?B = bd_NodeCert b" using Join_parses[OF join] issue_parse[OF i] by (metis sum.inject(2))
  ultimately show ?thesis using m(1) by simp
qed

lemma honest_answer:
  assumes ready: "honest_ready C inp s code" and join: "Join C (honest_rpc C inp nodeID s) addr code nodeID d ent t1 t2 = Inr res"
  shows "\<exists>csr b q'. Complete C (begin_state (ps_Pairer s) (si_now_gc inp) (si_id inp) (honest_session inp)) (si_id inp) csr
      (ClientMAC (DeriveKey C code (si_salt inp)) (si_id inp) (CertHash (id_Cert (ps_Identity s))) csr) (si_env inp) = (Inr b, q') \<and>
    bd_ServerMAC (jr_Bundle res) = bd_ServerMAC b \<and> Raw (bd_CACert (jr_Bundle res)) = Raw (bd_CACert b) \<and>
    Raw (bd_NodeCert (jr_Bundle res)) = Raw (bd_NodeCert b)"
  using join by (elim Join_Inr) (fastforce simp: honest_rpc_def honest_begin_ok[OF ready] honest_peer_def server_Complete_def go_result
      dest!: ParseCertificate_Raw split: prod.splits sum.splits)

theorem bundle_authentic_witness:
  "\<exists>net res p csr mac b. Join demo_crypto net ''10.0.0.5:7444'' demo_code ''desk'' (Some 11) [] demo_now demo_now = Inr res \<and>
     fst (Complete demo_crypto p (si_id demo_inp) csr mac (si_env demo_inp)) = Inr b \<and> bd_NodeCert (jr_Bundle res) = bd_NodeCert b"
proof -
  obtain ca c res where ready: "honest_ready demo_crypto demo_inp (demo_coordinator ca c) demo_code"
    and unique: "no_collision demo_crypto demo_inp (demo_coordinator ca c) demo_code"
    and join: "Join demo_crypto (honest_rpc demo_crypto demo_inp ''desk'' (demo_coordinator ca c)) ''10.0.0.5:7444'' demo_code ''desk''
       (Some 11) [] demo_now demo_now = Inr res"
    by (rule demo_join)
  define s where "s = demo_coordinator ca c"
  note ready = ready[folded s_def] and unique = unique[folded s_def] and join = join[folded s_def]
  let ?q = "begin_state (ps_Pairer s) (si_now_gc demo_inp) (si_id demo_inp) (honest_session demo_inp)"
  let ?mac = "\<lambda>csr. ClientMAC (DeriveKey demo_crypto demo_code (si_salt demo_inp)) (si_id demo_inp) (CertHash (id_Cert (ps_Identity s))) csr"
  obtain csr b q' where c: "Complete demo_crypto ?q (si_id demo_inp) csr (?mac csr) (si_env demo_inp) = (Inr b, q')"
    and mac: "bd_ServerMAC (jr_Bundle res) = bd_ServerMAC b" and raw: "Raw (bd_CACert (jr_Bundle res)) = Raw (bd_CACert b)"
    "Raw (bd_NodeCert (jr_Bundle res)) = Raw (bd_NodeCert b)"
    using honest_answer[OF ready join] by blast
  obtain p' where claim: "complete_claim demo_crypto ?q (si_id demo_inp) csr (?mac csr) (si_env demo_inp) =
      (Inr (honest_session demo_inp, demo_code, DeriveKey demo_crypto demo_code (si_salt demo_inp)), p')" and inv: "pairer_inv ?q"
    and issue: "complete_issue demo_crypto (ps_CA s) (pa_nodeTTL (ps_Pairer s)) (honest_session demo_inp)
      (DeriveKey demo_crypto demo_code (si_salt demo_inp)) csr (ce_serial (si_env demo_inp)) (ce_now_sign (si_env demo_inp))
      (ce_entropy (si_env demo_inp)) = Inr b"
    by (rule honest_claim[OF ready unique, of csr]) (use c that in auto)
  have ca: "bd_CACert b = ca_Cert (pa_ca ?q)" using issue ready by (elim complete_issue_Inr) (simp add: begin_state_sel honest_ready_def)
  have "length (si_id demo_inp) = SessionIDLen" "\<And>xs. set (ce_order (si_env demo_inp) xs) = set xs" using ready by (simp_all add: honest_ready_def)
  moreover have "rpc_Begin (honest_rpc demo_crypto demo_inp ''desk'' s) \<lparr>brq_NodeId = ''desk''\<rparr> =
      Inr (\<lparr>brs_SessionId = si_id demo_inp, brs_Salt = si_salt demo_inp, brs_MeshId = MeshID (ps_CA s),
         brs_ExpiresAt = si_now_exp demo_inp + DefaultSessionTTL\<rparr>, honest_peer s)"
    by (simp add: honest_rpc_def honest_begin_ok[OF ready])
  ultimately have "bd_NodeCert (jr_Bundle res) = bd_NodeCert b"
    using bundle_authentic[OF join _ inv _ claim, of _ _ b] c mac raw ca by (simp add: framed_def macs_apart_def no_clash_def)
  then show ?thesis using join c by (metis fst_conv)
qed

end
