(* ===== verification/Spec2Isabelle.thy ===== *)
theory Spec2Isabelle
  imports Bootstrap Channel_Binding
begin

text \<open>
  \<^bold>\<open>compute-mesh\<close>: a mesh of machines on a local network that know each other by certificates of one
  mesh CA. This development models the hand-written Go code of the repository and proves what makes
  it correct. File names below are relative to \<^verbatim>\<open>src/\<close>.

  \<^bold>\<open>The program.\<close> \<^verbatim>\<open>meshctl init\<close> creates the CA, a node certificate and an administrator
  certificate in a data directory. \<^verbatim>\<open>meshd\<close> loads the identity of the machine from such a directory,
  serves gRPC over mutual TLS and announces itself over mDNS; with \<^verbatim>\<open>--coordinator\<close> it also loads the
  CA, opens a second listener for pairing, and serves the admin API. \<^verbatim>\<open>meshctl pair\<close> asks the admin API
  for a one-time code of eight digits. \<^verbatim>\<open>meshctl join\<close> on a new machine finds the pairing listener,
  proves in two calls that it knows the code, is given a certificate in return, checks that the
  coordinator knew the code too, and stores what it got.

  \<^bold>\<open>The theories\<close>, each after the ones it uses.

  \<^item> \<open>Prelude\<close>, \<open>GoStrings\<close>, \<open>Sha256\<close>, \<open>Errors\<close>, \<open>FileSystem\<close>, \<open>X509\<close>: the part of Go's language and
    standard library that the code uses. An operation that can fail returns \<open>err + 'a\<close>, with the
    sentinel errors of the source as constructors, and \<^verbatim>\<open>errors.Is\<close> as a function; one that changes
    files is a function on \<open>fs\<close>, a record of directories and files with modes, an umask, and the
    failures of system calls. Durations are 64-bit (\<open>wrap64\<close>, saturation of \<^verbatim>\<open>time.Sub\<close>), times are
    nanoseconds as \<open>int\<close>, strings and byte slices are lists, Go maps are association lists. SHA-256 and
    HMAC are written out on \<open>32 word\<close>. The checks of \<^verbatim>\<open>crypto/x509\<close> are written out.
  \<^item> \<open>GoNumbers\<close>, \<open>GoFormat\<close>, \<open>Flag\<close>: reading and printing of numbers, booleans, durations and dates as
    \<^verbatim>\<open>strconv\<close> and \<^verbatim>\<open>time\<close> do it, and package \<^verbatim>\<open>flag\<close>: the loop over the words of a command line with
    its errors.
  \<^item> \<open>NodeName\<close>, \<open>Ledger\<close>: interfaces that more than one component provides (see below).
  \<^item> \<open>CA\<close> (\<^verbatim>\<open>internal/pki/ca.go\<close>), \<open>Pem\<close> (\<^verbatim>\<open>internal/pki/pem.go\<close>), \<open>Identity\<close>
    (\<^verbatim>\<open>internal/identity/nodeid.go\<close>): principals and their URIs, the CA, issuing and verifying; the
    files of a data directory; the node id.
  \<^item> \<open>Pairing_Crypto\<close>, \<open>Pairer\<close>, \<open>Pairer_Concurrent\<close> (\<^verbatim>\<open>internal/pki/pairing.go\<close>): codes and MACs, the
    \<^verbatim>\<open>Pairer\<close>, and the \<^verbatim>\<open>Pairer\<close> under concurrent calls. The record \<open>pairer\<close> has the fields of the
    struct. Each critical section between \<^verbatim>\<open>Lock\<close> and \<^verbatim>\<open>Unlock\<close> is one definition; \<^verbatim>\<open>Complete\<close> is
    \<open>complete_lock1\<close>, \<open>match_loop\<close>, \<open>complete_lock2\<close> and \<open>complete_issue\<close> in a row, and \<open>cstep\<close> lets
    any number of calls stand between its two sections.
  \<^item> \<open>Transport\<close> (\<^verbatim>\<open>internal/transport/grpc_mtls.go\<close>): identities, the TLS configurations with what
    \<^verbatim>\<open>crypto/tls\<close> checks under them, dialling, and the role interceptor.
  \<^item> \<open>Pairing_Server\<close>, \<open>Pairing_Client\<close> (\<^verbatim>\<open>internal/pairing\<close>): the two ends of the pairing protocol.
  \<^item> \<open>Coordinator\<close> (\<^verbatim>\<open>internal/coordinator/admin.go\<close>): the admin service and its guard.
  \<^item> \<open>Peer\<close>, \<open>Ifaces\<close>, \<open>Mdns\<close> (\<^verbatim>\<open>internal/discovery\<close>): TXT records, addresses, the choice of network
    interfaces, the peer table and its bounded event channel.
  \<^item> \<open>Meshctl\<close> (\<^verbatim>\<open>cmd/meshctl/main.go\<close>): the flags of the commands; the commands, each a function from its
    options and its inputs to what it prints and the files it leaves; \<open>meshctl_run\<close> and \<open>meshctl_main\<close>
    from the words of the command line to the exit status.
  \<^item> \<open>Meshd\<close> (\<^verbatim>\<open>cmd/meshd/main.go\<close>): \<open>meshd_setup\<close> is the start of \<^verbatim>\<open>run\<close> with every error branch; the
    record \<open>daemon\<close> collects its local variables; \<open>daemon_step\<close> is one call, one round of discovery,
    one event taken by the main loop, or the signal that ends it.
  \<^item> \<open>Meshd_Concurrent\<close>: the running daemon with overlapping calls, \<open>cdaemon_step\<close>. A \<^verbatim>\<open>Complete\<close> is two
    inputs, one for each critical section; without overlap they are the uninterrupted call
    (\<open>start_finish_is_complete\<close>). \<open>meshd_run\<close> and \<open>meshd_main\<close> are the whole program.
  \<^item> \<open>Commandline\<close>: the flags of the two programs from the operator's side: command lines for given
    options, and the line that \<^verbatim>\<open>pair\<close> prints for the new machine.
  \<^item> \<open>Channel_Binding\<close>: a joiner, a relay and the coordinator: what the certificate hash in the MAC of
    the joiner achieves and what it does not.
  \<^item> \<open>Bootstrap\<close>: the commands against a running daemon. This theory holds the properties that span them.
  \<^item> \<open>DemoCrypto\<close>: a concrete encoding and signature scheme for which \<open>crypto_ok\<close> is proved, so that the
    witnesses show the hypotheses on cryptography can hold together.

  \<^bold>\<open>Interfaces.\<close> \<open>node_name\<close> is the contract of a check for names, met by \<open>validateLabel\<close> and by
  \<open>Validate\<close>, which makes the two equal. \<open>chain_verifier\<close> and its extension \<open>issuing_ca\<close> are what a client
  relies on in verification and signing, met by \<open>VerifyAgainst\<close> and \<open>Sign\<close>. \<open>file_writer\<close> is the contract
  of storing a file, met by \<open>writeFile\<close> and by \<open>write_id\<close>. \<open>single_use\<close> says that tokens are used at most
  as often as they are minted, in any run of a step relation; \<open>pairer_step\<close> and \<open>cstep\<close> meet it with codes
  as the tokens. \<open>metered\<close> is the counting form, met by the daemon. \<open>role_guard\<close> is the contract of the
  interceptor, met by \<open>role_check\<close>.

  \<^bold>\<open>What is shown.\<close>

  \<^item> Safety of admission: a daemon hands out at most one node certificate per call of the admin API by
    a verified administrator, however calls overlap; a code is accepted at most as often as it was issued under every
    interleaving; only node certificates of the mesh are handed out, for the key that signed the
    request; a joiner that succeeds has checked everything it stores, whatever the network did.
  \<^item> Contracts with every branch: \<open>Complete\<close> refines an abstract outcome relation; \<open>Begin\<close>, \<open>Sign\<close>,
    \<open>SignCSR\<close>, \<open>NewCA\<close>, \<open>VerifyAgainst\<close>, \<open>VerifyBundle\<close>, \<open>ServerTLS\<close>, \<open>Set\<close> and the status mapping are
    characterised on all inputs.
  \<^item> Invariants: the pairer (bounded sessions, distinct keys), the peer table and the event queue, and
    the daemon as a whole after any inputs and under any overlap of calls.
  \<^item> Channel binding: a MAC that a joiner made on another connection is refused by the coordinator, or
    a collision of SHA-256 is at hand (\<open>relay_refused\<close>). This needs the session id to have its proper length,
    which the joiner does not check; without it a relay can spend the code (\<open>relay_spends_code\<close>). In the other
    direction, a joiner that accepts a MAC of the coordinator holds the certificates that were issued
    in that session (\<open>bundle_authentic\<close>).
  \<^item> Liveness: pairing end to end, and the command lines of \<open>init\<close>, \<open>meshd\<close> and \<open>pair\<close> and the line that
    \<open>pair\<close> prints, in a row, succeed under stated conditions.
  \<^item> Command lines: flags keep their types and ranges whatever the words are, reading them ends, every
    choice of options can be written down and is read back.
  \<^item> Round trips: principals, codes, durations, dates, TXT records, CA files, a stored join result.
  \<^item> Files: without \<^verbatim>\<open>--force\<close> nothing is lost whatever system call fails; private keys get mode 0600.
  \<^item> A limit that does not hold: overlapping calls of \<open>Complete\<close> can fail without bound in a minute
    (\<open>failures_unbounded\<close>).

  \<^bold>\<open>Parameters and hypotheses.\<close> ASN.1, PEM, elliptic curves and Argon2 are the record \<open>crypto\<close>;
  \<open>crypto_ok\<close> states that signatures verify, keys keep their curve and encodings decode. No theorem
  assumes that something is hard to forge: statements are about what is checked. \<open>relay_refused\<close> and
  \<open>bundle_authentic\<close> name the pairs of strings that would have to be collisions of SHA-256 for them to fail
  (\<open>no_clash\<close>); the latter also uses that of two DER encodings neither begins with the other (\<open>framed\<close>). Randomness, clock
  readings and the order in which Go ranges over a map are arguments wherever the code reads them;
  network calls are functions given to the caller; the zeroconf library is the record \<open>zeroconf\<close>;
  \<open>listen_ok\<close> states that no listener opens on a port above 65535.

  \<^bold>\<open>Loops.\<close> No definition needs fuel: recursion is structural or has a termination proof. The latter are
  \<open>trim_seqs\<close>, \<open>strip_local\<close> and \<open>duration_loop\<close>, which shorten their string, \<open>parse_loop\<close>, which uses up the
  words of the command line, and \<open>ilog2\<close> and \<open>nat_digits\<close>, which divide a number. The loops of \<^verbatim>\<open>meshd\<close> and of
  discovery that run until a signal are functions of the list of their inputs.

  \<^bold>\<open>Not modelled.\<close> The protocol definitions for the node, inference and scheduler services have no
  hand-written code behind them. Generated marshalling, the internals of gRPC, TLS records and
  zeroconf, log output and the texts of the flags are left out, and so are the two
  lines that \<open>join\<close> prints while it looks for a coordinator. Every other function of the hand-written files has a
  definition; stopping the two servers is the end of \<open>daemon\<close> inputs in \<open>meshd_shutdown\<close>. Of the
  interleaving of goroutines the model has what the locks leave open: operations that hold a lock once
  are one step, and a \<open>Complete\<close> is two. Timeouts show up as failing calls.
\<close>

section \<open>Setting up a mesh\<close>



section \<open>The daemon\<close>

text \<open>
  C19. What a started daemon tells the network. Starting does not change the disk. The advertised node
  id, mesh and fingerprint are those of the certificate that was loaded, and the TXT record parses
  back to them; it names a pairing port exactly for a coordinator with a positive pairing port.
\<close>

theorem meshd_advertises_identity:
  assumes "meshd_setup C cfg env s = (Inr d, s')" "listen_ok env"
  shows "s' = s \<and> LoadNodeIdentity C (cf_dataDir cfg) (me_Now env) s = (Inr (dm_Identity d), s) \<and>
    (\<exists>ts p. md_server (dm_Mdns d) = Some ts \<and> ParseTXT ts = Inr p \<and>
       pe_NodeID p = pr_Name (id_Principal (dm_Identity d)) \<and> pe_MeshID p = id_MeshID (dm_Identity d) \<and>
       pe_Fingerprint p = Fingerprint (id_Cert (dm_Identity d)) \<and> pe_GRPCPort p = cf_grpcPort cfg \<and>
       (IsCoordinator p \<longleftrightarrow> cf_coordinator cfg \<and> 0 < cf_pairPort cfg) \<and> (IsCoordinator p \<longrightarrow> pe_PairPort p = cf_pairPort cfg))"
  by (rule meshd_setup_cases[OF assms(1)]) (use meshd_advert[OF assms] in blast)

theorem meshd_advertises_identity_witness:
  "\<exists>s d ts p. meshd_setup demo_crypto demo_meshd demo_env_meshd s = (Inr d, s) \<and> md_server (dm_Mdns d) = Some ts \<and>
     ParseTXT ts = Inr p \<and> pe_MeshID p = ''home'' \<and> IsCoordinator p"
proof (rule demo_coordinator_runs)
  fix s d assume d: "meshd_setup demo_crypto demo_meshd demo_env_meshd s = (Inr d, s)" "id_MeshID (dm_Identity d) = ''home''"
  from meshd_advertises_identity[OF d(1) demo_listen_ok] d show ?thesis by (auto simp: demo_meshd_def)
qed

text \<open>
  C1. Certificates are paid for with codes from administrators. Whatever calls, browse results, ticks
  and signals a daemon sees after it started, and however calls of \<^verbatim>\<open>Complete\<close> overlap, it hands out
  at most as many node certificates as there were calls of the admin service by a client whose
  certificate verifies, at the time of the call, against the mesh CA as an administrator of the mesh.
\<close>

theorem daemon_certificates_paid:
  assumes up: "meshd_setup C cfg env s = (Inr d, s')" and run: "cdaemon_run C is (calm d) = (outs, st)"
  shows "length (filter is_paired outs) \<le> length (filter (by_admin_call C (dm_Identity d)) is)"
proof -
  have r: "run (cdaemon_trans C) (calm d) (zip is outs) st" and len: "length is = length outs" using cdaemon_run_trans[OF run] by simp_all
  have d: "cd_daemon (calm d) = d" by (simp add: calm_def)
  have "length (filter (\<lambda>e. is_paired (snd e)) (zip is outs)) + active_codes (cd_daemon st) \<le>
      active_codes d + length (filter (\<lambda>e. by_admin_call C (dm_Identity d) (fst e)) (zip is outs))"
    using daemon_meter.spending_bounded[OF r, of "dm_Identity d"] meshd_setup_guarded[OF up] unfolding d by simp
  then show ?thesis
    using zip_count[OF len, of "by_admin_call C (dm_Identity d)" is_paired] meshd_setup_no_codes[OF up] by simp
qed

theorem daemon_certificates_paid_witness:
  "\<exists>s d c create start outs st. meshd_setup demo_crypto demo_meshd demo_env_meshd s = (Inr d, s) \<and>
     create = Whole (InCreate [c] demo_now \<lparr>cpr_TtlSeconds = 60\<rparr> (Some 42) demo_now demo_now) \<and>
     by_admin_call demo_crypto (dm_Identity d) create \<and>
     start = Start \<lparr>crq_SessionId = [], crq_CsrDer = [], crq_ClientMac = []\<rparr> id demo_now \<and>
     cdaemon_run demo_crypto [create, start, start, Finish 1 demo_env, Finish 0 demo_env] (calm d) = (outs, st) \<and>
     length (filter is_paired outs) \<le> 1"
proof (rule demo_admin_runs)
  fix s d c
  assume d: "meshd_setup demo_crypto demo_meshd demo_env_meshd s = (Inr d, s)" "dm_Pairing d \<noteq> None"
    and c: "admin_call demo_crypto d [c] demo_now = Inr ()"
  let ?create = "Whole (InCreate [c] demo_now \<lparr>cpr_TtlSeconds = 60\<rparr> (Some 42) demo_now demo_now)"
  let ?start = "Start \<lparr>crq_SessionId = [], crq_CsrDer = [], crq_ClientMac = []\<rparr> id demo_now"
  have paid: "by_admin_call demo_crypto (dm_Identity d) ?create"
    using admin_call_by_admin[OF meshd_setup_guarded[OF d(1)] d(2) c] by (simp add: by_admin_call_def)
  obtain outs st where r: "cdaemon_run demo_crypto [?create, ?start, ?start, Finish 1 demo_env, Finish 0 demo_env] (calm d) = (outs, st)"
    by fastforce
  have "length (filter is_paired outs) \<le> 1"
    using daemon_certificates_paid[OF d(1) r] paid by (simp add: by_admin_call_def)
  then show ?thesis using d(1) paid r by blast
qed

text \<open>
  C9. The state of a running daemon. After any inputs, whose random numbers have the size the program
  asks for, and with any overlap of calls, the identity is the one it started with; every known peer
  belongs to the same mesh and is another node; at most 64 events wait; and a coordinator's pairer has
  its invariant and signs with a CA of the same mesh.
\<close>

theorem daemon_run_invariant:
  assumes up: "meshd_setup C cfg env s = (Inr d, s')" and ok: "list_all cinput_ok is" and run: "cdaemon_run C is (calm d) = (outs, st)"
    and after: "d' = cd_daemon st"
  shows "dm_Identity d' = dm_Identity d \<and>
    (\<forall>p \<in> set (Peers (dm_Mdns d')). pe_MeshID p = id_MeshID (dm_Identity d) \<and> pe_NodeID p \<noteq> pr_Name (id_Principal (dm_Identity d))) \<and>
    length (md_events (dm_Mdns d')) \<le> 64 \<and>
    (\<forall>ps. dm_Pairing d' = Some ps \<longrightarrow> pairer_inv (ps_Pairer ps) \<and> pa_ca (ps_Pairer ps) = ps_CA ps \<and>
       MeshID (ps_CA ps) = id_MeshID (dm_Identity d))"
  unfolding after
  using daemon_inv_use[OF cdaemon_run_inv[OF run ok, of "dm_Identity d"]] meshd_setup_inv[OF up] by (simp add: calm_def)

theorem daemon_run_invariant_witness:
  "\<exists>s d outs st. meshd_setup demo_crypto demo_meshd demo_env_meshd s = (Inr d, s) \<and>
     cdaemon_run demo_crypto [Whole (InTick demo_now id), Whole InTake] (calm d) = (outs, st) \<and>
     length (md_events (dm_Mdns (cd_daemon st))) \<le> 64"
proof (rule demo_coordinator_runs)
  fix s d assume d: "meshd_setup demo_crypto demo_meshd demo_env_meshd s = (Inr d, s)"
  obtain outs st where r: "cdaemon_run demo_crypto [Whole (InTick demo_now id), Whole InTake] (calm d) = (outs, st)" by fastforce
  from daemon_run_invariant[OF d _ r refl] d r show ?thesis by (auto simp: cinput_ok_def input_ok_def)
qed

end
